theory Spec2Isabelle
  imports Main "HOL-Library.Word"
begin

unbundle bit_operations_syntax

section \<open>Machine types and the register bus\<close>

type_synonym u8 = "8 word"
type_synonym u16 = "16 word"
type_synonym u32 = "32 word"
type_synonym u64 = "64 word"

text \<open>
  The sensor sits behind an I2C (SCCB) bus. The model of the bus collaborator: a register
  file \<open>regs\<close> of 8-bit registers at 16-bit addresses, a flag \<open>bus_ok\<close> telling whether
  transfers are acknowledged, and \<open>wlog\<close>, the register writes the driver has issued, in
  order (a write that is not acknowledged is logged but leaves \<open>regs\<close> unchanged).
\<close>

record bus =
  regs :: "u16 \<Rightarrow> u8"
  bus_ok :: bool
  wlog :: "(u16 \<times> u8) list"

text \<open>Register addresses shared by \<^verbatim>\<open>imx662_regs.h\<close> and \<^verbatim>\<open>fr_imx662_regs.h\<close>.\<close>

abbreviation (input) STANDBY :: u16 where "STANDBY \<equiv> 0x3000"
abbreviation (input) REGHOLD :: u16 where "REGHOLD \<equiv> 0x3001"
abbreviation (input) XMSTA :: u16 where "XMSTA \<equiv> 0x3002"
abbreviation (input) DATARATE_SEL :: u16 where "DATARATE_SEL \<equiv> 0x3015"
abbreviation (input) ADDMODE :: u16 where "ADDMODE \<equiv> 0x301B"
abbreviation (input) HREVERSE :: u16 where "HREVERSE \<equiv> 0x3020"
abbreviation (input) VREVERSE :: u16 where "VREVERSE \<equiv> 0x3021"
abbreviation (input) VMAX_LOW :: u16 where "VMAX_LOW \<equiv> 0x3028"
abbreviation (input) VMAX_MID :: u16 where "VMAX_MID \<equiv> 0x3029"
abbreviation (input) VMAX_HIGH :: u16 where "VMAX_HIGH \<equiv> 0x302A"
abbreviation (input) HMAX_LOW :: u16 where "HMAX_LOW \<equiv> 0x302C"
abbreviation (input) HMAX_HIGH :: u16 where "HMAX_HIGH \<equiv> 0x302D"
abbreviation (input) LANEMODE :: u16 where "LANEMODE \<equiv> 0x3040"
abbreviation (input) SHR0_LOW :: u16 where "SHR0_LOW \<equiv> 0x3050"
abbreviation (input) SHR0_MID :: u16 where "SHR0_MID \<equiv> 0x3051"
abbreviation (input) SHR0_HIGH :: u16 where "SHR0_HIGH \<equiv> 0x3052"
abbreviation (input) SHR1_LOW :: u16 where "SHR1_LOW \<equiv> 0x3054"
abbreviation (input) RHS1_LOW :: u16 where "RHS1_LOW \<equiv> 0x3060"
abbreviation (input) RHS1_MID :: u16 where "RHS1_MID \<equiv> 0x3061"
abbreviation (input) RHS1_HIGH :: u16 where "RHS1_HIGH \<equiv> 0x3062"
abbreviation (input) GAIN_LOW :: u16 where "GAIN_LOW \<equiv> 0x3070"
abbreviation (input) XVS_XHS_DRV :: u16 where "XVS_XHS_DRV \<equiv> 0x30A6"
abbreviation (input) EXTMODE :: u16 where "EXTMODE \<equiv> 0x30CE"
abbreviation (input) BLKLEVEL_LOW :: u16 where "BLKLEVEL_LOW \<equiv> 0x30DC"
abbreviation (input) BLKLEVEL_HIGH :: u16 where "BLKLEVEL_HIGH \<equiv> 0x30DD"
abbreviation (input) TPG_EN_DUOUT :: u16 where "TPG_EN_DUOUT \<equiv> 0x30E0"
abbreviation (input) TPG_PATSEL_DUOUT :: u16 where "TPG_PATSEL_DUOUT \<equiv> 0x30E2"
abbreviation (input) TPG_COLORWIDTH :: u16 where "TPG_COLORWIDTH \<equiv> 0x30E4"
abbreviation (input) TESTCLKEN :: u16 where "TESTCLKEN \<equiv> 0x4900"

text \<open>Linux error numbers returned negated by the drivers.\<close>

abbreviation (input) EIO :: int where "EIO \<equiv> 5"
abbreviation (input) EINVAL :: int where "EINVAL \<equiv> 22"
abbreviation (input) ERANGE :: int where "ERANGE \<equiv> 34"

datatype mbus_code =
  MEDIA_BUS_FMT_SRGGB8_1X8 | MEDIA_BUS_FMT_SRGGB10_1X10 | MEDIA_BUS_FMT_SRGGB12_1X12

section \<open>imx662\_mipi.c: gain-time table and register-code lookup\<close>

text \<open>
  \<^verbatim>\<open>static const u32 gain_reg2times[IMX662_GAIN_REG_LEN]\<close>, the 241 entries
  \<open>10 ** (gain_db / 20) * 1024\<close> in steps of 0.3 dB.
\<close>

definition IMX662_GAIN_REG_LEN :: nat where
  "IMX662_GAIN_REG_LEN = 241"

definition gain_reg2times :: "u32 list" where
  "gain_reg2times = [
    1024, 1060, 1097, 1136, 1176, 1217, 1260, 1304, 1350, 1397, 1446, 1497, 1550,
    1604, 1661, 1719, 1780, 1842, 1907, 1974, 2043, 2115, 2189, 2266, 2346, 2428,
    2514, 2602, 2693, 2788, 2886, 2987, 3092, 3201, 3314, 3430, 3551, 3675, 3805,
    3938, 4077, 4220, 4368, 4522, 4681, 4845, 5015, 5192, 5374, 5563, 5758, 5961,
    6170, 6387, 6611, 6844, 7084, 7333, 7591, 7858, 8134, 8420, 8716, 9022, 9339,
    9667, 10007, 10359, 10723, 11099, 11489, 11893, 12311, 12744, 13192, 13655, 14135,
    14632, 15146, 15678, 16229, 16800, 17390, 18001, 18634, 19289, 19966, 20668,
    21394, 22146, 22925, 23730, 24564, 25427, 26321, 27246, 28203, 29194, 30220,
    31282, 32382, 33520, 34698, 35917, 37179, 38486, 39838, 41238, 42687, 44188,
    45740, 47348, 49012, 50734, 52517, 54363, 56273, 58251, 60298, 62417, 64610,
    66881, 69231, 71664, 74182, 76789, 79488, 82281, 85173, 88166, 91264, 94471,
    97791, 101228, 104785, 108468, 112279, 116225, 120310, 124537, 128914, 133444,
    138134, 142988, 148013, 153215, 158599, 164172, 169942, 175914, 182096, 188495,
    195119, 201976, 209074, 216421, 224027, 231900, 240049, 248485, 257217, 266256,
    275613, 285299, 295325, 305703, 316446, 327567, 339078, 350994, 363329, 376097,
    389314, 402995, 417157, 431817, 446992, 462700, 478961, 495793, 513216, 531251,
    549921, 569246, 589250, 609958, 631393, 653582, 676550, 700326, 724936, 750412,
    776783, 804081, 832338, 861589, 891867, 923209, 955652, 989236, 1024000, 1059986,
    1097236, 1135795, 1175709, 1217026, 1259795, 1304067, 1349895, 1397333, 1446438,
    1497269, 1549887, 1604353, 1660734, 1719095, 1779508, 1842044, 1906777, 1973786,
    2043149, 2114949, 2189273, 2266209, 2345848, 2428287, 2513622, 2601956, 2693394,
    2788046, 2886024, 2987445, 3092431, 3201105, 3313599, 3430046, 3550585, 3675361,
    3804521, 3938220, 4076617]"

text \<open>
  The \<^verbatim>\<open>while ((l + 1) < r)\<close> loop of \<^verbatim>\<open>imx662_get_gain_reg\<close>. The
  indices \<open>l\<close>, \<open>r\<close> and \<open>mid\<close> are \<^verbatim>\<open>u32\<close> in the source; they never leave
  \<open>0..240\<close>, so \<open>l + r\<close> cannot wrap and they are kept as \<open>nat\<close>.
\<close>

function gain_search :: "u32 \<Rightarrow> nat \<Rightarrow> nat \<Rightarrow> nat \<times> nat" where
  "gain_search gain l r =
     (if l + 1 < r then
        (let mid = (l + r) div 2 in
         if gain_reg2times ! mid > gain then gain_search gain l mid
         else gain_search gain mid r)
      else (l, r))"
  by pat_completeness auto
termination
  by (relation "measure (\<lambda>(gain, l, r). r - l)") auto

declare gain_search.simps [simp del]

text \<open>
  \<^verbatim>\<open>static u32 imx662_get_gain_reg(u32 gain)\<close>: out-of-range inputs return 0 or
  240; otherwise the closer of the two bracketing indices, the differences computed in
  \<^verbatim>\<open>u32\<close>.
\<close>

definition imx662_get_gain_reg :: "u32 \<Rightarrow> u32" where
  "imx662_get_gain_reg gain =
     (if gain < gain_reg2times ! 0 then 0
      else if gain > gain_reg2times ! (IMX662_GAIN_REG_LEN - 1) then 240
      else
        (case gain_search gain 0 (IMX662_GAIN_REG_LEN - 1) of (l, r) \<Rightarrow>
           if gain - gain_reg2times ! l < gain_reg2times ! r - gain
           then of_nat l else of_nat r))"

text \<open>Auxiliary notions for reasoning about the table: adjacent entries increase.\<close>

fun increasing :: "nat list \<Rightarrow> bool" where
  "increasing (x # y # zs) = (x < y \<and> increasing (y # zs))"
| "increasing _ = True"

definition gain_times :: "nat \<Rightarrow> nat" where
  "gain_times i = unat (gain_reg2times ! i)"

section \<open>imx662\_mipi.c: the sensor instance\<close>

datatype mode_index =
  IMX662_ALL_PIXEL_INDEX | IMX662_CROP_INDEX | IMX662_BINNING_INDEX
  | IMX662_BINNING_CROP_INDEX | IMX662_DOL_INDEX | IMX662_CLEAR_INDEX

text \<open>
  \<^verbatim>\<open>struct imx662\<close> of \<^verbatim>\<open>imx662_mipi.c\<close>: the fields of
  \<^verbatim>\<open>cur_mode\<close> and \<^verbatim>\<open>cur_mode.ae_info\<close> that the operations below read or
  write, the format code, the power and stream flags, the data-rate control's value, and
  the bus. \<open>gmsl\<close> is \<^verbatim>\<open>!strcmp(sensor->gmsl, "gmsl")\<close>; \<open>ser_setup_rc\<close>,
  \<open>dser_setup_rc\<close> and \<open>dser_start_rc\<close> are what the serializer/deserializer
  collaborator returns from its streaming set-up calls.
\<close>

record sensor = bus +
  index :: mode_index
  curr_frm_len_lines :: u32
  one_line_exp_time_ns :: u32
  max_integration_line :: u32
  min_integration_line :: u32
  max_vsintegration_line :: u32
  min_vsintegration_line :: u32
  cur_fps :: u32
  max_fps :: u32
  min_fps :: u32
  format_code :: mbus_code
  powered_on :: u32
  stream_status :: u32
  data_rate_val :: u8
  gmsl :: bool
  ser_setup_rc :: int
  dser_setup_rc :: int
  dser_start_rc :: int

abbreviation (input) IMX662_MIN_SHR0_LENGTH :: u32 where "IMX662_MIN_SHR0_LENGTH \<equiv> 4"
abbreviation (input) IMX662_MIN_SHR0_CLEAR_LENGTH :: u32 where "IMX662_MIN_SHR0_CLEAR_LENGTH \<equiv> 8"
abbreviation (input) IMX662_MIN_SHR0_RHS1_DIST :: u32 where "IMX662_MIN_SHR0_RHS1_DIST \<equiv> 5"
abbreviation (input) IMX662_MIN_SHR1_LENGTH :: u32 where "IMX662_MIN_SHR1_LENGTH \<equiv> 5"
abbreviation (input) IMX662_MIN_INTEGRATION_LINES :: u32 where "IMX662_MIN_INTEGRATION_LINES \<equiv> 1"
abbreviation (input) IMX662_MAX_VS_INTEGRATION_LINES :: u32 where "IMX662_MAX_VS_INTEGRATION_LINES \<equiv> 66"
abbreviation (input) IMX662_MIN_VS_INTEGRATION_LINES :: u32 where "IMX662_MIN_VS_INTEGRATION_LINES \<equiv> 2"
abbreviation (input) IMX662_BRL :: u32 where "IMX662_BRL \<equiv> 1120"
abbreviation (input) IMX662_MAX_BOUNDS_HEIGHT :: u32 where "IMX662_MAX_BOUNDS_HEIGHT \<equiv> 1250"
abbreviation (input) IMX662_LINE_TIME_H990 :: u32 where "IMX662_LINE_TIME_H990 \<equiv> 13333"
abbreviation (input) IMX662_LINE_TIME_H660 :: u32 where "IMX662_LINE_TIME_H660 \<equiv> 8904"
abbreviation (input) IMX662_INCK :: nat where "IMX662_INCK \<equiv> 74250000"
abbreviation (input) IMX662_K_FACTOR :: nat where "IMX662_K_FACTOR \<equiv> 1000"
abbreviation (input) IMX662_G_FACTOR :: nat where "IMX662_G_FACTOR \<equiv> 1000000000"
abbreviation (input) IMX662_M_FACTOR :: nat where "IMX662_M_FACTOR \<equiv> 1000000"
abbreviation (input) IMX662_TWO_LANE_MODE :: u8 where "IMX662_TWO_LANE_MODE \<equiv> 1"
abbreviation (input) IMX662_FOUR_LANE_MODE :: u8 where "IMX662_FOUR_LANE_MODE \<equiv> 3"
abbreviation (input) IMX662_BINNING_MODE :: u8 where "IMX662_BINNING_MODE \<equiv> 1"
abbreviation (input) IMX662_720_MBPS :: u8 where "IMX662_720_MBPS \<equiv> 6"
abbreviation (input) IMX662_594_MBPS :: u8 where "IMX662_594_MBPS \<equiv> 7"

text \<open>
  \<^verbatim>\<open>imx662_set_sensor_mode\<close>: the \<^verbatim>\<open>memcpy\<close> of the entry of
  \<^verbatim>\<open>pimx662_mode_info\<close> with the requested index into \<^verbatim>\<open>cur_mode\<close>
  (every index of the enumeration has an entry, so the \<^verbatim>\<open>-ENXIO\<close> exit is not
  reachable from a \<open>mode_index\<close>).
\<close>

definition imx662_set_sensor_mode :: "sensor \<Rightarrow> mode_index \<Rightarrow> sensor" where
  "imx662_set_sensor_mode s i =
     (case i of
        IMX662_ALL_PIXEL_INDEX \<Rightarrow>
          s\<lparr>index := i, curr_frm_len_lines := IMX662_MAX_BOUNDS_HEIGHT,
            one_line_exp_time_ns := IMX662_LINE_TIME_H990,
            max_integration_line := IMX662_MAX_BOUNDS_HEIGHT - 4,
            min_integration_line := IMX662_MIN_INTEGRATION_LINES,
            max_vsintegration_line := 0, min_vsintegration_line := 0,
            cur_fps := 30 * 1024, max_fps := 60 * 1024, min_fps := 5 * 1024\<rparr>
      | IMX662_CROP_INDEX \<Rightarrow>
          s\<lparr>index := i, curr_frm_len_lines := IMX662_MAX_BOUNDS_HEIGHT,
            one_line_exp_time_ns := IMX662_LINE_TIME_H990,
            max_integration_line := IMX662_MAX_BOUNDS_HEIGHT - 4,
            min_integration_line := IMX662_MIN_INTEGRATION_LINES,
            max_vsintegration_line := 0, min_vsintegration_line := 0,
            cur_fps := 60 * 1024, max_fps := 60 * 1024, min_fps := 5 * 1024\<rparr>
      | IMX662_BINNING_INDEX \<Rightarrow>
          s\<lparr>index := i, curr_frm_len_lines := IMX662_MAX_BOUNDS_HEIGHT,
            one_line_exp_time_ns := IMX662_LINE_TIME_H660,
            max_integration_line := IMX662_MAX_BOUNDS_HEIGHT - 4,
            min_integration_line := IMX662_MIN_INTEGRATION_LINES,
            max_vsintegration_line := 0, min_vsintegration_line := 0,
            cur_fps := 90 * 1024, max_fps := 90 * 1024, min_fps := 5 * 1024\<rparr>
      | IMX662_BINNING_CROP_INDEX \<Rightarrow>
          s\<lparr>index := i, curr_frm_len_lines := IMX662_MAX_BOUNDS_HEIGHT,
            one_line_exp_time_ns := IMX662_LINE_TIME_H660,
            max_integration_line := IMX662_MAX_BOUNDS_HEIGHT - 4,
            min_integration_line := IMX662_MIN_INTEGRATION_LINES,
            max_vsintegration_line := 0, min_vsintegration_line := 0,
            cur_fps := 60 * 1024, max_fps := 100 * 1024, min_fps := 5 * 1024\<rparr>
      | IMX662_DOL_INDEX \<Rightarrow>
          s\<lparr>index := i, curr_frm_len_lines := IMX662_MAX_BOUNDS_HEIGHT,
            one_line_exp_time_ns := IMX662_LINE_TIME_H990,
            max_integration_line :=
              2 * IMX662_MAX_BOUNDS_HEIGHT - IMX662_MAX_VS_INTEGRATION_LINES,
            min_integration_line := IMX662_MIN_INTEGRATION_LINES,
            max_vsintegration_line := IMX662_MAX_VS_INTEGRATION_LINES,
            min_vsintegration_line := IMX662_MIN_VS_INTEGRATION_LINES,
            cur_fps := 30 * 1024, max_fps := 30 * 1024, min_fps := 1 * 1024\<rparr>
      | IMX662_CLEAR_INDEX \<Rightarrow>
          s\<lparr>index := i, curr_frm_len_lines := IMX662_MAX_BOUNDS_HEIGHT * 2,
            one_line_exp_time_ns := IMX662_LINE_TIME_H990,
            max_integration_line := IMX662_MAX_BOUNDS_HEIGHT * 2 - 4,
            min_integration_line := 8,
            max_vsintegration_line := 0, min_vsintegration_line := 0,
            cur_fps := 30 * 1024, max_fps := 30 * 1024, min_fps := 5 * 1024\<rparr>)"

text \<open>
  A sensor instance right after probe: registers cleared, bus up, powered, not streaming,
  12-bit format, plain MIPI link, in the all-pixel mode. Used as the concrete state of the
  examples.
\<close>

definition sensor0 :: sensor where
  "sensor0 = imx662_set_sensor_mode
     \<lparr>regs = (\<lambda>_. 0), bus_ok = True, wlog = [],
      index = IMX662_ALL_PIXEL_INDEX, curr_frm_len_lines = 0, one_line_exp_time_ns = 0,
      max_integration_line = 0, min_integration_line = 0,
      max_vsintegration_line = 0, min_vsintegration_line = 0,
      cur_fps = 0, max_fps = 0, min_fps = 0,
      format_code = MEDIA_BUS_FMT_SRGGB12_1X12, powered_on = 1, stream_status = 0,
      data_rate_val = IMX662_594_MBPS, gmsl = False,
      ser_setup_rc = 0, dser_setup_rc = 0, dser_start_rc = 0\<rparr>
     IMX662_ALL_PIXEL_INDEX"

text \<open>The same instance switched to the line-interleaved HDR (DOL) mode.\<close>

definition dol0 :: sensor where
  "dol0 = imx662_set_sensor_mode sensor0 IMX662_DOL_INDEX"

text \<open>The same instance switched to the dual-gain clear-HDR mode.\<close>

definition clear0 :: sensor where
  "clear0 = imx662_set_sensor_mode sensor0 IMX662_CLEAR_INDEX"

subsection \<open>Register access\<close>

text \<open>
  \<^verbatim>\<open>imx662_write_reg\<close>: up to \<^verbatim>\<open>IMX662_MAX_RETRIES\<close> sends of the same
  message; 0 when one is acknowledged, the negative error of the last send otherwise
  (\<open>-EIO\<close> in this bus model).
\<close>

definition imx662_write_reg :: "sensor \<Rightarrow> u16 \<Rightarrow> u8 \<Rightarrow> int \<times> sensor" where
  "imx662_write_reg s reg val =
     (if bus_ok s
      then (0, s\<lparr>regs := (regs s)(reg := val), wlog := wlog s @ [(reg, val)]\<rparr>)
      else (- EIO, s\<lparr>wlog := wlog s @ [(reg, val)]\<rparr>))"

text \<open>
  \<^verbatim>\<open>imx662_read_reg\<close>: \<open>-1\<close> when the transfer fails, and then \<^verbatim>\<open>*val\<close>
  keeps its old content \<open>old\<close>.
\<close>

definition imx662_read_reg :: "sensor \<Rightarrow> u16 \<Rightarrow> u8 \<Rightarrow> int \<times> u8" where
  "imx662_read_reg s reg old = (if bus_ok s then (0, regs s reg) else (- 1, old))"

text \<open>
  The idiom \<^verbatim>\<open>ret = write(..); ret |= write(..); ...\<close>: every write is issued,
  the results are or-ed.
\<close>

fun imx662_write_seq :: "sensor \<Rightarrow> (u16 \<times> u8) list \<Rightarrow> int \<times> sensor" where
  "imx662_write_seq s [] = (0, s)"
| "imx662_write_seq s ((reg, val) # ws) =
     (case imx662_write_reg s reg val of (ret, s') \<Rightarrow>
        (case imx662_write_seq s' ws of (ret', s'') \<Rightarrow> (ret OR ret', s'')))"

subsection \<open>Exposure\<close>

text \<open>
  The integration-line count of \<^verbatim>\<open>imx662_set_exp\<close> and
  \<^verbatim>\<open>imx662_set_vs_exp\<close>:
  \<^verbatim>\<open>((exp >> 10) * IMX662_K_FACTOR) / one_line_exp_time_ns\<close> from the ISP,
  \<^verbatim>\<open>(exp * IMX662_K_FACTOR) / one_line_exp_time_ns\<close> from a V4L2 control. The
  product is a 64-bit \<^verbatim>\<open>long long\<close> and cannot overflow; the quotient is
  truncated to \<^verbatim>\<open>u32\<close>. A zero line time is a division trap: \<open>None\<close>.
\<close>

definition imx662_exp_lines :: "u32 \<Rightarrow> u8 \<Rightarrow> u32 \<Rightarrow> u32 option" where
  "imx662_exp_lines exp which_control line_ns =
     (if line_ns = 0 then None
      else Some (of_nat
        ((unat (if which_control = 0 then drop_bit 10 exp else exp) * IMX662_K_FACTOR)
          div unat line_ns)))"

text \<open>
  \<^verbatim>\<open>imx662_set_exp\<close> from the two clamps of \<^verbatim>\<open>integration_time_line\<close>
  to \<^verbatim>\<open>reg_shr0 = max_t(u32, min_shr0, reg_shr0)\<close>; \<open>imx662_min_shr0\<close> is its
  \<^verbatim>\<open>switch (sensor->cur_mode.index)\<close>.
\<close>

definition imx662_min_shr0 :: "mode_index \<Rightarrow> u32" where
  "imx662_min_shr0 i =
     (case i of IMX662_CLEAR_INDEX \<Rightarrow> IMX662_MIN_SHR0_CLEAR_LENGTH
      | _ \<Rightarrow> IMX662_MIN_SHR0_LENGTH)"

definition imx662_exp_shr0 :: "sensor \<Rightarrow> u32 \<Rightarrow> u32" where
  "imx662_exp_shr0 s lines =
     (let frame_length = curr_frm_len_lines s;
          l1 = (if lines > max_integration_line s then max_integration_line s else lines);
          l2 = (if l1 < min_integration_line s then min_integration_line s else l1);
          reg_shr0 =
            (if index s = IMX662_DOL_INDEX then
               (let r = 2 * frame_length - l2;
                    r = (if r mod 2 \<noteq> 0 then r - 1 else r)
                in if r > 2 * frame_length - IMX662_MIN_INTEGRATION_LINES
                   then 2 * frame_length - IMX662_MIN_INTEGRATION_LINES else r)
             else
               (let r = frame_length - l2
                in if r > frame_length - IMX662_MIN_INTEGRATION_LINES
                   then frame_length - IMX662_MIN_INTEGRATION_LINES else r));
          min_shr0 = imx662_min_shr0 (index s)
      in max min_shr0 reg_shr0)"

text \<open>The five writes that program \<^verbatim>\<open>SHR0\<close> under register hold.\<close>

definition shr0_writes :: "u32 \<Rightarrow> (u16 \<times> u8) list" where
  "shr0_writes reg_shr0 =
     [(REGHOLD, 1),
      (SHR0_HIGH, ucast (drop_bit 16 reg_shr0 AND 0xff)),
      (SHR0_MID, ucast (drop_bit 8 reg_shr0 AND 0xff)),
      (SHR0_LOW, ucast (reg_shr0 AND 0xff)),
      (REGHOLD, 0)]"

definition imx662_set_exp :: "sensor \<Rightarrow> u32 \<Rightarrow> u8 \<Rightarrow> (int \<times> sensor) option" where
  "imx662_set_exp s exp which_control =
     (case imx662_exp_lines exp which_control (one_line_exp_time_ns s) of
        None \<Rightarrow> None
      | Some lines \<Rightarrow> Some (imx662_write_seq s (shr0_writes (imx662_exp_shr0 s lines))))"

text \<open>
  \<^verbatim>\<open>imx662_get_exp_register\<close>: three byte reads assembled high byte first, the
  results or-ed.
\<close>

definition imx662_get_exp_register :: "sensor \<Rightarrow> int \<times> u32" where
  "imx662_get_exp_register s =
     (case imx662_read_reg s SHR0_HIGH 0 of (r1, v1) \<Rightarrow>
      case imx662_read_reg s SHR0_MID v1 of (r2, v2) \<Rightarrow>
      case imx662_read_reg s SHR0_LOW v2 of (r3, v3) \<Rightarrow>
        (r1 OR r2 OR r3,
         push_bit 8 (push_bit 8 (ucast v1) + ucast v2) + ucast v3))"

text \<open>
  \<^verbatim>\<open>imx662_set_vs_exp\<close> after the read of \<^verbatim>\<open>SHR0\<close>: the clamp of the
  sub-exposure integration lines to the mode's range.
\<close>

definition imx662_vs_lines :: "sensor \<Rightarrow> u32 \<Rightarrow> u32" where
  "imx662_vs_lines s lines =
     (let l1 = (if lines < min_vsintegration_line s then min_vsintegration_line s
                else lines)
      in if l1 > max_vsintegration_line s then max_vsintegration_line s else l1)"

text \<open>
  \<^verbatim>\<open>imx662_set_vs_exp\<close>: the candidate \<^verbatim>\<open>reg_rhs1\<close> "by datasheet
  conditions" (before the comparison with the integration target).
\<close>

definition imx662_vs_rhs1_max :: "u32 \<Rightarrow> u32" where
  "imx662_vs_rhs1_max reg_shr0 =
     (let r = reg_shr0 - IMX662_MIN_SHR0_RHS1_DIST;
          r = max (2 * IMX662_BRL - 1) r
      in if reg_shr0 \<le> r then reg_shr0 - 5 else r)"

text \<open>The value of \<^verbatim>\<open>reg_rhs1\<close> that is written.\<close>

definition imx662_vs_rhs1 :: "u32 \<Rightarrow> u32 \<Rightarrow> u32" where
  "imx662_vs_rhs1 reg_shr0 lines =
     (let reg_shr1 = IMX662_MIN_SHR1_LENGTH;
          r = imx662_vs_rhs1_max reg_shr0
      in if r - reg_shr1 > lines then
           (let r' = lines + reg_shr1 in if r' mod 2 \<noteq> 0 then r' else r' - 1)
         else r)"

definition rhs1_writes :: "u32 \<Rightarrow> (u16 \<times> u8) list" where
  "rhs1_writes reg_rhs1 =
     [(REGHOLD, 1),
      (SHR1_LOW, ucast IMX662_MIN_SHR1_LENGTH),
      (RHS1_LOW, ucast (reg_rhs1 AND 0xff)),
      (RHS1_MID, ucast (drop_bit 8 reg_rhs1 AND 0xff)),
      (RHS1_HIGH, ucast (drop_bit 16 reg_rhs1 AND 0xff)),
      (REGHOLD, 0)]"

definition imx662_set_vs_exp :: "sensor \<Rightarrow> u32 \<Rightarrow> u32 \<Rightarrow> (int \<times> sensor) option" where
  "imx662_set_vs_exp s exp which_control =
     (case imx662_get_exp_register s of (ret, reg_shr0) \<Rightarrow>
        if ret < 0 then Some (ret, s)
        else
          (case imx662_exp_lines exp (if which_control = 0 then 0 else 1)
                  (one_line_exp_time_ns s) of
             None \<Rightarrow> None
           | Some lines \<Rightarrow>
               Some (imx662_write_seq s
                 (rhs1_writes (imx662_vs_rhs1 reg_shr0 (imx662_vs_lines s lines))))))"

subsection \<open>Black level and frame rate\<close>

text \<open>
  \<^verbatim>\<open>imx662_set_black_level\<close>: \<^verbatim>\<open>val\<close> is an \<^verbatim>\<open>s64\<close>, so
  \<^verbatim>\<open>val >> 2\<close> is an arithmetic shift.
\<close>

definition imx662_black_level_reg :: "mbus_code \<Rightarrow> u64 \<Rightarrow> u64" where
  "imx662_black_level_reg code val =
     (if code = MEDIA_BUS_FMT_SRGGB10_1X10 then val else signed_drop_bit 2 val)"

definition imx662_set_black_level :: "sensor \<Rightarrow> u64 \<Rightarrow> u32 \<Rightarrow> int \<times> sensor" where
  "imx662_set_black_level s val which_control =
     (let black_level_reg = imx662_black_level_reg (format_code s) val
      in case imx662_write_seq s
           [(REGHOLD, 1),
            (BLKLEVEL_HIGH, ucast (signed_drop_bit 8 black_level_reg AND 0xff)),
            (BLKLEVEL_LOW, ucast (black_level_reg AND 0xff)),
            (REGHOLD, 0)] of
         (ret, s') \<Rightarrow> if ret < 0 then (ret, s') else (0, s'))"

text \<open>
  \<^verbatim>\<open>imx662_set_fps\<close>: the frame-length register from the clamped frame rate.
  \<^verbatim>\<open>(fps >> 10) * line_time\<close> is a \<^verbatim>\<open>u32\<close> product (it wraps); the
  division is done in \<^verbatim>\<open>long long\<close>, and a zero divisor is a trap: \<open>None\<close>.
\<close>

definition imx662_fps_reg :: "sensor \<Rightarrow> u32 \<Rightarrow> u32 option" where
  "imx662_fps_reg s fps =
     (let d = drop_bit 10 fps * one_line_exp_time_ns s
      in if d = 0 then None
         else Some
           (let fps_reg = (of_nat (IMX662_G_FACTOR div unat d) :: u32);
                fps_reg = (if index s = IMX662_DOL_INDEX then fps_reg div 2 else fps_reg)
            in if fps_reg mod 2 \<noteq> 0 then fps_reg + 1 else fps_reg))"

definition imx662_fps_clamp :: "sensor \<Rightarrow> u32 \<Rightarrow> u8 \<Rightarrow> u32" where
  "imx662_fps_clamp s fps which_control =
     (let fps = (if which_control = 1 then push_bit 10 fps else fps)
      in if fps > max_fps s then max_fps s
         else if fps < min_fps s then min_fps s else fps)"

text \<open>
  The five writes that program \<^verbatim>\<open>VMAX\<close> under register hold; the high and
  middle bytes are \<^verbatim>\<open>(u8)(fps_reg >> 16) & 0xff\<close> and
  \<^verbatim>\<open>(u8)(fps_reg >> 8) & 0xff\<close>.
\<close>

definition vmax_writes :: "u32 \<Rightarrow> (u16 \<times> u8) list" where
  "vmax_writes fps_reg =
     [(REGHOLD, 1),
      (VMAX_HIGH, (ucast (drop_bit 16 fps_reg) :: u8) AND 0xff),
      (VMAX_MID, (ucast (drop_bit 8 fps_reg) :: u8) AND 0xff),
      (VMAX_LOW, ucast (fps_reg AND 0xff)),
      (REGHOLD, 0)]"

definition imx662_set_fps :: "sensor \<Rightarrow> u32 \<Rightarrow> u8 \<Rightarrow> (int \<times> sensor) option" where
  "imx662_set_fps s fps which_control =
     (let fps = imx662_fps_clamp s fps which_control
      in case imx662_fps_reg s fps of
           None \<Rightarrow> None
         | Some fps_reg \<Rightarrow>
             (case imx662_write_seq s (vmax_writes fps_reg) of
              (ret, s') \<Rightarrow>
                if ret < 0 then Some (ret, s')
                else Some (ret, s'\<lparr>cur_fps := fps,
                  max_integration_line :=
                    (if index s' = IMX662_DOL_INDEX
                     then 2 * fps_reg - 2 - max_vsintegration_line s'
                     else fps_reg - min_integration_line s'),
                  curr_frm_len_lines := fps_reg\<rparr>)))"

subsection \<open>Data rate and line length\<close>

text \<open>
  \<^verbatim>\<open>imx662_adjust_hmax_register\<close>. In
  \<^verbatim>\<open>data_rate == IMX662_720_MBPS && ~binning_mode\<close> the \<^verbatim>\<open>u8\<close> is promoted
  to \<^verbatim>\<open>int\<close> before the complement.
\<close>

definition imx662_adjust_hmax_register :: "sensor \<Rightarrow> int \<times> sensor" where
  "imx662_adjust_hmax_register s =
     (case imx662_read_reg s DATARATE_SEL 255 of (ret, data_rate) \<Rightarrow>
      if ret < 0 then (ret, s) else
      case imx662_read_reg s ADDMODE 255 of (ret, binning_mode) \<Rightarrow>
      if ret < 0 then (ret, s) else
      (case (if data_rate = IMX662_720_MBPS \<and> NOT (uint binning_mode) \<noteq> 0
             then Some (660 :: u32)
             else if data_rate = IMX662_594_MBPS
             then Some (if binning_mode \<noteq> 0 then 660 else 990)
             else None) of
         None \<Rightarrow> (- 1, s)
       | Some hmax \<Rightarrow>
           (case imx662_write_seq s
              [(REGHOLD, 1),
               (HMAX_HIGH, ucast (drop_bit 8 hmax AND 0xff)),
               (HMAX_LOW, ucast (hmax AND 0xff)),
               (REGHOLD, 0)] of
            (ret, s') \<Rightarrow>
              if ret \<noteq> 0 then (ret, s')
              else (0, s'\<lparr>one_line_exp_time_ns :=
                      of_nat ((unat hmax * IMX662_G_FACTOR) div IMX662_INCK)\<rparr>))))"

definition imx662_change_data_rate :: "sensor \<Rightarrow> u8 \<Rightarrow> int \<times> sensor" where
  "imx662_change_data_rate s data_rate =
     (case imx662_read_reg s LANEMODE 0 of (ret, current_lane_mode) \<Rightarrow>
      if ret < 0 then (ret, s) else
      case (if current_lane_mode = IMX662_TWO_LANE_MODE
            then imx662_write_reg s LANEMODE IMX662_FOUR_LANE_MODE else (0, s)) of
        (ret, s1) \<Rightarrow>
      if ret < 0 then (ret, s1) else
      case imx662_read_reg s1 ADDMODE 0 of (ret, current_binning_mode) \<Rightarrow>
      if ret < 0 then (ret, s1) else
      if (if current_binning_mode = IMX662_BINNING_MODE
          then data_rate \<noteq> IMX662_594_MBPS
          else data_rate \<noteq> IMX662_720_MBPS \<and> data_rate \<noteq> IMX662_594_MBPS)
      then
        (case imx662_write_reg s1 DATARATE_SEL IMX662_594_MBPS of (ret, s2) \<Rightarrow>
           (ret, s2\<lparr>data_rate_val := IMX662_594_MBPS\<rparr>))
      else
        (case imx662_write_reg s1 DATARATE_SEL data_rate of (ret, s2) \<Rightarrow>
           if ret < 0 then (ret, s2) else (0, s2)))"

definition imx662_set_data_rate :: "sensor \<Rightarrow> u8 \<Rightarrow> int \<times> sensor" where
  "imx662_set_data_rate s data_rate =
     (case imx662_change_data_rate s data_rate of (ret, s1) \<Rightarrow>
        if ret < 0 then (ret, s1)
        else (case imx662_adjust_hmax_register s1 of (ret, s2) \<Rightarrow>
                if ret < 0 then (ret, s2) else (ret, s2)))"

subsection \<open>Stream on and off\<close>

text \<open>
  \<^verbatim>\<open>imx662_s_stream\<close>: the results of the two register writes are not looked
  at.
\<close>

definition imx662_s_stream :: "sensor \<Rightarrow> int \<Rightarrow> int \<times> sensor" where
  "imx662_s_stream s enable =
     (let s = s\<lparr>stream_status := of_int enable\<rparr>
      in if enable \<noteq> 0 then
           (if gmsl s \<and> ser_setup_rc s \<noteq> 0 then (ser_setup_rc s, s)
            else if gmsl s \<and> dser_setup_rc s \<noteq> 0 then (dser_setup_rc s, s)
            else if gmsl s \<and> dser_start_rc s \<noteq> 0 then (dser_start_rc s, s)
            else (0, snd (imx662_write_reg (snd (imx662_write_reg s STANDBY 0x00))
                            XMSTA 0x00)))
         else (0, snd (imx662_write_reg (snd (imx662_write_reg s STANDBY 0x01))
                         XMSTA 0x01)))"

text \<open>
  The DOL instance after the main exposure was set to 1333 microseconds from a V4L2
  control (99 lines, shutter register 2400).
\<close>

definition dol1 :: sensor where
  "dol1 = (case imx662_set_exp dol0 1333 1 of Some (ret, s) \<Rightarrow> s | None \<Rightarrow> dol0)"

text \<open>
  The DOL instance after the main exposure was set to 40 milliseconds (3000 lines, clamped
  to the mode's 2434; shutter register 66).
\<close>

definition dol2 :: sensor where
  "dol2 = (case imx662_set_exp dol0 40000 1 of Some (ret, s) \<Rightarrow> s | None \<Rightarrow> dol0)"

section \<open>fr\_imx662.c: the V4L2 sub-device driver\<close>

text \<open>
  A control object of the host framework (\<^verbatim>\<open>struct v4l2_ctrl\<close>): its range and
  the value the driver sees as \<^verbatim>\<open>ctrl->val\<close>.
\<close>

record v4l2_ctrl =
  minimum :: int
  maximum :: int
  step :: int
  default_value :: int
  val :: int

text \<open>
  Modelled from the spec: the host framework's range update
  \<^verbatim>\<open>__v4l2_ctrl_modify_range\<close> is Linux V4L2 core code and is not under
  \<^verbatim>\<open>src/\<close>. The spec says of it that the legal range is replaced and, "if the
  currently-held exposure value now falls outside that range", the framework must "clamp
  it to the nearest bound and re-apply". So: the control \<open>c\<close> gets the new range and the
  clamped value, is stored in the device state with \<open>put\<close>, and, when the clamp has
  changed the value, the driver's handler \<open>s_ctrl\<close> is called for the control (the
  handler writes registers only when the device is powered), its result being the result
  of the update. An invalid range (\<open>step = 0\<close>, \<open>min > max\<close>, default outside) is
  refused with \<open>-ERANGE\<close> and changes nothing.
\<close>

definition v4l2_ctrl_modify_range ::
    "v4l2_ctrl \<Rightarrow> (v4l2_ctrl \<Rightarrow> 's \<Rightarrow> 's) \<Rightarrow> ('s \<Rightarrow> (int \<times> 's) option) \<Rightarrow> 's \<Rightarrow>
     int \<Rightarrow> int \<Rightarrow> int \<Rightarrow> int \<Rightarrow> (int \<times> 's) option" where
  "v4l2_ctrl_modify_range c put s_ctrl s mn mx st df =
     (if st = 0 \<or> mn > mx \<or> df < mn \<or> df > mx then Some (- ERANGE, s)
      else
        (let v = (if val c < mn then mn else if val c > mx then mx else val c);
             s1 = put (c\<lparr>minimum := mn, maximum := mx, step := st, default_value := df,
                         val := v\<rparr>) s
         in if v \<noteq> val c then s_ctrl s1 else Some (0, s1)))"

text \<open>
  Modelled from the spec: \<^verbatim>\<open>__v4l2_ctrl_s_ctrl\<close>, also Linux V4L2 core code
  that is not under \<^verbatim>\<open>src/\<close>, is a parameter-change request made by the driver
  itself. The spec has the driver "accept parameter-change requests from the host
  framework at any time" and has the framework keep the requested value: the value is
  stored in the control and, when it differs from the value held, the driver's handler
  \<open>s_ctrl\<close> is called for the control.
\<close>

definition v4l2_ctrl_s_ctrl ::
    "v4l2_ctrl \<Rightarrow> (v4l2_ctrl \<Rightarrow> 's \<Rightarrow> 's) \<Rightarrow> ('s \<Rightarrow> (int \<times> 's) option) \<Rightarrow> 's \<Rightarrow>
     int \<Rightarrow> (int \<times> 's) option" where
  "v4l2_ctrl_s_ctrl c put s_ctrl s v =
     (if v = val c then Some (0, s) else s_ctrl (put (c\<lparr>val := v\<rparr>) s))"

datatype link_freq = GMSL_LINK_FREQ_1500 | IMX662_LINK_FREQ_720 | IMX662_LINK_FREQ_594

record imx662_mode =
  width :: u32
  height :: u32
  linkfreq :: link_freq
  pixel_rate :: u32
  mode_min_fps :: u32
  hmax :: u32
  reg_list :: "(u16 \<times> u8) list"
  reg_list_format :: "(u16 \<times> u8) list"

datatype ctrl_id =
  V4L2_CID_FRAME_RATE | V4L2_CID_VBLANK | V4L2_CID_ANALOGUE_GAIN | V4L2_CID_EXPOSURE
  | V4L2_CID_TEST_PATTERN | V4L2_CID_HFLIP | V4L2_CID_VFLIP | V4L2_CID_BLACK_LEVEL
  | V4L2_CID_OPERATION_MODE | V4L2_CID_SYNC_MODE | V4L2_CID_HBLANK | V4L2_CID_OTHER

text \<open>
  \<^verbatim>\<open>struct imx662\<close> of \<^verbatim>\<open>fr_imx662.c\<close>. The controls the driver keeps a
  pointer to are control objects; \<open>gain_val\<close>, \<open>test_pattern_val\<close>, \<open>hflip_val\<close> and
  \<open>vflip_val\<close> are the \<^verbatim>\<open>ctrl->val\<close> of the other controls. \<open>grabbed\<close> is the
  flag \<^verbatim>\<open>__v4l2_ctrl_grab\<close> sets on the flip, operation-mode and sync-mode
  controls. The remaining fields are the collaborators' answers: \<open>rpm_in_use\<close> is the
  result of \<^verbatim>\<open>pm_runtime_get_if_in_use\<close>, \<open>rpm_get_sync\<close> that of
  \<^verbatim>\<open>pm_runtime_get_sync\<close>, \<open>serdes_rc\<close> that of the first failing
  serializer/deserializer set-up call (0 when all succeed), \<open>handler_setup_rc\<close> that of
  \<^verbatim>\<open>__v4l2_ctrl_handler_setup\<close>.
\<close>

record fr_imx662 = bus +
  fmt_code :: mbus_code
  exposure :: v4l2_ctrl
  framerate :: v4l2_ctrl
  vblank :: v4l2_ctrl
  blklvl :: v4l2_ctrl
  operation_mode :: v4l2_ctrl
  sync_mode :: v4l2_ctrl
  gain_val :: int
  test_pattern_val :: int
  hflip_val :: int
  vflip_val :: int
  grabbed :: bool
  line_time :: u64
  frame_length :: u32
  mode :: imx662_mode
  streaming :: bool
  xmaster :: int
  fr_gmsl :: bool
  serdes_rc :: int
  rpm_in_use :: int
  rpm_get_sync :: int
  handler_setup_rc :: int

text \<open>
  Register tables of \<^verbatim>\<open>fr_imx662_regs.h\<close>: the common initialisation, and the
  tables of the 12-bit all-pixel mode \<^verbatim>\<open>modes_12bit[0]\<close>.
\<close>

definition mode_common_regs :: "(u16 \<times> u8) list" where
  "mode_common_regs =
    [(0x3040, 0x03), (0x3014, 0x01), (0x3444, 0xAC), (0x3460, 0x21), (0x3492, 0x08),
     (0x3A50, 0x62), (0x3A51, 0x01), (0x3A52, 0x19), (0x3B00, 0x39), (0x3B23, 0x2D),
     (0x3B45, 0x04), (0x3C0A, 0x1F), (0x3C0B, 0x1E), (0x3C38, 0x21), (0x3C44, 0x00),
     (0x3CB6, 0xD8), (0x3CC4, 0xDA), (0x3E24, 0x79), (0x3E2C, 0x15), (0x3EDC, 0x2D),
     (0x4498, 0x05), (0x449C, 0x19), (0x449D, 0x00), (0x449E, 0x32), (0x449F, 0x01),
     (0x44A0, 0x92), (0x44A2, 0x91), (0x44A4, 0x8C), (0x44A6, 0x87), (0x44A8, 0x82),
     (0x44AA, 0x78), (0x44AC, 0x6E), (0x44AE, 0x69), (0x44B0, 0x92), (0x44B2, 0x91),
     (0x44B4, 0x8C), (0x44B6, 0x87), (0x44B8, 0x82), (0x44BA, 0x78), (0x44BC, 0x6E),
     (0x44BE, 0x69), (0x44C0, 0x7F), (0x44C1, 0x01), (0x44C2, 0x7F), (0x44C3, 0x01),
     (0x44C4, 0x7A), (0x44C5, 0x01), (0x44C6, 0x7A), (0x44C7, 0x01), (0x44C8, 0x70),
     (0x44C9, 0x01), (0x44CA, 0x6B), (0x44CB, 0x01), (0x44CC, 0x6B), (0x44CD, 0x01),
     (0x44CE, 0x5C), (0x44CF, 0x01), (0x44D0, 0x7F), (0x44D1, 0x01), (0x44D2, 0x7F),
     (0x44D3, 0x01), (0x44D4, 0x7A), (0x44D5, 0x01), (0x44D6, 0x7A), (0x44D7, 0x01),
     (0x44D8, 0x70), (0x44D9, 0x01), (0x44DA, 0x6B), (0x44DB, 0x01), (0x44DC, 0x6B),
     (0x44DD, 0x01), (0x44DE, 0x5C), (0x44DF, 0x01), (0x4534, 0x1C), (0x4535, 0x03),
     (0x4538, 0x1C), (0x4539, 0x1C), (0x453A, 0x1C), (0x453B, 0x1C), (0x453C, 0x1C),
     (0x453D, 0x1C), (0x453E, 0x1C), (0x453F, 0x1C), (0x4540, 0x1C), (0x4541, 0x03),
     (0x4542, 0x03), (0x4543, 0x03), (0x4544, 0x03), (0x4545, 0x03), (0x4546, 0x03),
     (0x4547, 0x03), (0x4548, 0x03), (0x4549, 0x03)]"

definition raw12_framefmt_regs :: "(u16 \<times> u8) list" where
  "raw12_framefmt_regs =
    [(0x3022, 0x01), (0x3023, 0x01), (0x3A50, 0xFF), (0x3A51, 0x03), (0x3A52, 0x00)]"

definition mode_1920x1080 :: "(u16 \<times> u8) list" where
  "mode_1920x1080 =
    [(0x3018, 0x04), (0x301B, 0x00), (0x301A, 0x00), (0x301E, 0x01), (0x303D, 0x00),
     (0x303C, 0x08), (0x303F, 0x07), (0x303E, 0x80), (0x3045, 0x00), (0x3044, 0x0C),
     (0x3047, 0x04), (0x3046, 0x38)]"

definition modes_12bit_0 :: imx662_mode where
  "modes_12bit_0 =
     \<lparr>width = 1920, height = 1080, linkfreq = IMX662_LINK_FREQ_594,
      pixel_rate = 144000000, mode_min_fps = 1000000, hmax = 0x3DE,
      reg_list = mode_1920x1080, reg_list_format = raw12_framefmt_regs\<rparr>"

abbreviation (input) MASTER_MODE :: int where "MASTER_MODE \<equiv> 0"
abbreviation (input) SLAVE_MODE :: int where "SLAVE_MODE \<equiv> 1"
abbreviation (input) NO_SYNC :: int where "NO_SYNC \<equiv> 0"
abbreviation (input) INTERNAL_SYNC :: int where "INTERNAL_SYNC \<equiv> 1"
abbreviation (input) EXTERNAL_SYNC :: int where "EXTERNAL_SYNC \<equiv> 2"
abbreviation (input) IMX662_MODE_STANDBY :: u32 where "IMX662_MODE_STANDBY \<equiv> 0x01"
abbreviation (input) IMX662_MODE_STREAMING :: u32 where "IMX662_MODE_STREAMING \<equiv> 0x00"

text \<open>
  \<^verbatim>\<open>imx662_write_reg(imx662, reg, len, val)\<close>: the address big-endian, then the
  low \<open>len\<close> bytes of \<open>val\<close> little-endian, which the sensor stores at \<open>reg\<close>,
  \<open>reg + 1\<close>, ...
\<close>

definition fr_reg_bytes :: "u16 \<Rightarrow> u32 \<Rightarrow> u32 \<Rightarrow> (u16 \<times> u8) list" where
  "fr_reg_bytes reg len v =
     map (\<lambda>i. (reg + of_nat i, ucast (drop_bit (8 * i) v))) [0 ..< unat len]"

definition fr_imx662_write_reg :: "fr_imx662 \<Rightarrow> u16 \<Rightarrow> u32 \<Rightarrow> u32 \<Rightarrow> int \<times> fr_imx662" where
  "fr_imx662_write_reg s reg len v =
     (if len > 4 then (- EINVAL, s)
      else if bus_ok s
      then (0, s\<lparr>regs := fold (\<lambda>(a, b) f. f(a := b)) (fr_reg_bytes reg len v) (regs s),
                 wlog := wlog s @ fr_reg_bytes reg len v\<rparr>)
      else (- EIO, s\<lparr>wlog := wlog s @ fr_reg_bytes reg len v\<rparr>))"

text \<open>
  \<^verbatim>\<open>imx662_write_hold_reg\<close>. On the \<^verbatim>\<open>reghold_off\<close> path the result of
  releasing the hold replaces the error of the failed write, as in the source.
\<close>

definition fr_imx662_write_hold_reg ::
    "fr_imx662 \<Rightarrow> u16 \<Rightarrow> u32 \<Rightarrow> u32 \<Rightarrow> int \<times> fr_imx662" where
  "fr_imx662_write_hold_reg s reg len v =
     (case fr_imx662_write_reg s REGHOLD 1 0x01 of (ret, s1) \<Rightarrow>
      if ret \<noteq> 0 then (ret, s1) else
      case fr_imx662_write_reg s1 reg len v of (ret, s2) \<Rightarrow>
      if ret \<noteq> 0 then fr_imx662_write_reg s2 REGHOLD 1 0x00
      else
        (case fr_imx662_write_reg s2 REGHOLD 1 0x00 of (ret, s3) \<Rightarrow>
           if ret \<noteq> 0 then (ret, s3) else (0, s3)))"

fun fr_imx662_write_table :: "fr_imx662 \<Rightarrow> (u16 \<times> u8) list \<Rightarrow> int \<times> fr_imx662" where
  "fr_imx662_write_table s [] = (0, s)"
| "fr_imx662_write_table s ((address, v) # rest) =
     (case fr_imx662_write_reg s address 1 (ucast v) of (ret, s') \<Rightarrow>
        if ret \<noteq> 0 then (ret, s') else fr_imx662_write_table s' rest)"

text \<open>
  \<^verbatim>\<open>imx662_set_exposure\<close>: \<^verbatim>\<open>vblank->val + mode->height\<close> is computed in
  \<^verbatim>\<open>unsigned int\<close>, the difference with \<^verbatim>\<open>val\<close> in \<^verbatim>\<open>u64\<close>, and
  the register write takes its low 32 bits.
\<close>

definition fr_imx662_set_exposure :: "fr_imx662 \<Rightarrow> u64 \<Rightarrow> int \<times> fr_imx662" where
  "fr_imx662_set_exposure s v =
     (let shr = ucast ((of_int (val (vblank s)) :: u32) + height (mode s)) - v
      in fr_imx662_write_hold_reg s SHR0_LOW 3 (ucast shr))"

text \<open>
  \<^verbatim>\<open>exposure_max\<close> of \<^verbatim>\<open>imx662_adjust_exposure_range\<close>:
  \<^verbatim>\<open>vblank->val + mode->height - IMX662_MIN_SHR0_LENGTH\<close> computed in
  \<^verbatim>\<open>unsigned int\<close>.
\<close>

definition fr_exposure_max :: "fr_imx662 \<Rightarrow> int" where
  "fr_exposure_max s =
     uint ((of_int (val (vblank s)) :: u32) + height (mode s) - IMX662_MIN_SHR0_LENGTH)"

definition fr_imx662_set_frame_rate :: "fr_imx662 \<Rightarrow> u64 \<Rightarrow> int \<times> fr_imx662" where
  "fr_imx662_set_frame_rate s v = fr_imx662_write_hold_reg s VMAX_LOW 3 (frame_length s)"

text \<open>
  \<^verbatim>\<open>imx662_update_frame_rate\<close>: the quotient
  \<^verbatim>\<open>(IMX662_M_FACTOR * IMX662_G_FACTOR) / (val * imx662->line_time)\<close> in
  \<^verbatim>\<open>u64\<close> (the product in the divisor wraps), truncated to the \<^verbatim>\<open>u32\<close>
  field, then made even. A zero divisor is a trap: \<open>None\<close>.
\<close>

definition fr_frame_length :: "u64 \<Rightarrow> u64 \<Rightarrow> u32 option" where
  "fr_frame_length v lt =
     (let d = v * lt
      in if d = 0 then None
         else Some
           (let fl = (of_nat ((IMX662_M_FACTOR * IMX662_G_FACTOR) div unat d) :: u32)
            in if fl mod 2 \<noteq> 0 then fl + 1 else fl))"

definition mode_enable_pattern_generator :: "(u16 \<times> u8) list" where
  "mode_enable_pattern_generator =
     [(BLKLEVEL_LOW, 0x00), (TPG_EN_DUOUT, 0x01), (TPG_COLORWIDTH, 0x00), (TESTCLKEN, 0x0A)]"

definition mode_disable_pattern_generator :: "(u16 \<times> u8) list" where
  "mode_disable_pattern_generator =
     [(BLKLEVEL_LOW, 0x32), (TPG_EN_DUOUT, 0x00), (TPG_COLORWIDTH, 0x00), (TESTCLKEN, 0x02)]"

definition fr_imx662_set_test_pattern :: "fr_imx662 \<Rightarrow> u32 \<Rightarrow> int \<times> fr_imx662" where
  "fr_imx662_set_test_pattern s v =
     (if v \<noteq> 0 then
        (case fr_imx662_write_table s mode_enable_pattern_generator of (ret, s1) \<Rightarrow>
           if ret \<noteq> 0 then (ret, s1)
           else (case fr_imx662_write_reg s1 TPG_PATSEL_DUOUT 1 (v - 1) of (ret, s2) \<Rightarrow>
                   if ret \<noteq> 0 then (ret, s2) else (0, s2)))
      else
        (case fr_imx662_write_table s mode_disable_pattern_generator of (ret, s1) \<Rightarrow>
           if ret \<noteq> 0 then (ret, s1) else (0, s1)))"

text \<open>\<^verbatim>\<open>imx662_set_blklvl\<close>: \<^verbatim>\<open>val\<close> is a \<^verbatim>\<open>u64\<close> here.\<close>

definition fr_black_level_reg :: "mbus_code \<Rightarrow> u64 \<Rightarrow> u64" where
  "fr_black_level_reg code v =
     (if code = MEDIA_BUS_FMT_SRGGB10_1X10 then v else drop_bit 2 v)"

definition fr_imx662_set_blklvl :: "fr_imx662 \<Rightarrow> u64 \<Rightarrow> int \<times> fr_imx662" where
  "fr_imx662_set_blklvl s v =
     fr_imx662_write_hold_reg s BLKLEVEL_LOW 2 (ucast (fr_black_level_reg (fmt_code s) v))"

definition fr_imx662_set_operation_mode :: "fr_imx662 \<Rightarrow> u32 \<Rightarrow> int \<times> fr_imx662" where
  "fr_imx662_set_operation_mode s v = (0, s\<lparr>xmaster := uint v\<rparr>)"

definition fr_imx662_set_sync_mode :: "fr_imx662 \<Rightarrow> u32 \<Rightarrow> int \<times> fr_imx662" where
  "fr_imx662_set_sync_mode s v =
     fr_imx662_write_reg s EXTMODE 1 (if uint v = EXTERNAL_SYNC then 1 else 0)"

text \<open>
  \<^verbatim>\<open>imx662_set_ctrl\<close>, the \<^verbatim>\<open>s_ctrl\<close> handler, from
  \<^verbatim>\<open>pm_runtime_get_if_in_use\<close> on: the register writes of the control, only
  when the device is in use. The framework has stored the new value in the control before
  the call, so the state carries it.
\<close>

definition fr_imx662_set_ctrl_regs :: "fr_imx662 \<Rightarrow> ctrl_id \<Rightarrow> int \<times> fr_imx662" where
  "fr_imx662_set_ctrl_regs s cid =
     (if rpm_in_use s = 0 then (0, s)
      else
        (case cid of
           V4L2_CID_ANALOGUE_GAIN \<Rightarrow>
             fr_imx662_write_hold_reg s GAIN_LOW 2 (of_int (gain_val s))
         | V4L2_CID_EXPOSURE \<Rightarrow> fr_imx662_set_exposure s (of_int (val (exposure s)))
         | V4L2_CID_TEST_PATTERN \<Rightarrow>
             (0, snd (fr_imx662_set_test_pattern s (of_int (test_pattern_val s))))
         | V4L2_CID_HFLIP \<Rightarrow> fr_imx662_write_reg s HREVERSE 1 (of_int (hflip_val s))
         | V4L2_CID_VFLIP \<Rightarrow> fr_imx662_write_reg s VREVERSE 1 (of_int (vflip_val s))
         | V4L2_CID_FRAME_RATE \<Rightarrow>
             fr_imx662_set_frame_rate s (of_int (val (framerate s)))
         | V4L2_CID_BLACK_LEVEL \<Rightarrow> fr_imx662_set_blklvl s (of_int (val (blklvl s)))
         | V4L2_CID_OPERATION_MODE \<Rightarrow>
             fr_imx662_set_operation_mode s (of_int (val (operation_mode s)))
         | V4L2_CID_SYNC_MODE \<Rightarrow>
             fr_imx662_set_sync_mode s (of_int (val (sync_mode s)))
         | _ \<Rightarrow> (0, s)))"

text \<open>
  \<^verbatim>\<open>imx662_adjust_exposure_range\<close>: the result of the range update is not
  looked at. The handler the framework calls back for the exposure control is
  \<^verbatim>\<open>imx662_set_ctrl\<close>, whose first \<^verbatim>\<open>switch\<close> has no case for
  \<^verbatim>\<open>V4L2_CID_EXPOSURE\<close>.
\<close>

definition fr_imx662_adjust_exposure_range :: "fr_imx662 \<Rightarrow> fr_imx662" where
  "fr_imx662_adjust_exposure_range s =
     (case v4l2_ctrl_modify_range (exposure s) (\<lambda>c s. s\<lparr>exposure := c\<rparr>)
             (\<lambda>s. Some (fr_imx662_set_ctrl_regs s V4L2_CID_EXPOSURE)) s
             (uint IMX662_MIN_INTEGRATION_LINES) (fr_exposure_max s) 1 (fr_exposure_max s) of
        None \<Rightarrow> s
      | Some (ret, s') \<Rightarrow> s')"

text \<open>
  \<^verbatim>\<open>imx662_set_ctrl\<close> for the vertical-blanking control: the exposure range
  first, whatever the power state; the second \<^verbatim>\<open>switch\<close> has no case for
  \<^verbatim>\<open>V4L2_CID_VBLANK\<close>.
\<close>

definition fr_imx662_set_ctrl_vblank :: "fr_imx662 \<Rightarrow> int \<times> fr_imx662" where
  "fr_imx662_set_ctrl_vblank s =
     fr_imx662_set_ctrl_regs (fr_imx662_adjust_exposure_range s) V4L2_CID_VBLANK"

text \<open>
  \<^verbatim>\<open>imx662_update_frame_rate\<close>: the new frame length, then the
  vertical-blanking control is pinned to \<^verbatim>\<open>frame_length - mode->height\<close> by a
  range update followed by \<^verbatim>\<open>__v4l2_ctrl_s_ctrl\<close>, which takes the value as
  an \<^verbatim>\<open>s32\<close>; the handler called back for that control is
  \<^verbatim>\<open>imx662_set_ctrl\<close> again. The results of both calls are not looked at.
\<close>

definition fr_imx662_update_frame_rate :: "fr_imx662 \<Rightarrow> u64 \<Rightarrow> fr_imx662 option" where
  "fr_imx662_update_frame_rate s v =
     (case fr_frame_length v (line_time s) of
        None \<Rightarrow> None
      | Some fl \<Rightarrow>
          (let s = s\<lparr>frame_length := fl\<rparr>;
               update_vblank = frame_length s - height (mode s)
           in case v4l2_ctrl_modify_range (vblank s) (\<lambda>c s. s\<lparr>vblank := c\<rparr>)
                     (\<lambda>s. Some (fr_imx662_set_ctrl_vblank s)) s
                     (uint update_vblank) (uint update_vblank) 1 (uint update_vblank) of
                None \<Rightarrow> None
              | Some (ret, s) \<Rightarrow>
                  (case v4l2_ctrl_s_ctrl (vblank s) (\<lambda>c s. s\<lparr>vblank := c\<rparr>)
                          (\<lambda>s. Some (fr_imx662_set_ctrl_vblank s)) s (sint update_vblank) of
                     None \<Rightarrow> None
                   | Some (ret, s) \<Rightarrow> Some s)))"

text \<open>
  \<^verbatim>\<open>imx662_set_ctrl\<close>: first the dependent ranges, whatever the power state;
  then, only when the device is in use, the register writes.
\<close>

definition fr_imx662_set_ctrl :: "fr_imx662 \<Rightarrow> ctrl_id \<Rightarrow> (int \<times> fr_imx662) option" where
  "fr_imx662_set_ctrl s cid =
     (case (case cid of
              V4L2_CID_FRAME_RATE \<Rightarrow>
                fr_imx662_update_frame_rate s (of_int (val (framerate s)))
            | V4L2_CID_VBLANK \<Rightarrow> Some (fr_imx662_adjust_exposure_range s)
            | _ \<Rightarrow> Some s) of
        None \<Rightarrow> None
      | Some s \<Rightarrow> Some (fr_imx662_set_ctrl_regs s cid))"

subsection \<open>Streaming\<close>

definition fr_imx662_set_hmax_register :: "fr_imx662 \<Rightarrow> int \<times> fr_imx662" where
  "fr_imx662_set_hmax_register s = fr_imx662_write_hold_reg s HMAX_LOW 2 (hmax (mode s))"

definition fr_imx662_set_data_rate :: "fr_imx662 \<Rightarrow> int \<times> fr_imx662" where
  "fr_imx662_set_data_rate s =
     (case linkfreq (mode s) of
        IMX662_LINK_FREQ_720 \<Rightarrow> fr_imx662_write_reg s DATARATE_SEL 1 0x06
      | IMX662_LINK_FREQ_594 \<Rightarrow> fr_imx662_write_reg s DATARATE_SEL 1 0x07
      | GMSL_LINK_FREQ_1500 \<Rightarrow> (1, s))"

definition fr_imx662_configure_triggering_pins :: "fr_imx662 \<Rightarrow> int \<times> fr_imx662" where
  "fr_imx662_configure_triggering_pins s =
     (if val (operation_mode s) = MASTER_MODE then
        fr_imx662_write_reg s XVS_XHS_DRV 1
          (if val (sync_mode s) = INTERNAL_SYNC then 0x0 else 0xF)
      else if val (operation_mode s) = SLAVE_MODE then
        fr_imx662_write_reg s XVS_XHS_DRV 1 0xF
      else (- EINVAL, s))"

definition fr_imx662_set_mode :: "fr_imx662 \<Rightarrow> int \<times> fr_imx662" where
  "fr_imx662_set_mode s =
     (case fr_imx662_write_table s mode_common_regs of (ret, s1) \<Rightarrow>
      if ret \<noteq> 0 then (ret, s1) else
      case fr_imx662_write_table s1 (reg_list (mode s1)) of (ret, s2) \<Rightarrow>
      if ret \<noteq> 0 then (ret, s2) else
      case fr_imx662_write_table s2 (reg_list_format (mode s2)) of (ret, s3) \<Rightarrow>
      if ret \<noteq> 0 then (ret, s3) else
      case fr_imx662_set_hmax_register s3 of (ret, s4) \<Rightarrow>
      if ret \<noteq> 0 then (ret, s4) else
      case fr_imx662_set_data_rate s4 of (ret, s5) \<Rightarrow>
      if ret \<noteq> 0 then (ret, s5) else
      fr_imx662_configure_triggering_pins s5)"

text \<open>
  \<^verbatim>\<open>imx662_start_streaming\<close>. The replay of every control by
  \<^verbatim>\<open>__v4l2_ctrl_handler_setup\<close> is framework code; only its result is kept.
\<close>

definition fr_imx662_start_streaming :: "fr_imx662 \<Rightarrow> int \<times> fr_imx662" where
  "fr_imx662_start_streaming s =
     (if fr_gmsl s \<and> serdes_rc s \<noteq> 0 then (serdes_rc s, s) else
      case fr_imx662_set_mode s of (ret, s1) \<Rightarrow>
      if ret \<noteq> 0 then (ret, s1) else
      if handler_setup_rc s1 \<noteq> 0 then (handler_setup_rc s1, s1) else
      case fr_imx662_write_reg s1 STANDBY 1 IMX662_MODE_STREAMING of (ret, s2) \<Rightarrow>
      if ret \<noteq> 0 then (ret, s2) else
      fr_imx662_write_reg s2 XMSTA 1
        (if val (operation_mode s2) = MASTER_MODE then 0x00 else 0x01))"

definition fr_imx662_stop_streaming :: "fr_imx662 \<Rightarrow> fr_imx662" where
  "fr_imx662_stop_streaming s =
     snd (fr_imx662_write_reg (snd (fr_imx662_write_reg s XMSTA 1 0x01))
            STANDBY 1 IMX662_MODE_STANDBY)"

text \<open>
  \<^verbatim>\<open>imx662_set_stream\<close>. \<^verbatim>\<open>imx662->streaming == enable\<close> compares the
  \<^verbatim>\<open>bool\<close>, promoted to 0 or 1, with the \<^verbatim>\<open>int\<close>.
\<close>

definition fr_imx662_set_stream :: "fr_imx662 \<Rightarrow> int \<Rightarrow> int \<times> fr_imx662" where
  "fr_imx662_set_stream s enable =
     (if (if streaming s then 1 else 0) = enable then (0, s)
      else
        (case (if enable \<noteq> 0 then
                 (if rpm_get_sync s < 0 then (rpm_get_sync s, s)
                  else fr_imx662_start_streaming s)
               else (0, fr_imx662_stop_streaming s)) of
           (ret, s1) \<Rightarrow>
             if enable \<noteq> 0 \<and> (rpm_get_sync s < 0 \<or> ret \<noteq> 0) then (ret, s1)
             else (ret, s1\<lparr>streaming := (enable \<noteq> 0), grabbed := (enable \<noteq> 0)\<rparr>)))"

text \<open>
  The device as \<^verbatim>\<open>imx662_probe\<close> leaves it for the 12-bit all-pixel mode on a
  plain MIPI link: \<^verbatim>\<open>imx662_set_limits\<close> has pinned the vertical blanking to
  \<^verbatim>\<open>IMX662_MIN_FRAME_LENGTH_DELTA\<close> = 70, the line time is
  \<open>0x3DE * 10^9 / 74250000\<close> = 13333 ns, the frame length 1150 lines, the frame-rate
  control at its maximum \<open>10^15 / (1150 * 13333)\<close>, and the exposure range
  \<open>[1, 70 + 1080 - 4]\<close> with the initial value 0xFF. Registers cleared, bus up, in
  use, not streaming.
\<close>

definition fr0 :: fr_imx662 where
  "fr0 =
     \<lparr>regs = (\<lambda>_. 0), bus_ok = True, wlog = [],
      fmt_code = MEDIA_BUS_FMT_SRGGB12_1X12,
      exposure = \<lparr>minimum = 1, maximum = 1146, step = 1, default_value = 1146, val = 255\<rparr>,
      framerate = \<lparr>minimum = 1000000, maximum = 65219021, step = 1,
                    default_value = 65219021, val = 65219021\<rparr>,
      vblank = \<lparr>minimum = 70, maximum = 70, step = 1, default_value = 70, val = 70\<rparr>,
      blklvl = \<lparr>minimum = 0, maximum = 4095, step = 1, default_value = 200, val = 200\<rparr>,
      operation_mode = \<lparr>minimum = 0, maximum = 1, step = 0, default_value = 0, val = 0\<rparr>,
      sync_mode = \<lparr>minimum = 0, maximum = 2, step = 0, default_value = 0, val = 0\<rparr>,
      gain_val = 0, test_pattern_val = 0, hflip_val = 0, vflip_val = 0, grabbed = False,
      line_time = 13333, frame_length = 1150, mode = modes_12bit_0, streaming = False,
      xmaster = 0, fr_gmsl = False, serdes_rc = 0, rpm_in_use = 1, rpm_get_sync = 0,
      handler_setup_rc = 0\<rparr>"

text \<open>
  The same device when the exposure control still has the range \<open>[1, 2496]\<close> of a
  frame length of 2500 lines (30 frames per second) and holds 2000 lines, at the moment
  the vertical blanking has been brought back to 70.
\<close>

definition fr1 :: fr_imx662 where
  "fr1 = fr0\<lparr>exposure :=
     \<lparr>minimum = 1, maximum = 2496, step = 1, default_value = 2496, val = 2000\<rparr>\<rparr>"

section \<open>imx662.c: the second V4L2 sub-device driver\<close>

text \<open>
  \<^verbatim>\<open>struct imx662_mode\<close> and \<^verbatim>\<open>struct imx662\<close> of
  \<^verbatim>\<open>imx662.c\<close> (names prefixed with \<open>rpi\<close>, the kernel tree the file is written
  for): the exposure control, the current \<^verbatim>\<open>HMAX\<close> and \<^verbatim>\<open>VMAX\<close>, the
  mode, the answer of \<^verbatim>\<open>pm_runtime_get_if_in_use\<close>, and the bus.
\<close>

record rpi_mode =
  rpi_width :: u32
  rpi_height :: u32
  hdr :: bool
  linear :: bool
  min_HMAX :: u64
  min_VMAX :: u64
  default_HMAX :: u64
  default_VMAX :: u64
  min_SHR :: u64

record rpi_imx662 = bus +
  rpi_exposure :: v4l2_ctrl
  HMAX :: u16
  VMAX :: u32
  rpi_cur_mode :: rpi_mode
  rpi_in_use :: int

abbreviation (input) IMX662_REG_SHR :: u16 where "IMX662_REG_SHR \<equiv> 0x3050"
abbreviation (input) IMX662_REG_VMAX :: u16 where "IMX662_REG_VMAX \<equiv> 0x3028"
abbreviation (input) IMX662_REG_HMAX :: u16 where "IMX662_REG_HMAX \<equiv> 0x302C"
abbreviation (input) IMX662_REG_ANALOG_GAIN :: u16 where "IMX662_REG_ANALOG_GAIN \<equiv> 0x306C"
abbreviation (input) IMX662_REG_FDG_SEL0 :: u16 where "IMX662_REG_FDG_SEL0 \<equiv> 0x3030"
abbreviation (input) IMX662_FLIP_WINMODEH :: u16 where "IMX662_FLIP_WINMODEH \<equiv> 0x3020"
abbreviation (input) IMX662_FLIP_WINMODEV :: u16 where "IMX662_FLIP_WINMODEV \<equiv> 0x3021"
abbreviation (input) IMX662_PIXEL_RATE :: u64 where "IMX662_PIXEL_RATE \<equiv> 74250000"
abbreviation (input) IMX662_ANA_GAIN_HCG_LEVEL :: int where "IMX662_ANA_GAIN_HCG_LEVEL \<equiv> 51"
abbreviation (input) IMX662_ANA_GAIN_HCG_THRESHOLD :: int where
  "IMX662_ANA_GAIN_HCG_THRESHOLD \<equiv> IMX662_ANA_GAIN_HCG_LEVEL + 29"
abbreviation (input) IMX662_ANA_GAIN_HCG_MIN :: int where "IMX662_ANA_GAIN_HCG_MIN \<equiv> 34"

text \<open>
  \<^verbatim>\<open>imx662_write_reg_1byte\<close>, \<^verbatim>\<open>_2byte\<close> and \<^verbatim>\<open>_3byte\<close>: one
  transfer with the value's bytes low byte first (an error of the transfer is \<open>-EIO\<close>
  in this bus model).
\<close>

definition rpi_write_bytes :: "rpi_imx662 \<Rightarrow> (u16 \<times> u8) list \<Rightarrow> int \<times> rpi_imx662" where
  "rpi_write_bytes s bytes =
     (if bus_ok s
      then (0, s\<lparr>regs := fold (\<lambda>(a, b) f. f(a := b)) bytes (regs s),
                 wlog := wlog s @ bytes\<rparr>)
      else (- EIO, s\<lparr>wlog := wlog s @ bytes\<rparr>))"

definition rpi_imx662_write_reg_1byte :: "rpi_imx662 \<Rightarrow> u16 \<Rightarrow> u8 \<Rightarrow> int \<times> rpi_imx662" where
  "rpi_imx662_write_reg_1byte s reg v = rpi_write_bytes s [(reg, v)]"

definition rpi_imx662_write_reg_2byte :: "rpi_imx662 \<Rightarrow> u16 \<Rightarrow> u16 \<Rightarrow> int \<times> rpi_imx662" where
  "rpi_imx662_write_reg_2byte s reg v =
     rpi_write_bytes s [(reg, ucast v), (reg + 1, ucast (drop_bit 8 v))]"

definition rpi_imx662_write_reg_3byte :: "rpi_imx662 \<Rightarrow> u16 \<Rightarrow> u32 \<Rightarrow> int \<times> rpi_imx662" where
  "rpi_imx662_write_reg_3byte s reg v =
     rpi_write_bytes s
       [(reg, ucast v), (reg + 1, ucast (drop_bit 8 v)), (reg + 2, ucast (drop_bit 16 v))]"

definition rpi_imx662_register_hold :: "rpi_imx662 \<Rightarrow> bool \<Rightarrow> rpi_imx662" where
  "rpi_imx662_register_hold s hold =
     snd (rpi_imx662_write_reg_1byte s 0x3001 (if hold then 1 else 0))"

text \<open>
  \<^verbatim>\<open>do_div(n, base)\<close> divides the 64-bit \<open>n\<close> by the 32-bit \<open>base\<close> (a wider
  argument is truncated); a zero divisor is a trap: \<open>None\<close>.
\<close>

definition do_div :: "u64 \<Rightarrow> u64 \<Rightarrow> u64 option" where
  "do_div n base =
     (if (ucast base :: u32) = 0 then None
      else Some (n div ucast (ucast base :: u32)))"

text \<open>
  \<^verbatim>\<open>calculate_v4l2_cid_exposure\<close>;
  \<^verbatim>\<open>clamp_t(uint32_t, numerator, 0, 0xFFFFFFFF)\<close> is the truncation to 32 bits.
\<close>

definition calculate_v4l2_cid_exposure ::
    "u64 \<Rightarrow> u64 \<Rightarrow> u64 \<Rightarrow> u64 \<Rightarrow> u64 \<Rightarrow> u64 option" where
  "calculate_v4l2_cid_exposure hmx vmx shr svr offset =
     (case do_div ((vmx * (svr + 1) - shr) * hmx + offset) hmx of
        None \<Rightarrow> None
      | Some numerator \<Rightarrow> Some (ucast (ucast numerator :: u32)))"

definition calculate_min_max_v4l2_cid_exposure ::
    "u64 \<Rightarrow> u64 \<Rightarrow> u64 \<Rightarrow> u64 \<Rightarrow> u64 \<Rightarrow> (u64 \<times> u64) option" where
  "calculate_min_max_v4l2_cid_exposure hmx vmx min_shr svr offset =
     (let max_shr = min ((svr + 1) * vmx - 4) 0xFFFF
      in case calculate_v4l2_cid_exposure hmx vmx max_shr svr offset of
           None \<Rightarrow> None
         | Some min_exposure \<Rightarrow>
             (case calculate_v4l2_cid_exposure hmx vmx min_shr svr offset of
                None \<Rightarrow> None
              | Some max_exposure \<Rightarrow> Some (min_exposure, max_exposure)))"

definition calculate_shr :: "u32 \<Rightarrow> u32 \<Rightarrow> u64 \<Rightarrow> u32 \<Rightarrow> u32 \<Rightarrow> u32 option" where
  "calculate_shr expo hmx vmx svr offset =
     (case do_div (ucast expo * ucast hmx - ucast offset) (ucast hmx) of
        None \<Rightarrow> None
      | Some temp \<Rightarrow> Some (ucast (vmx * ucast (svr + 1) - temp)))"

text \<open>\<^verbatim>\<open>clamp_t(uint32_t, val, lo, hi)\<close>: all three cast to 32 bits.\<close>

definition clamp_t_u32 :: "u64 \<Rightarrow> u64 \<Rightarrow> u64 \<Rightarrow> u32" where
  "clamp_t_u32 v lo hi = min (max (ucast v) (ucast lo)) (ucast hi)"

text \<open>
  \<^verbatim>\<open>imx662_set_ctrl\<close> of \<^verbatim>\<open>imx662.c\<close> from
  \<^verbatim>\<open>pm_runtime_get_if_in_use\<close> on: the register writes of the control, only
  when the device is in use. \<open>v\<close> is \<^verbatim>\<open>ctrl->val\<close>.
\<close>

definition rpi_imx662_set_ctrl_regs ::
    "rpi_imx662 \<Rightarrow> ctrl_id \<Rightarrow> int \<Rightarrow> (int \<times> rpi_imx662) option" where
  "rpi_imx662_set_ctrl_regs s cid v =
     (if rpi_in_use s = 0 then Some (0, s)
      else
        (case cid of
           V4L2_CID_EXPOSURE \<Rightarrow>
             (case calculate_shr (of_int v) (ucast (HMAX s)) (ucast (VMAX s)) 0 209 of
                None \<Rightarrow> None
              | Some shr \<Rightarrow> Some (rpi_imx662_write_reg_2byte s IMX662_REG_SHR (ucast shr)))
         | V4L2_CID_ANALOGUE_GAIN \<Rightarrow>
             (let useHGC = (\<not> hdr (rpi_cur_mode s) \<and> v \<ge> IMX662_ANA_GAIN_HCG_THRESHOLD);
                  gain = (if useHGC
                          then max (v - IMX662_ANA_GAIN_HCG_LEVEL) IMX662_ANA_GAIN_HCG_MIN
                          else v);
                  s1 = rpi_imx662_register_hold s True;
                  s2 = snd (rpi_imx662_write_reg_2byte s1 IMX662_REG_ANALOG_GAIN
                              (of_int gain))
              in case rpi_imx662_write_reg_1byte s2 IMX662_REG_FDG_SEL0
                        (if useHGC then 0x01 else 0x00) of
                   (ret, s3) \<Rightarrow> Some (ret, rpi_imx662_register_hold s3 False))
         | V4L2_CID_VBLANK \<Rightarrow>
             (let s = s\<lparr>VMAX := ucast ((ucast (rpi_height (rpi_cur_mode s)) :: u64)
                                      + of_int v)\<rparr>
              in Some (rpi_imx662_write_reg_3byte s IMX662_REG_VMAX (VMAX s)))
         | V4L2_CID_HBLANK \<Rightarrow>
             (case do_div (ucast (rpi_width (rpi_cur_mode s)) * IMX662_PIXEL_RATE)
                     (min_HMAX (rpi_cur_mode s)) of
                None \<Rightarrow> None
              | Some rate \<Rightarrow>
                  (case do_div (ucast (rpi_width (rpi_cur_mode s) + of_int v)
                                  * IMX662_PIXEL_RATE) rate of
                     None \<Rightarrow> None
                   | Some hmx \<Rightarrow>
                       (let s = s\<lparr>HMAX := ucast hmx\<rparr>
                        in Some (rpi_imx662_write_reg_2byte s IMX662_REG_HMAX
                                   (ucast hmx)))))
         | V4L2_CID_HFLIP \<Rightarrow>
             Some (rpi_imx662_write_reg_1byte s IMX662_FLIP_WINMODEH (of_int v))
         | V4L2_CID_VFLIP \<Rightarrow>
             Some (rpi_imx662_write_reg_1byte s IMX662_FLIP_WINMODEV (of_int v))
         | _ \<Rightarrow> Some (0, s)))"

text \<open>
  The first block of \<^verbatim>\<open>imx662_set_ctrl\<close> of \<^verbatim>\<open>imx662.c\<close>, taken for
  \<^verbatim>\<open>V4L2_CID_VBLANK\<close>: the new \<^verbatim>\<open>VMAX\<close>, the exposure limits, and the
  range update with the default \<^verbatim>\<open>current_exposure\<close>, a local variable that is
  clamped without having been initialised (\<open>junk\<close> is what it holds). \<open>v\<close> is
  \<^verbatim>\<open>ctrl->val\<close>. The limits and the default are 32-bit values held in
  \<^verbatim>\<open>u64\<close>, so their conversion to the \<^verbatim>\<open>s64\<close> parameters of the range
  update is their value. The result of the range update is not looked at. The handler
  the framework calls back for the exposure control is \<^verbatim>\<open>imx662_set_ctrl\<close>,
  whose first block is not taken for \<^verbatim>\<open>V4L2_CID_EXPOSURE\<close>.
\<close>

definition rpi_vblank_limits :: "rpi_imx662 \<Rightarrow> int \<Rightarrow> u64 \<Rightarrow> rpi_imx662 option" where
  "rpi_vblank_limits s v junk =
     (let vmx = (ucast (rpi_height (rpi_cur_mode s)) :: u64) + of_int v;
          s = s\<lparr>VMAX := ucast vmx\<rparr>
      in case calculate_min_max_v4l2_cid_exposure (ucast (HMAX s)) (ucast (VMAX s))
                (min_SHR (rpi_cur_mode s)) 0 209 of
           None \<Rightarrow> None
         | Some (min_exposure, max_exposure) \<Rightarrow>
             (let current_exposure = clamp_t_u32 junk min_exposure max_exposure
              in case v4l2_ctrl_modify_range (rpi_exposure s)
                        (\<lambda>c s. s\<lparr>rpi_exposure := c\<rparr>)
                        (\<lambda>s. rpi_imx662_set_ctrl_regs s V4L2_CID_EXPOSURE
                               (val (rpi_exposure s)))
                        s (uint min_exposure) (uint max_exposure) 1
                        (uint current_exposure) of
                   None \<Rightarrow> None
                 | Some (ret, s') \<Rightarrow> Some s'))"

text \<open>
  \<^verbatim>\<open>imx662_set_ctrl\<close> of \<^verbatim>\<open>imx662.c\<close>: the block above, then the
  register writes of the control.
\<close>

definition rpi_imx662_set_ctrl ::
    "rpi_imx662 \<Rightarrow> ctrl_id \<Rightarrow> int \<Rightarrow> u64 \<Rightarrow> (int \<times> rpi_imx662) option" where
  "rpi_imx662_set_ctrl s cid v junk =
     (case (if cid = V4L2_CID_VBLANK then rpi_vblank_limits s v junk else Some s) of
        None \<Rightarrow> None
      | Some s \<Rightarrow> rpi_imx662_set_ctrl_regs s cid v)"

text \<open>
  The timing fields of the mode tables \<^verbatim>\<open>supported_modes_12bit\<close>,
  \<^verbatim>\<open>supported_modes_nonlinear_12bit\<close> and \<^verbatim>\<open>supported_modes_16bit\<close>
  (the crop rectangle and the register list of a mode are not part of \<open>rpi_mode\<close>).
\<close>

definition supported_modes_12bit :: "rpi_mode list" where
  "supported_modes_12bit =
     [\<lparr>rpi_width = 1936, rpi_height = 1100, hdr = False, linear = True,
       min_HMAX = 990, min_VMAX = 1250, default_HMAX = 990, default_VMAX = 1250,
       min_SHR = 20\<rparr>]"

definition supported_modes_nonlinear_12bit :: "rpi_mode list" where
  "supported_modes_nonlinear_12bit =
     [\<lparr>rpi_width = 1936, rpi_height = 1096, hdr = True, linear = False,
       min_HMAX = 366, min_VMAX = 2250, default_HMAX = 366, default_VMAX = 2250,
       min_SHR = 20\<rparr>,
      \<lparr>rpi_width = 3856, rpi_height = 2180, hdr = True, linear = False,
       min_HMAX = 550, min_VMAX = 4500, default_HMAX = 550, default_VMAX = 4500,
       min_SHR = 20\<rparr>]"

definition supported_modes_16bit :: "rpi_mode list" where
  "supported_modes_16bit =
     [\<lparr>rpi_width = 1928, rpi_height = 1090, hdr = True, linear = True,
       min_HMAX = 550, min_VMAX = 4500, default_HMAX = 550, default_VMAX = 4500,
       min_SHR = 20\<rparr>,
      \<lparr>rpi_width = 3856, rpi_height = 2180, hdr = True, linear = True,
       min_HMAX = 550, min_VMAX = 4500, default_HMAX = 550, default_VMAX = 4500,
       min_SHR = 20\<rparr>]"

text \<open>
  A device in the 2K all-pixel mode of \<^verbatim>\<open>supported_modes_12bit\<close> with the
  mode's default timing, whose exposure control still has the range of a longer frame and
  holds 2000 lines.
\<close>

definition rpi0 :: rpi_imx662 where
  "rpi0 =
     \<lparr>regs = (\<lambda>_. 0), bus_ok = True, wlog = [],
      rpi_exposure =
        \<lparr>minimum = 4, maximum = 2480, step = 1, default_value = 1000, val = 2000\<rparr>,
      HMAX = 990, VMAX = 1250,
      rpi_cur_mode = \<lparr>rpi_width = 1936, rpi_height = 1100, hdr = False, linear = True,
        min_HMAX = 990, min_VMAX = 1250, default_HMAX = 990, default_VMAX = 1250,
        min_SHR = 20\<rparr>,
      rpi_in_use = 1\<rparr>"

section \<open>components/imx662/imx662.c: the ESP-IDF front-end\<close>

text \<open>
  The device handle with its SCCB bus. \<^verbatim>\<open>imx662_read\<close> and
  \<^verbatim>\<open>imx662_write\<close> return \<^verbatim>\<open>ESP_OK\<close> (0) or an error code
  (\<^verbatim>\<open>ESP_FAIL\<close>, \<open>-1\<close>, in this bus model); a failed read leaves the
  destination byte as it was.
\<close>

abbreviation (input) ESP_OK :: int where "ESP_OK \<equiv> 0"
abbreviation (input) ESP_FAIL :: int where "ESP_FAIL \<equiv> - 1"

definition esp_imx662_read :: "bus \<Rightarrow> u16 \<Rightarrow> u8 \<Rightarrow> int \<times> u8" where
  "esp_imx662_read dev reg old = (if bus_ok dev then (ESP_OK, regs dev reg) else (ESP_FAIL, old))"

definition esp_imx662_write :: "bus \<Rightarrow> u16 \<Rightarrow> u8 \<Rightarrow> int \<times> bus" where
  "esp_imx662_write dev reg v =
     (if bus_ok dev
      then (ESP_OK, dev\<lparr>regs := (regs dev)(reg := v), wlog := wlog dev @ [(reg, v)]\<rparr>)
      else (ESP_FAIL, dev\<lparr>wlog := wlog dev @ [(reg, v)]\<rparr>))"

text \<open>
  \<^verbatim>\<open>uint32_t vmax = vmax_l | (vmax_m << 8) | (vmax_h << 16)\<close>, and the shutter
  value \<^verbatim>\<open>vmax - exposure\<close> raised to the minimum 11.
\<close>

definition esp_vmax :: "u8 \<Rightarrow> u8 \<Rightarrow> u8 \<Rightarrow> u32" where
  "esp_vmax vmax_l vmax_m vmax_h =
     ucast vmax_l OR push_bit 8 (ucast vmax_m) OR push_bit 16 (ucast vmax_h)"

definition esp_shr0 :: "u32 \<Rightarrow> u32 \<Rightarrow> u32" where
  "esp_shr0 vmax expo = (let shr0 = vmax - expo in if shr0 < 11 then 11 else shr0)"

text \<open>
  \<^verbatim>\<open>imx662_set_exposure\<close> of the ESP-IDF driver: \<^verbatim>\<open>vmax_l\<close>,
  \<^verbatim>\<open>vmax_m\<close> and \<^verbatim>\<open>vmax_h\<close> are uninitialised before the reads (\<open>u0\<close>,
  \<open>u1\<close>, \<open>u2\<close>), and are only used when all three reads succeed.
\<close>

definition esp_imx662_set_exposure :: "bus \<Rightarrow> u8 \<times> u8 \<times> u8 \<Rightarrow> u32 \<Rightarrow> int \<times> bus" where
  "esp_imx662_set_exposure dev uninit expo =
     (case uninit of (u0, u1, u2) \<Rightarrow>
      case esp_imx662_read dev VMAX_LOW u0 of (r1, vmax_l) \<Rightarrow>
      case esp_imx662_read dev VMAX_MID u1 of (r2, vmax_m) \<Rightarrow>
      case esp_imx662_read dev VMAX_HIGH u2 of (r3, vmax_h) \<Rightarrow>
      if r1 OR r2 OR r3 \<noteq> ESP_OK then (r1 OR r2 OR r3, dev)
      else
        (let shr0 = esp_shr0 (esp_vmax vmax_l vmax_m vmax_h) expo
         in case esp_imx662_write dev SHR0_LOW (ucast (shr0 AND 0xFF)) of (w1, d1) \<Rightarrow>
            case esp_imx662_write d1 SHR0_MID (ucast (drop_bit 8 shr0 AND 0xFF)) of
              (w2, d2) \<Rightarrow>
            case esp_imx662_write d2 SHR0_HIGH (ucast (drop_bit 16 shr0 AND 0x0F)) of
              (w3, d3) \<Rightarrow> (w1 OR w2 OR w3, d3)))"

text \<open>
  A device whose \<^verbatim>\<open>VMAX\<close> registers read back 1250 (0x0004E2), the frame
  length of the driver's register table.
\<close>

definition esp_dev0 :: bus where
  "esp_dev0 = \<lparr>regs = (\<lambda>_. 0)(VMAX_LOW := 0xE2, VMAX_MID := 0x04), bus_ok = True,
                wlog = []\<rparr>"

text \<open>The value of a three-byte register as the sensor holds it.\<close>

definition reg24 :: "(u16 \<Rightarrow> u8) \<Rightarrow> u16 \<Rightarrow> nat" where
  "reg24 f a = unat (f a) + 256 * unat (f (a + 1)) + 65536 * unat (f (a + 2))"

definition reg16 :: "(u16 \<Rightarrow> u8) \<Rightarrow> u16 \<Rightarrow> nat" where
  "reg16 f a = unat (f a) + 256 * unat (f (a + 1))"

section \<open>Properties of the gain lookup\<close>

lemma increasing_sorted: "increasing xs \<Longrightarrow> sorted_wrt (<) xs"
  by (induction xs rule: increasing.induct) auto

lemma table_length: "length gain_reg2times = 241"
  by (simp add: gain_reg2times_def)

lemma table_increasing: "increasing (map unat gain_reg2times)"
  by (simp add: gain_reg2times_def)

lemma gain_times_strict: "i < j \<Longrightarrow> j < 241 \<Longrightarrow> gain_times i < gain_times j"
  using sorted_wrt_nth_less [OF increasing_sorted [OF table_increasing], of i j]
  by (simp add: gain_times_def table_length)

lemma gain_times_mono: "i \<le> j \<Longrightarrow> j < 241 \<Longrightarrow> gain_times i \<le> gain_times j"
  using gain_times_strict [of i j] by (cases "i = j") auto

lemma gain_search_bracket:
  "l < r \<Longrightarrow> r \<le> 240 \<Longrightarrow> gain_times l \<le> unat g \<Longrightarrow>
   r = 240 \<or> unat g < gain_times r \<Longrightarrow>
   \<exists>k. gain_search g l r = (k, Suc k) \<and> Suc k \<le> 240 \<and> gain_times k \<le> unat g \<and>
       (Suc k = 240 \<or> unat g < gain_times (Suc k))"
proof (induction g l r rule: gain_search.induct)
  case (1 gain l r)
  show ?case
  proof (cases "l + 1 < r")
    case False
    with "1.prems" have "r = Suc l" by simp
    with False "1.prems" show ?thesis
      by (simp add: gain_search.simps)
  next
    case True
    define mid where "mid = (l + r) div 2"
    have mid: "l < mid" "mid < r" using True by (simp_all add: mid_def)
    show ?thesis
    proof (cases "gain_reg2times ! mid > gain")
      case gt: True
      then have "unat gain < gain_times mid"
        by (simp add: gain_times_def word_less_nat_alt)
      with "1.IH"(1) [OF True mid_def gt] mid "1.prems"
      have "\<exists>k. gain_search gain l mid = (k, Suc k) \<and> Suc k \<le> 240 \<and>
          gain_times k \<le> unat gain \<and> (Suc k = 240 \<or> unat gain < gain_times (Suc k))"
        by simp
      with True gt show ?thesis
        by (subst gain_search.simps) (simp add: mid_def [symmetric])
    next
      case le: False
      then have "gain_times mid \<le> unat gain"
        by (simp add: gain_times_def word_less_nat_alt)
      with "1.IH"(2) [OF True mid_def le] mid "1.prems"
      have "\<exists>k. gain_search gain mid r = (k, Suc k) \<and> Suc k \<le> 240 \<and>
          gain_times k \<le> unat gain \<and> (Suc k = 240 \<or> unat gain < gain_times (Suc k))"
        by simp
      with True le show ?thesis
        by (subst gain_search.simps) (simp add: mid_def [symmetric])
    qed
  qed
qed


lemma gain_times_0: "gain_times 0 = 1024" and gain_times_240: "gain_times 240 = 4076617"
  by (simp_all add: gain_times_def gain_reg2times_def)

lemma get_gain_reg_in_range:
  assumes "gain_times 0 \<le> unat g" "unat g \<le> gain_times 240"
  shows "\<exists>k. Suc k \<le> 240 \<and> gain_times k \<le> unat g \<and>
       (Suc k = 240 \<or> unat g < gain_times (Suc k)) \<and>
       imx662_get_gain_reg g =
         (if unat g - gain_times k < gain_times (Suc k) - unat g then of_nat k
          else of_nat (Suc k))"
proof -
  from gain_search_bracket [of 0 240 g] assms
  obtain k where k: "gain_search g 0 240 = (k, Suc k)" "Suc k \<le> 240"
      "gain_times k \<le> unat g" "Suc k = 240 \<or> unat g < gain_times (Suc k)"
    by auto
  have up: "unat g \<le> gain_times (Suc k)"
    using k(4) assms(2) by auto
  have lo: "gain_reg2times ! k \<le> g"
    using k(3) by (simp add: gain_times_def word_le_nat_alt)
  have hi: "g \<le> gain_reg2times ! Suc k"
    using up by (simp add: gain_times_def word_le_nat_alt)
  have "unat (g - gain_reg2times ! k) = unat g - gain_times k"
    using lo by (simp add: unat_sub gain_times_def)
  moreover have "unat (gain_reg2times ! Suc k - g) = gain_times (Suc k) - unat g"
    using hi by (simp add: unat_sub gain_times_def)
  ultimately have cmp: "(g - gain_reg2times ! k < gain_reg2times ! Suc k - g) =
      (unat g - gain_times k < gain_times (Suc k) - unat g)"
    by (simp add: word_less_nat_alt)
  have "\<not> g < gain_reg2times ! 0" "\<not> g > gain_reg2times ! 240"
    using assms by (simp_all add: gain_times_def word_less_nat_alt)
  then have "imx662_get_gain_reg g =
         (if unat g - gain_times k < gain_times (Suc k) - unat g then of_nat k
          else of_nat (Suc k))"
    using k(1) cmp by (simp add: imx662_get_gain_reg_def IMX662_GAIN_REG_LEN_def)
  with k show ?thesis by blast
qed

lemma of_nat_le_u32: "a \<le> b \<Longrightarrow> b \<le> 240 \<Longrightarrow> (of_nat a :: u32) \<le> of_nat b"
  by (simp add: word_le_nat_alt unat_of_nat)

lemma get_gain_reg_le_240: "imx662_get_gain_reg g \<le> 240"
proof (cases "gain_times 0 \<le> unat g \<and> unat g \<le> gain_times 240")
  case True
  from get_gain_reg_in_range [of g] True obtain k where
    "Suc k \<le> 240" "imx662_get_gain_reg g = of_nat k \<or> imx662_get_gain_reg g = of_nat (Suc k)"
    by (auto split: if_splits)
  then show ?thesis
    using of_nat_le_u32 [of k 240] of_nat_le_u32 [of "Suc k" 240] by auto
next
  case False
  then have "g < gain_reg2times ! 0 \<or> g > gain_reg2times ! 240"
    by (auto simp: gain_times_def word_less_nat_alt)
  then show ?thesis
    by (auto simp: imx662_get_gain_reg_def IMX662_GAIN_REG_LEN_def)
qed

text \<open>
  C2 (as the code has it). The table entry 1024 (0 dB) resolves to gain register code 0,
  and the table entry 32382 (30 dB) resolves to code 100, its index in the table.
\<close>

theorem gain_reg_table_exact:
  "imx662_get_gain_reg 1024 = 0 \<and> imx662_get_gain_reg 32382 = 100"
  by (simp add: imx662_get_gain_reg_def IMX662_GAIN_REG_LEN_def gain_search.simps
      gain_reg2times_def Let_def)

text \<open>
  C2 (as the spec states it) fails: the lookup of 32382 is not 200. Code 200 is the index
  of the entry 1024000 (60 dB).
\<close>

theorem gain_reg_32382_not_200:
  "imx662_get_gain_reg 32382 \<noteq> 200"
  by (simp add: imx662_get_gain_reg_def IMX662_GAIN_REG_LEN_def gain_search.simps
      gain_reg2times_def Let_def)

text \<open>
  C3. The gain-time to register-code lookup is monotonically non-decreasing: for any two
  inputs \<open>g1 < g2\<close>, in or out of the table's range, the code of \<open>g1\<close> is at most the
  code of \<open>g2\<close>.
\<close>

theorem gain_reg_monotone:
  assumes "g1 < g2"
  shows "imx662_get_gain_reg g1 \<le> imx662_get_gain_reg g2"
proof -
  have lt: "unat g1 < unat g2" using assms by (simp add: word_less_nat_alt)
  consider (low) "unat g1 < gain_times 0" | (high) "gain_times 240 < unat g2"
    | (mid) "gain_times 0 \<le> unat g1" "unat g2 \<le> gain_times 240"
    by linarith
  then show ?thesis
  proof cases
    case low
    then have "g1 < gain_reg2times ! 0"
      by (simp add: gain_times_def word_less_nat_alt)
    then show ?thesis by (simp add: imx662_get_gain_reg_def)
  next
    case high
    then have "\<not> g2 < gain_reg2times ! 0" "g2 > gain_reg2times ! 240"
      using gain_times_mono [of 0 240]
      by (simp_all add: gain_times_def word_less_nat_alt)
    then have "imx662_get_gain_reg g2 = 240"
      by (simp add: imx662_get_gain_reg_def IMX662_GAIN_REG_LEN_def)
    then show ?thesis using get_gain_reg_le_240 [of g1] by simp
  next
    case mid
    from get_gain_reg_in_range [of g1] mid lt obtain k1 where k1:
      "Suc k1 \<le> 240" "gain_times k1 \<le> unat g1"
      "Suc k1 = 240 \<or> unat g1 < gain_times (Suc k1)"
      "imx662_get_gain_reg g1 =
         (if unat g1 - gain_times k1 < gain_times (Suc k1) - unat g1 then of_nat k1
          else of_nat (Suc k1))"
      by auto
    from get_gain_reg_in_range [of g2] mid lt obtain k2 where k2:
      "Suc k2 \<le> 240" "gain_times k2 \<le> unat g2"
      "Suc k2 = 240 \<or> unat g2 < gain_times (Suc k2)"
      "imx662_get_gain_reg g2 =
         (if unat g2 - gain_times k2 < gain_times (Suc k2) - unat g2 then of_nat k2
          else of_nat (Suc k2))"
      by auto
    have k12: "k1 \<le> k2"
    proof (rule ccontr)
      assume "\<not> k1 \<le> k2"
      then have s: "Suc k2 \<le> k1" by simp
      with k1(1) k2(3) have "unat g2 < gain_times (Suc k2)" by auto
      also have "\<dots> \<le> gain_times k1" using gain_times_mono [OF s] k1(1) by simp
      also have "\<dots> \<le> unat g1" by (rule k1(2))
      finally show False using lt by simp
    qed
    show ?thesis
    proof (cases "k1 = k2")
      case True
      have up: "unat g2 \<le> gain_times (Suc k2)" using k2(3) mid(2) gain_times_240 by auto
      have "unat g1 - gain_times k1 < gain_times (Suc k1) - unat g1"
        if "unat g2 - gain_times k2 < gain_times (Suc k2) - unat g2"
        using that lt k1(2) up unfolding True by linarith
      then show ?thesis
        using k1(4) k2(4) True k2(1) of_nat_le_u32 [of k2 "Suc k2"] by auto
    next
      case False
      with k12 have "Suc k1 \<le> k2" by simp
      then show ?thesis
        using k1(4) k2(4) k2(1) of_nat_le_u32 [of k1 k2] of_nat_le_u32 [of "Suc k1" k2]
          of_nat_le_u32 [of k1 "Suc k2"] of_nat_le_u32 [of "Suc k1" "Suc k2"]
        by (auto split: if_splits)
    qed
  qed
qed

theorem gain_reg_monotone_witness:
  "(1500 :: u32) < 5000000 \<and> imx662_get_gain_reg 1500 \<le> imx662_get_gain_reg 5000000"
  using gain_reg_monotone [of 1500 5000000] by simp

section \<open>Bytes of a register value\<close>

lemma nat_bytes16:
  assumes "(x :: nat) < 65536"
  shows "x mod 256 + 256 * (x div 256 mod 256) = x"
proof -
  have "x div 256 < 256" using assms by (simp add: div_less_iff_less_mult)
  then have "x div 256 mod 256 = x div 256" by simp
  then show ?thesis by simp
qed

lemma nat_bytes24:
  assumes "(x :: nat) < 16777216"
  shows "x mod 256 + 256 * (x div 256 mod 256) + 65536 * (x div 65536 mod 256) = x"
proof -
  define y where "y = x div 256"
  have a: "x div 65536 < 256" using assms by (simp add: div_less_iff_less_mult)
  have b: "x div 65536 = y div 256" unfolding y_def by (simp add: div_mult2_eq)
  have c: "y mod 256 + 256 * (y div 256) = y" by simp
  have d: "x mod 256 + 256 * y = x" unfolding y_def by simp
  from a have e: "x div 65536 mod 256 = y div 256" using b by simp
  have f: "65536 * (y div 256) = 256 * (256 * (y div 256))" by simp
  have "x mod 256 + 256 * (y mod 256) + 65536 * (y div 256)
      = x mod 256 + 256 * (y mod 256 + 256 * (y div 256))"
    by (simp only: f distrib_left add.assoc)
  also have "\<dots> = x" unfolding c by (rule d)
  finally show ?thesis unfolding e y_def [symmetric] .
qed

lemma nat_bytes24_mod:
  "(x :: nat) mod 256 + 256 * (x div 256 mod 256) + 65536 * (x div 65536 mod 256)
     = x mod 16777216"
proof -
  define y where "y = x mod 16777216"
  have y: "y < 16777216" unfolding y_def by simp
  have t: "y = take_bit 24 x" unfolding y_def by (simp add: take_bit_eq_mod)
  have a: "y mod 256 = x mod 256"
    unfolding y_def by (simp add: mod_mod_cancel)
  have "take_bit 8 (drop_bit 8 y) = take_bit 8 (drop_bit 8 x)"
    unfolding t by (simp add: take_bit_drop_bit)
  then have b: "y div 256 mod 256 = x div 256 mod 256"
    by (simp add: take_bit_eq_mod drop_bit_eq_div)
  have "take_bit 8 (drop_bit 16 y) = take_bit 8 (drop_bit 16 x)"
    unfolding t by (simp add: take_bit_drop_bit)
  then have c: "y div 65536 mod 256 = x div 65536 mod 256"
    by (simp add: take_bit_eq_mod drop_bit_eq_div)
  have "y mod 256 + 256 * (y div 256 mod 256) + 65536 * (y div 65536 mod 256) = y"
    by (rule nat_bytes24 [OF y])
  then have "x mod 256 + 256 * (x div 256 mod 256) + 65536 * (x div 65536 mod 256) = y"
    unfolding a b c .
  then show ?thesis unfolding y_def .
qed

lemma and_ff: "(x :: 'a::len word) AND 0xff = take_bit 8 x"
  by (simp add: take_bit_eq_mask mask_eq_exp_minus_1)

lemma unat_byte:
  "unat (ucast (drop_bit n (x :: 'a::len word) AND 0xff) :: u8) = (unat x div 2 ^ n) mod 256"
  unfolding and_ff
  by (simp only: unsigned_ucast_eq unsigned_take_bit_eq unat_drop_bit_eq)
    (simp add: take_bit_eq_mod drop_bit_eq_div)

lemma unat_byte0:
  "unat (ucast ((x :: 'a::len word) AND 0xff) :: u8) = unat x mod 256"
  using unat_byte [of 0 x] by simp

lemma unat_ucast_u8:
  "unat (ucast (x :: 'a::len word) :: u8) = unat x mod 256"
  by (simp only: unsigned_ucast_eq) (simp add: take_bit_eq_mod)

lemma unat_ucast_drop_u8:
  "unat (ucast (drop_bit n (x :: 'a::len word)) :: u8) = (unat x div 2 ^ n) mod 256"
  by (simp only: unsigned_ucast_eq unat_drop_bit_eq)
    (simp add: take_bit_eq_mod drop_bit_eq_div)

lemma unat_u8_less: "unat (b :: u8) < 256"
  using unsigned_less [of b, where 'a = nat] by simp

lemma unat_ucast_up_u8: "unat (ucast (b :: u8) :: u32) = unat b"
  using unat_u8_less [of b]
  by (simp only: unsigned_ucast_eq) (simp add: take_bit_eq_mod)

lemma unat_ucast_small:
  "unat (w :: 'a::len word) < 2 ^ LENGTH('b) \<Longrightarrow> unat (ucast w :: 'b::len word) = unat w"
  by (simp only: unsigned_ucast_eq) (simp add: take_bit_eq_mod)

lemma div_add_offset: "0 < (h :: nat) \<Longrightarrow> (k * h + c) div h = k + c div h"
  by simp

lemma not_bit_63_small:
  assumes "unat (w :: u64) < 2 ^ 63"
  shows "\<not> bit w 63"
proof -
  have "unat (drop_bit 63 w) = unat w div 2 ^ 63"
    by (simp only: unat_drop_bit_eq) (simp add: drop_bit_eq_div)
  then have "unat (drop_bit 63 w) = 0"
    using assms by simp
  then have "drop_bit 63 w = 0" by (simp add: unat_eq_zero)
  then show ?thesis by (simp add: bit_iff_odd_drop_bit)
qed

lemma signed_drop_bit_small:
  assumes "unat (w :: u64) < 2 ^ 63"
  shows "signed_drop_bit n w = drop_bit n w"
proof (rule bit_word_eqI)
  fix k
  assume k: "k < LENGTH(64)"
  have nb: "\<not> bit w 63" by (rule not_bit_63_small [OF assms])
  show "bit (signed_drop_bit n w) k = bit (drop_bit n w) k"
  proof (cases "64 - n \<le> k")
    case True
    then have "\<not> bit w (n + k)"
      using bit_imp_le_length [of w "n + k"] by auto
    with True k nb show ?thesis
      by (simp add: bit_signed_drop_bit_iff bit_drop_bit_eq)
  next
    case False
    with k show ?thesis
      by (simp add: bit_signed_drop_bit_iff bit_drop_bit_eq)
  qed
qed

lemma fr_reg_bytes_1: "fr_reg_bytes reg 1 w = [(reg, ucast w)]"
  by (simp add: fr_reg_bytes_def)

lemma fr_reg_bytes_2:
  "fr_reg_bytes reg 2 w = [(reg, ucast w), (reg + 1, ucast (drop_bit 8 w))]"
proof -
  have "[0 ..< (2 :: nat)] = [0, 1]" by (simp add: numeral_2_eq_2)
  then show ?thesis by (simp add: fr_reg_bytes_def)
qed

lemma fr_reg_bytes_3:
  "fr_reg_bytes reg 3 w =
     [(reg, ucast w), (reg + 1, ucast (drop_bit 8 w)), (reg + 2, ucast (drop_bit 16 w))]"
proof -
  have "[0 ..< (3 :: nat)] = [0, 1, 2]" by (simp add: numeral_3_eq_3)
  then show ?thesis by (simp add: fr_reg_bytes_def)
qed

lemma fr_write_hold_reg_2:
  assumes "bus_ok f"
  shows "fr_imx662_write_hold_reg f reg 2 w =
     (0, f\<lparr>regs := (regs f)(REGHOLD := 1, reg := ucast w,
                 reg + 1 := ucast (drop_bit 8 w), REGHOLD := 0),
            wlog := wlog f @ [(REGHOLD, 1), (reg, ucast w),
                 (reg + 1, ucast (drop_bit 8 w)), (REGHOLD, 0)]\<rparr>)"
  using assms
  by (simp add: fr_imx662_write_hold_reg_def fr_imx662_write_reg_def fr_reg_bytes_1
      fr_reg_bytes_2)

lemma fr_write_hold_reg_3:
  assumes "bus_ok f"
  shows "fr_imx662_write_hold_reg f reg 3 w =
     (0, f\<lparr>regs := (regs f)(REGHOLD := 1, reg := ucast w,
                 reg + 1 := ucast (drop_bit 8 w), reg + 2 := ucast (drop_bit 16 w),
                 REGHOLD := 0),
            wlog := wlog f @ [(REGHOLD, 1), (reg, ucast w),
                 (reg + 1, ucast (drop_bit 8 w)), (reg + 2, ucast (drop_bit 16 w)),
                 (REGHOLD, 0)]\<rparr>)"
  using assms
  by (simp add: fr_imx662_write_hold_reg_def fr_imx662_write_reg_def fr_reg_bytes_1
      fr_reg_bytes_3)

section \<open>Properties of the exposure translation (imx662\_mipi.c)\<close>

lemma imx662_write_reg_wlog: "wlog (snd (imx662_write_reg s r v)) = wlog s @ [(r, v)]"
  by (simp add: imx662_write_reg_def)

lemma imx662_write_seq_Cons:
  "snd (imx662_write_seq s ((r, v) # ws)) =
     snd (imx662_write_seq (snd (imx662_write_reg s r v)) ws)"
  by (simp split: prod.splits)

lemma imx662_write_seq_wlog: "wlog (snd (imx662_write_seq s ws)) = wlog s @ ws"
proof (induction ws arbitrary: s)
  case Nil
  show ?case by simp
next
  case (Cons w ws)
  obtain r v where w: "w = (r, v)" by (cases w)
  show ?case
    unfolding w imx662_write_seq_Cons Cons.IH imx662_write_reg_wlog by simp
qed

lemma exp_shr0_low:
  assumes "index s \<noteq> IMX662_DOL_INDEX"
    and "lines < min_integration_line s"
    and "1 \<le> min_integration_line s"
    and "unat (min_integration_line s) + unat (imx662_min_shr0 (index s))
           \<le> unat (curr_frm_len_lines s)"
  shows "imx662_exp_shr0 s lines = curr_frm_len_lines s - min_integration_line s"
proof -
  define mn where "mn = min_integration_line s"
  define mx where "mx = max_integration_line s"
  define fl where "fl = curr_frm_len_lines s"
  define m0 where "m0 = imx662_min_shr0 (index s)"
  have l2: "(let l1 = (if lines > mx then mx else lines) in if l1 < mn then mn else l1) = mn"
    using assms(2) unfolding mn_def [symmetric] Let_def by (auto simp: not_less)
  have a: "\<not> fl - mn > fl - 1"
    using assms(3,4) unfolding mn_def [symmetric] fl_def [symmetric] by unat_arith
  have b: "m0 \<le> fl - mn"
    using assms(3,4) unfolding mn_def [symmetric] fl_def [symmetric] m0_def [symmetric]
    by unat_arith
  show ?thesis
    using assms(1) l2 a b
    unfolding imx662_exp_shr0_def mn_def [symmetric] mx_def [symmetric] fl_def [symmetric]
      m0_def [symmetric]
    by (simp add: Let_def max_def)
qed

lemma exp_shr0_mid:
  assumes "index s \<noteq> IMX662_DOL_INDEX"
    and "min_integration_line s \<le> lines"
    and "lines \<le> curr_frm_len_lines s - imx662_min_shr0 (index s)"
    and "1 \<le> min_integration_line s"
    and "unat (curr_frm_len_lines s)
           \<le> unat (max_integration_line s) + unat (imx662_min_shr0 (index s))"
    and "unat (min_integration_line s) + unat (imx662_min_shr0 (index s))
           \<le> unat (curr_frm_len_lines s)"
  shows "imx662_exp_shr0 s lines = curr_frm_len_lines s - lines"
proof -
  define mn where "mn = min_integration_line s"
  define mx where "mx = max_integration_line s"
  define fl where "fl = curr_frm_len_lines s"
  define m0 where "m0 = imx662_min_shr0 (index s)"
  note a = assms [folded mn_def mx_def fl_def m0_def]
  have le: "lines \<le> mx"
    using a(3,5,6) by unat_arith
  have l2: "(let l1 = (if lines > mx then mx else lines) in if l1 < mn then mn else l1) = lines"
    using le a(2) unfolding Let_def by (auto simp: not_less)
  have x: "\<not> fl - lines > fl - 1"
    using a(2,3,4,6) by unat_arith
  have y: "m0 \<le> fl - lines"
    using a(3,6) by unat_arith
  show ?thesis
    using assms(1) l2 x y
    unfolding imx662_exp_shr0_def mn_def [symmetric] mx_def [symmetric] fl_def [symmetric]
      m0_def [symmetric]
    by (simp add: Let_def max_def)
qed

lemma exp_shr0_high:
  assumes "index s \<noteq> IMX662_DOL_INDEX"
    and "lines > curr_frm_len_lines s - imx662_min_shr0 (index s)"
    and "1 \<le> min_integration_line s"
    and "min_integration_line s \<le> max_integration_line s"
    and "max_integration_line s \<le> curr_frm_len_lines s"
    and "unat (curr_frm_len_lines s)
           \<le> unat (max_integration_line s) + unat (imx662_min_shr0 (index s))"
    and "unat (min_integration_line s) + unat (imx662_min_shr0 (index s))
           \<le> unat (curr_frm_len_lines s)"
  shows "imx662_exp_shr0 s lines = imx662_min_shr0 (index s)"
proof -
  define mn where "mn = min_integration_line s"
  define mx where "mx = max_integration_line s"
  define fl where "fl = curr_frm_len_lines s"
  define m0 where "m0 = imx662_min_shr0 (index s)"
  define l1 where "l1 = (if lines > mx then mx else lines)"
  note a = assms [folded mn_def mx_def fl_def m0_def]
  have c: "l1 = mx \<or> l1 = lines" unfolding l1_def by simp
  have ml: "mn \<le> lines"
    using a(2,7) by unat_arith
  have lo: "mn \<le> l1"
    unfolding l1_def using ml a(4) by (simp add: not_less)
  have l2: "(if l1 < mn then mn else l1) = l1"
    using lo by auto
  have hi: "l1 \<le> mx" unfolding l1_def by (simp add: not_less)
  have x: "\<not> fl - l1 > fl - 1"
    using lo hi a(3,5) by unat_arith
  have y1: "fl - mx \<le> m0"
    using a(5,6) by unat_arith
  have y2: "fl - lines \<le> m0" if "lines \<le> mx"
    using that a(2,5,7) by unat_arith
  have y: "fl - l1 \<le> m0"
    unfolding l1_def using y1 y2 by (simp add: not_less)
  show ?thesis
    using assms(1) l2 x y
    unfolding imx662_exp_shr0_def mn_def [symmetric] mx_def [symmetric] fl_def [symmetric]
      m0_def [symmetric] Let_def l1_def [symmetric]
    by (simp add: max_def)
qed


lemma exp_shr0_dol:
  assumes "index s = IMX662_DOL_INDEX"
    and "1 \<le> min_integration_line s"
    and "min_integration_line s \<le> max_integration_line s"
    and "unat (max_integration_line s) + 4 \<le> 2 * unat (curr_frm_len_lines s)"
    and "2 * unat (curr_frm_len_lines s) < 2 ^ 32"
  shows "unat (imx662_exp_shr0 s lines) =
     (let L = max (unat (min_integration_line s))
                (min (unat lines) (unat (max_integration_line s)))
      in 2 * unat (curr_frm_len_lines s) - L - L mod 2)"
proof -
  define mn where "mn = min_integration_line s"
  define mx where "mx = max_integration_line s"
  define fl where "fl = curr_frm_len_lines s"
  define l1 where "l1 = (if lines > mx then mx else lines)"
  define l2 where "l2 = (if l1 < mn then mn else l1)"
  define L where "L = max (unat mn) (min (unat lines) (unat mx))"
  define F where "F = 2 * unat fl"
  define r where "r = 2 * fl - l2"
  define r' where "r' = (if r mod 2 \<noteq> 0 then r - 1 else r)"
  note a = assms [folded mn_def mx_def fl_def]
  have F32: "F < 4294967296" using a(5) unfolding F_def by simp
  have mxF: "unat mx + 4 \<le> F" using a(4) unfolding F_def .
  have u1: "unat l1 = min (unat lines) (unat mx)"
    unfolding l1_def by (auto simp: word_less_nat_alt)
  have u2: "unat l2 = L"
    unfolding l2_def L_def u1 [symmetric] by (auto simp: word_less_nat_alt)
  have mn1: "1 \<le> unat mn" using a(2) by (simp add: word_le_nat_alt)
  have mnmx: "unat mn \<le> unat mx" using a(3) by (simp add: word_le_nat_alt)
  have L1: "1 \<le> L" and Lmx: "L \<le> unat mx"
    unfolding L_def using mn1 mnmx by simp_all
  have uF: "unat (2 * fl) = F"
  proof -
    have "unat (2 * fl) = unat (2 :: u32) * unat fl"
      using a(5) by (subst unat_mult_lem [THEN iffD1]) simp_all
    then show ?thesis unfolding F_def by simp
  qed
  have ur: "unat r = F - L"
    unfolding r_def using Lmx mxF uF u2
    by (simp add: unat_sub_if_size word_size)
  have par: "(F - L) mod 2 = L mod 2"
  proof -
    have "even F" unfolding F_def by simp
    moreover have "L \<le> F" using Lmx mxF by simp
    ultimately show ?thesis by (simp add: mod2_eq_if)
  qed
  have rm: "(r mod 2 \<noteq> 0) = (L mod 2 \<noteq> 0)"
  proof -
    have "unat (r mod 2) = unat r mod 2" by (simp add: unat_mod)
    then have "(r mod 2 = 0) = (unat r mod 2 = 0)"
      by (simp add: unat_eq_zero [symmetric])
    then show ?thesis unfolding ur par by simp
  qed
  have r1: "1 \<le> unat r" unfolding ur using Lmx mxF by simp
  have ur': "unat r' = F - L - L mod 2"
  proof (cases "L mod 2 = 0")
    case True
    then show ?thesis unfolding r'_def rm ur [symmetric] by simp
  next
    case False
    then have "L mod 2 = 1" by simp
    moreover have "unat (r - 1) = unat r - 1"
      using r1 by (simp add: unat_sub_if_size word_size)
    ultimately show ?thesis unfolding r'_def rm ur [symmetric] by simp
  qed
  have uF1: "unat (2 * fl - 1) = F - 1"
    using uF mxF by (simp add: unat_sub_if_size word_size)
  have san: "\<not> r' > 2 * fl - 1"
    unfolding word_less_nat_alt ur' uF1 using L1 by simp
  have ge4: "4 \<le> unat r'"
  proof -
    have "4 \<le> F - L" using Lmx mxF by simp
    moreover have "F - L = 4 \<Longrightarrow> L mod 2 = 0"
      using par by simp
    ultimately show ?thesis unfolding ur' by (cases "F - L = 4") simp_all
  qed
  then have mx4: "max 4 r' = r'"
    by (simp add: max_def word_le_nat_alt)
  have "imx662_exp_shr0 s lines = r'"
    using assms(1) san mx4
    unfolding imx662_exp_shr0_def mn_def [symmetric] mx_def [symmetric] fl_def [symmetric]
      Let_def l1_def [symmetric] l2_def [symmetric] r_def [symmetric] r'_def [symmetric]
    by (simp add: imx662_min_shr0_def)
  then show ?thesis
    using ur'
    unfolding mn_def [symmetric] mx_def [symmetric] fl_def [symmetric] Let_def
      L_def [symmetric] F_def [symmetric] by simp
qed


lemma shr0_write5:
  assumes "bus_ok s"
  shows "imx662_write_seq s
           [(REGHOLD, 1), (SHR0_HIGH, h), (SHR0_MID, m), (SHR0_LOW, l), (REGHOLD, 0)]
         = (0, s\<lparr>regs := (regs s)(REGHOLD := 0, SHR0_HIGH := h, SHR0_MID := m, SHR0_LOW := l),
                  wlog := wlog s @
                    [(REGHOLD, 1), (SHR0_HIGH, h), (SHR0_MID, m), (SHR0_LOW, l),
                     (REGHOLD, 0)]\<rparr>)"
  using assms by (simp add: imx662_write_reg_def fun_upd_twist)

lemma set_exp_writes:
  assumes "imx662_exp_lines exp which_control (one_line_exp_time_ns s) = Some lines"
  shows "\<exists>ret s'. imx662_set_exp s exp which_control = Some (ret, s') \<and>
      wlog s' = wlog s @
        [(REGHOLD, 1),
         (SHR0_HIGH, ucast (drop_bit 16 (imx662_exp_shr0 s lines) AND 0xff)),
         (SHR0_MID, ucast (drop_bit 8 (imx662_exp_shr0 s lines) AND 0xff)),
         (SHR0_LOW, ucast (imx662_exp_shr0 s lines AND 0xff)),
         (REGHOLD, 0)] \<and>
      (bus_ok s \<longrightarrow> ret = 0 \<and>
         reg24 (regs s') SHR0_LOW = unat (imx662_exp_shr0 s lines) mod 2 ^ 24)"
proof -
  define v where "v = imx662_exp_shr0 s lines"
  define h :: u8 where "h = ucast (drop_bit 16 v AND 0xff)"
  define m :: u8 where "m = ucast (drop_bit 8 v AND 0xff)"
  define l :: u8 where "l = ucast (v AND 0xff)"
  define ws where "ws = [(REGHOLD, 1), (SHR0_HIGH, h), (SHR0_MID, m), (SHR0_LOW, l),
    (REGHOLD, 0 :: u8)]"
  obtain ret s' where r: "imx662_write_seq s ws = (ret, s')"
    by (cases "imx662_write_seq s ws")
  then have w: "wlog s' = wlog s @ ws"
    using imx662_write_seq_wlog [of s ws] by simp
  have e: "imx662_set_exp s exp which_control = Some (ret, s')"
    using assms r
    by (simp add: imx662_set_exp_def shr0_writes_def v_def ws_def h_def m_def l_def)
  have ul: "unat l = unat v mod 256"
    unfolding l_def by (rule unat_byte0)
  have um: "unat m = unat v div 256 mod 256"
    unfolding m_def using unat_byte [of 8 v] by simp
  have uh: "unat h = unat v div 65536 mod 256"
    unfolding h_def using unat_byte [of 16 v] by simp
  have b: "ret = 0 \<and> reg24 (regs s') SHR0_LOW = unat v mod 2 ^ 24" if "bus_ok s"
  proof -
    have s': "ret = 0" "regs s' = (regs s)(REGHOLD := 0, SHR0_HIGH := h, SHR0_MID := m,
        SHR0_LOW := l)"
      using r unfolding ws_def shr0_write5 [OF that] by auto
    have "reg24 (regs s') SHR0_LOW = unat l + 256 * unat m + 65536 * unat h"
      unfolding s'(2) reg24_def by simp
    also have "\<dots> = unat v mod 256 + 256 * (unat v div 256 mod 256)
        + 65536 * (unat v div 65536 mod 256)"
      unfolding ul um uh ..
    also have "\<dots> = unat v mod 16777216" by (rule nat_bytes24_mod)
    finally show ?thesis using s'(1) by simp
  qed
  show ?thesis
    using e w b unfolding ws_def h_def m_def l_def v_def by blast
qed


lemma set_sensor_mode_limits:
  "i \<noteq> IMX662_DOL_INDEX \<Longrightarrow>
   1 \<le> min_integration_line (imx662_set_sensor_mode s i) \<and>
   min_integration_line (imx662_set_sensor_mode s i)
     \<le> max_integration_line (imx662_set_sensor_mode s i) \<and>
   max_integration_line (imx662_set_sensor_mode s i)
     \<le> curr_frm_len_lines (imx662_set_sensor_mode s i) \<and>
   unat (curr_frm_len_lines (imx662_set_sensor_mode s i))
     \<le> unat (max_integration_line (imx662_set_sensor_mode s i)) + unat (imx662_min_shr0 i) \<and>
   unat (min_integration_line (imx662_set_sensor_mode s i)) + unat (imx662_min_shr0 i)
     \<le> unat (curr_frm_len_lines (imx662_set_sensor_mode s i))"
  by (cases i) (simp_all add: imx662_set_sensor_mode_def imx662_min_shr0_def)

lemma set_sensor_mode_dol_limits:
  "1 \<le> min_integration_line (imx662_set_sensor_mode s IMX662_DOL_INDEX) \<and>
   min_integration_line (imx662_set_sensor_mode s IMX662_DOL_INDEX)
     \<le> max_integration_line (imx662_set_sensor_mode s IMX662_DOL_INDEX) \<and>
   unat (max_integration_line (imx662_set_sensor_mode s IMX662_DOL_INDEX)) + 4
     \<le> 2 * unat (curr_frm_len_lines (imx662_set_sensor_mode s IMX662_DOL_INDEX)) \<and>
   2 * unat (curr_frm_len_lines (imx662_set_sensor_mode s IMX662_DOL_INDEX)) < 2 ^ 32"
  by (simp add: imx662_set_sensor_mode_def)

text \<open>
  C1 (as the code has it). \<^verbatim>\<open>imx662_set_exp\<close> programs the shutter register
  \<^verbatim>\<open>SHR0\<close> under register hold with a value \<open>v\<close> (on a working bus the call
  returns 0 and the register holds \<open>v\<close>). In every mode but the line-interleaved DOL
  mode, with mode limits \<open>1 \<le> min \<le> max \<le> frame_length\<close> and
  \<open>frame_length - max \<le> min_shr0 \<le> frame_length - min\<close> (as the mode table sets
  them), the integration-line count is clamped to
  \<open>[min, frame_length - min_shr0]\<close> before the conversion: a count below the minimum
  programs \<open>frame_length - min\<close>, a count inside the interval programs
  \<open>frame_length - lines\<close>, and a count above \<open>frame_length - min_shr0\<close> programs the
  minimum shutter length \<open>min_shr0\<close>, 8 in the clear-HDR mode and 4 otherwise. In the
  DOL mode, with \<open>1 \<le> min \<le> max \<le> 2 * frame_length - 4\<close>, the count is clamped to
  \<open>[min, max]\<close> and the register is \<open>2 * frame_length - lines\<close> made even.
\<close>

theorem set_exp_clamps_shutter:
  assumes "imx662_exp_lines exp which_control (one_line_exp_time_ns s) = Some lines"
  shows "\<exists>ret s' v. imx662_set_exp s exp which_control = Some (ret, s') \<and>
      wlog s' = wlog s @
        [(REGHOLD, 1), (SHR0_HIGH, ucast (drop_bit 16 v AND 0xff)),
         (SHR0_MID, ucast (drop_bit 8 v AND 0xff)), (SHR0_LOW, ucast (v AND 0xff)),
         (REGHOLD, 0)] \<and>
      (bus_ok s \<longrightarrow> ret = 0 \<and> reg24 (regs s') SHR0_LOW = unat v mod 2 ^ 24) \<and>
      (index s \<noteq> IMX662_DOL_INDEX \<and>
       1 \<le> min_integration_line s \<and>
       min_integration_line s \<le> max_integration_line s \<and>
       max_integration_line s \<le> curr_frm_len_lines s \<and>
       unat (curr_frm_len_lines s)
         \<le> unat (max_integration_line s) + unat (imx662_min_shr0 (index s)) \<and>
       unat (min_integration_line s) + unat (imx662_min_shr0 (index s))
         \<le> unat (curr_frm_len_lines s) \<longrightarrow>
         (lines < min_integration_line s \<longrightarrow>
            v = curr_frm_len_lines s - min_integration_line s) \<and>
         (min_integration_line s \<le> lines \<and>
          lines \<le> curr_frm_len_lines s - imx662_min_shr0 (index s) \<longrightarrow>
            v = curr_frm_len_lines s - lines) \<and>
         (lines > curr_frm_len_lines s - imx662_min_shr0 (index s) \<longrightarrow>
            v = imx662_min_shr0 (index s))) \<and>
      imx662_min_shr0 (index s) = (if index s = IMX662_CLEAR_INDEX then 8 else 4) \<and>
      (index s = IMX662_DOL_INDEX \<and>
       1 \<le> min_integration_line s \<and>
       min_integration_line s \<le> max_integration_line s \<and>
       unat (max_integration_line s) + 4 \<le> 2 * unat (curr_frm_len_lines s) \<and>
       2 * unat (curr_frm_len_lines s) < 2 ^ 32 \<longrightarrow>
         (let L = max (unat (min_integration_line s))
                    (min (unat lines) (unat (max_integration_line s)))
          in unat v = 2 * unat (curr_frm_len_lines s) - L - L mod 2))"
proof -
  define v where "v = imx662_exp_shr0 s lines"
  from set_exp_writes [OF assms] obtain ret s' where r:
    "imx662_set_exp s exp which_control = Some (ret, s')"
    "wlog s' = wlog s @
        [(REGHOLD, 1), (SHR0_HIGH, ucast (drop_bit 16 v AND 0xff)),
         (SHR0_MID, ucast (drop_bit 8 v AND 0xff)), (SHR0_LOW, ucast (v AND 0xff)),
         (REGHOLD, 0)]"
    "bus_ok s \<longrightarrow> ret = 0 \<and> reg24 (regs s') SHR0_LOW = unat v mod 2 ^ 24"
    unfolding v_def by blast
  have m: "imx662_min_shr0 (index s) = (if index s = IMX662_CLEAR_INDEX then 8 else 4)"
    by (cases "index s") (simp_all add: imx662_min_shr0_def)
  have n: "index s \<noteq> IMX662_DOL_INDEX \<and>
       1 \<le> min_integration_line s \<and>
       min_integration_line s \<le> max_integration_line s \<and>
       max_integration_line s \<le> curr_frm_len_lines s \<and>
       unat (curr_frm_len_lines s)
         \<le> unat (max_integration_line s) + unat (imx662_min_shr0 (index s)) \<and>
       unat (min_integration_line s) + unat (imx662_min_shr0 (index s))
         \<le> unat (curr_frm_len_lines s) \<longrightarrow>
         (lines < min_integration_line s \<longrightarrow>
            v = curr_frm_len_lines s - min_integration_line s) \<and>
         (min_integration_line s \<le> lines \<and>
          lines \<le> curr_frm_len_lines s - imx662_min_shr0 (index s) \<longrightarrow>
            v = curr_frm_len_lines s - lines) \<and>
         (lines > curr_frm_len_lines s - imx662_min_shr0 (index s) \<longrightarrow>
            v = imx662_min_shr0 (index s))"
    unfolding v_def
    using exp_shr0_low [of s lines] exp_shr0_mid [of s lines] exp_shr0_high [of s lines]
    by blast
  have d: "index s = IMX662_DOL_INDEX \<and>
       1 \<le> min_integration_line s \<and>
       min_integration_line s \<le> max_integration_line s \<and>
       unat (max_integration_line s) + 4 \<le> 2 * unat (curr_frm_len_lines s) \<and>
       2 * unat (curr_frm_len_lines s) < 2 ^ 32 \<longrightarrow>
         (let L = max (unat (min_integration_line s))
                    (min (unat lines) (unat (max_integration_line s)))
          in unat v = 2 * unat (curr_frm_len_lines s) - L - L mod 2)"
    unfolding v_def Let_def using exp_shr0_dol [of s lines, unfolded Let_def] by blast
  show ?thesis
    using r m n d by blast
qed


theorem set_exp_clamps_shutter_witness:
  "imx662_exp_lines 0 1 (one_line_exp_time_ns sensor0) = Some 0 \<and>
   imx662_exp_lines 1333 1 (one_line_exp_time_ns sensor0) = Some 99 \<and>
   imx662_exp_lines 100000 1 (one_line_exp_time_ns sensor0) = Some 7500 \<and>
   imx662_exp_lines 33253 1 (one_line_exp_time_ns clear0) = Some 2494 \<and>
   imx662_exp_lines 0 1 (one_line_exp_time_ns dol0) = Some 0 \<and>
   bus_ok sensor0 \<and> index sensor0 = IMX662_ALL_PIXEL_INDEX \<and>
   min_integration_line sensor0 = 1 \<and> max_integration_line sensor0 = 1246 \<and>
   curr_frm_len_lines sensor0 = 1250 \<and> imx662_min_shr0 (index sensor0) = 4 \<and>
   bus_ok clear0 \<and> index clear0 = IMX662_CLEAR_INDEX \<and>
   min_integration_line clear0 = 8 \<and> max_integration_line clear0 = 2496 \<and>
   curr_frm_len_lines clear0 = 2500 \<and> imx662_min_shr0 (index clear0) = 8 \<and>
   bus_ok dol0 \<and> index dol0 = IMX662_DOL_INDEX \<and>
   min_integration_line dol0 = 1 \<and> max_integration_line dol0 = 2434 \<and>
   curr_frm_len_lines dol0 = 1250 \<and>
   (\<exists>ret s'. imx662_set_exp sensor0 0 1 = Some (ret, s') \<and> ret = 0 \<and>
      reg24 (regs s') SHR0_LOW = 1249) \<and>
   (\<exists>ret s'. imx662_set_exp sensor0 1333 1 = Some (ret, s') \<and> ret = 0 \<and>
      reg24 (regs s') SHR0_LOW = 1151) \<and>
   (\<exists>ret s'. imx662_set_exp sensor0 100000 1 = Some (ret, s') \<and> ret = 0 \<and>
      reg24 (regs s') SHR0_LOW = 4) \<and>
   (\<exists>ret s'. imx662_set_exp clear0 33253 1 = Some (ret, s') \<and> ret = 0 \<and>
      reg24 (regs s') SHR0_LOW = 8) \<and>
   (\<exists>ret s'. imx662_set_exp dol0 0 1 = Some (ret, s') \<and> ret = 0 \<and>
      reg24 (regs s') SHR0_LOW = 2498)"
proof -
  have i1: "\<exists>ret s'. imx662_set_exp sensor0 0 1 = Some (ret, s') \<and> ret = 0 \<and>
      reg24 (regs s') SHR0_LOW = 1249"
  proof -
    have l: "imx662_exp_lines 0 1 (one_line_exp_time_ns sensor0) = Some 0"
      by (simp add: sensor0_def dol0_def clear0_def imx662_set_sensor_mode_def imx662_min_shr0_def imx662_exp_lines_def)
    from set_exp_clamps_shutter [OF l] obtain ret s' v where
      a: "imx662_set_exp sensor0 0 1 = Some (ret, s')"
      and b: "bus_ok sensor0 \<longrightarrow> ret = 0 \<and> reg24 (regs s') SHR0_LOW = unat v mod 2 ^ 24"
      and c: "index sensor0 \<noteq> IMX662_DOL_INDEX \<and>
       1 \<le> min_integration_line sensor0 \<and>
       min_integration_line sensor0 \<le> max_integration_line sensor0 \<and>
       max_integration_line sensor0 \<le> curr_frm_len_lines sensor0 \<and>
       unat (curr_frm_len_lines sensor0)
         \<le> unat (max_integration_line sensor0) + unat (imx662_min_shr0 (index sensor0)) \<and>
       unat (min_integration_line sensor0) + unat (imx662_min_shr0 (index sensor0))
         \<le> unat (curr_frm_len_lines sensor0) \<longrightarrow>
         (0 < min_integration_line sensor0 \<longrightarrow>
            v = curr_frm_len_lines sensor0 - min_integration_line sensor0) \<and>
         (min_integration_line sensor0 \<le> 0 \<and>
          0 \<le> curr_frm_len_lines sensor0 - imx662_min_shr0 (index sensor0) \<longrightarrow>
            v = curr_frm_len_lines sensor0 - 0) \<and>
         (0 > curr_frm_len_lines sensor0 - imx662_min_shr0 (index sensor0) \<longrightarrow>
            v = imx662_min_shr0 (index sensor0))"
      and d: "index sensor0 = IMX662_DOL_INDEX \<and>
       1 \<le> min_integration_line sensor0 \<and>
       min_integration_line sensor0 \<le> max_integration_line sensor0 \<and>
       unat (max_integration_line sensor0) + 4 \<le> 2 * unat (curr_frm_len_lines sensor0) \<and>
       2 * unat (curr_frm_len_lines sensor0) < 2 ^ 32 \<longrightarrow>
         (let L = max (unat (min_integration_line sensor0))
                    (min (unat (0 :: u32)) (unat (max_integration_line sensor0)))
          in unat v = 2 * unat (curr_frm_len_lines sensor0) - L - L mod 2)"
      by blast
    from c d have "unat v = 1249"
      by (simp add: sensor0_def dol0_def clear0_def imx662_set_sensor_mode_def imx662_min_shr0_def imx662_exp_lines_def)
    with a b show ?thesis
      by (simp add: sensor0_def dol0_def clear0_def imx662_set_sensor_mode_def imx662_min_shr0_def imx662_exp_lines_def)
  qed
  have i2: "\<exists>ret s'. imx662_set_exp sensor0 1333 1 = Some (ret, s') \<and> ret = 0 \<and>
      reg24 (regs s') SHR0_LOW = 1151"
  proof -
    have l: "imx662_exp_lines 1333 1 (one_line_exp_time_ns sensor0) = Some 99"
      by (simp add: sensor0_def dol0_def clear0_def imx662_set_sensor_mode_def imx662_min_shr0_def imx662_exp_lines_def)
    from set_exp_clamps_shutter [OF l] obtain ret s' v where
      a: "imx662_set_exp sensor0 1333 1 = Some (ret, s')"
      and b: "bus_ok sensor0 \<longrightarrow> ret = 0 \<and> reg24 (regs s') SHR0_LOW = unat v mod 2 ^ 24"
      and c: "index sensor0 \<noteq> IMX662_DOL_INDEX \<and>
       1 \<le> min_integration_line sensor0 \<and>
       min_integration_line sensor0 \<le> max_integration_line sensor0 \<and>
       max_integration_line sensor0 \<le> curr_frm_len_lines sensor0 \<and>
       unat (curr_frm_len_lines sensor0)
         \<le> unat (max_integration_line sensor0) + unat (imx662_min_shr0 (index sensor0)) \<and>
       unat (min_integration_line sensor0) + unat (imx662_min_shr0 (index sensor0))
         \<le> unat (curr_frm_len_lines sensor0) \<longrightarrow>
         (99 < min_integration_line sensor0 \<longrightarrow>
            v = curr_frm_len_lines sensor0 - min_integration_line sensor0) \<and>
         (min_integration_line sensor0 \<le> 99 \<and>
          99 \<le> curr_frm_len_lines sensor0 - imx662_min_shr0 (index sensor0) \<longrightarrow>
            v = curr_frm_len_lines sensor0 - 99) \<and>
         (99 > curr_frm_len_lines sensor0 - imx662_min_shr0 (index sensor0) \<longrightarrow>
            v = imx662_min_shr0 (index sensor0))"
      and d: "index sensor0 = IMX662_DOL_INDEX \<and>
       1 \<le> min_integration_line sensor0 \<and>
       min_integration_line sensor0 \<le> max_integration_line sensor0 \<and>
       unat (max_integration_line sensor0) + 4 \<le> 2 * unat (curr_frm_len_lines sensor0) \<and>
       2 * unat (curr_frm_len_lines sensor0) < 2 ^ 32 \<longrightarrow>
         (let L = max (unat (min_integration_line sensor0))
                    (min (unat (99 :: u32)) (unat (max_integration_line sensor0)))
          in unat v = 2 * unat (curr_frm_len_lines sensor0) - L - L mod 2)"
      by blast
    from c d have "unat v = 1151"
      by (simp add: sensor0_def dol0_def clear0_def imx662_set_sensor_mode_def imx662_min_shr0_def imx662_exp_lines_def)
    with a b show ?thesis
      by (simp add: sensor0_def dol0_def clear0_def imx662_set_sensor_mode_def imx662_min_shr0_def imx662_exp_lines_def)
  qed
  have i3: "\<exists>ret s'. imx662_set_exp sensor0 100000 1 = Some (ret, s') \<and> ret = 0 \<and>
      reg24 (regs s') SHR0_LOW = 4"
  proof -
    have l: "imx662_exp_lines 100000 1 (one_line_exp_time_ns sensor0) = Some 7500"
      by (simp add: sensor0_def dol0_def clear0_def imx662_set_sensor_mode_def imx662_min_shr0_def imx662_exp_lines_def)
    from set_exp_clamps_shutter [OF l] obtain ret s' v where
      a: "imx662_set_exp sensor0 100000 1 = Some (ret, s')"
      and b: "bus_ok sensor0 \<longrightarrow> ret = 0 \<and> reg24 (regs s') SHR0_LOW = unat v mod 2 ^ 24"
      and c: "index sensor0 \<noteq> IMX662_DOL_INDEX \<and>
       1 \<le> min_integration_line sensor0 \<and>
       min_integration_line sensor0 \<le> max_integration_line sensor0 \<and>
       max_integration_line sensor0 \<le> curr_frm_len_lines sensor0 \<and>
       unat (curr_frm_len_lines sensor0)
         \<le> unat (max_integration_line sensor0) + unat (imx662_min_shr0 (index sensor0)) \<and>
       unat (min_integration_line sensor0) + unat (imx662_min_shr0 (index sensor0))
         \<le> unat (curr_frm_len_lines sensor0) \<longrightarrow>
         (7500 < min_integration_line sensor0 \<longrightarrow>
            v = curr_frm_len_lines sensor0 - min_integration_line sensor0) \<and>
         (min_integration_line sensor0 \<le> 7500 \<and>
          7500 \<le> curr_frm_len_lines sensor0 - imx662_min_shr0 (index sensor0) \<longrightarrow>
            v = curr_frm_len_lines sensor0 - 7500) \<and>
         (7500 > curr_frm_len_lines sensor0 - imx662_min_shr0 (index sensor0) \<longrightarrow>
            v = imx662_min_shr0 (index sensor0))"
      and d: "index sensor0 = IMX662_DOL_INDEX \<and>
       1 \<le> min_integration_line sensor0 \<and>
       min_integration_line sensor0 \<le> max_integration_line sensor0 \<and>
       unat (max_integration_line sensor0) + 4 \<le> 2 * unat (curr_frm_len_lines sensor0) \<and>
       2 * unat (curr_frm_len_lines sensor0) < 2 ^ 32 \<longrightarrow>
         (let L = max (unat (min_integration_line sensor0))
                    (min (unat (7500 :: u32)) (unat (max_integration_line sensor0)))
          in unat v = 2 * unat (curr_frm_len_lines sensor0) - L - L mod 2)"
      by blast
    from c d have "unat v = 4"
      by (simp add: sensor0_def dol0_def clear0_def imx662_set_sensor_mode_def imx662_min_shr0_def imx662_exp_lines_def)
    with a b show ?thesis
      by (simp add: sensor0_def dol0_def clear0_def imx662_set_sensor_mode_def imx662_min_shr0_def imx662_exp_lines_def)
  qed
  have i4: "\<exists>ret s'. imx662_set_exp clear0 33253 1 = Some (ret, s') \<and> ret = 0 \<and>
      reg24 (regs s') SHR0_LOW = 8"
  proof -
    have l: "imx662_exp_lines 33253 1 (one_line_exp_time_ns clear0) = Some 2494"
      by (simp add: sensor0_def dol0_def clear0_def imx662_set_sensor_mode_def imx662_min_shr0_def imx662_exp_lines_def)
    from set_exp_clamps_shutter [OF l] obtain ret s' v where
      a: "imx662_set_exp clear0 33253 1 = Some (ret, s')"
      and b: "bus_ok clear0 \<longrightarrow> ret = 0 \<and> reg24 (regs s') SHR0_LOW = unat v mod 2 ^ 24"
      and c: "index clear0 \<noteq> IMX662_DOL_INDEX \<and>
       1 \<le> min_integration_line clear0 \<and>
       min_integration_line clear0 \<le> max_integration_line clear0 \<and>
       max_integration_line clear0 \<le> curr_frm_len_lines clear0 \<and>
       unat (curr_frm_len_lines clear0)
         \<le> unat (max_integration_line clear0) + unat (imx662_min_shr0 (index clear0)) \<and>
       unat (min_integration_line clear0) + unat (imx662_min_shr0 (index clear0))
         \<le> unat (curr_frm_len_lines clear0) \<longrightarrow>
         (2494 < min_integration_line clear0 \<longrightarrow>
            v = curr_frm_len_lines clear0 - min_integration_line clear0) \<and>
         (min_integration_line clear0 \<le> 2494 \<and>
          2494 \<le> curr_frm_len_lines clear0 - imx662_min_shr0 (index clear0) \<longrightarrow>
            v = curr_frm_len_lines clear0 - 2494) \<and>
         (2494 > curr_frm_len_lines clear0 - imx662_min_shr0 (index clear0) \<longrightarrow>
            v = imx662_min_shr0 (index clear0))"
      and d: "index clear0 = IMX662_DOL_INDEX \<and>
       1 \<le> min_integration_line clear0 \<and>
       min_integration_line clear0 \<le> max_integration_line clear0 \<and>
       unat (max_integration_line clear0) + 4 \<le> 2 * unat (curr_frm_len_lines clear0) \<and>
       2 * unat (curr_frm_len_lines clear0) < 2 ^ 32 \<longrightarrow>
         (let L = max (unat (min_integration_line clear0))
                    (min (unat (2494 :: u32)) (unat (max_integration_line clear0)))
          in unat v = 2 * unat (curr_frm_len_lines clear0) - L - L mod 2)"
      by blast
    from c d have "unat v = 8"
      by (simp add: sensor0_def dol0_def clear0_def imx662_set_sensor_mode_def imx662_min_shr0_def imx662_exp_lines_def)
    with a b show ?thesis
      by (simp add: sensor0_def dol0_def clear0_def imx662_set_sensor_mode_def imx662_min_shr0_def imx662_exp_lines_def)
  qed
  have i5: "\<exists>ret s'. imx662_set_exp dol0 0 1 = Some (ret, s') \<and> ret = 0 \<and>
      reg24 (regs s') SHR0_LOW = 2498"
  proof -
    have l: "imx662_exp_lines 0 1 (one_line_exp_time_ns dol0) = Some 0"
      by (simp add: sensor0_def dol0_def clear0_def imx662_set_sensor_mode_def imx662_min_shr0_def imx662_exp_lines_def)
    from set_exp_clamps_shutter [OF l] obtain ret s' v where
      a: "imx662_set_exp dol0 0 1 = Some (ret, s')"
      and b: "bus_ok dol0 \<longrightarrow> ret = 0 \<and> reg24 (regs s') SHR0_LOW = unat v mod 2 ^ 24"
      and c: "index dol0 \<noteq> IMX662_DOL_INDEX \<and>
       1 \<le> min_integration_line dol0 \<and>
       min_integration_line dol0 \<le> max_integration_line dol0 \<and>
       max_integration_line dol0 \<le> curr_frm_len_lines dol0 \<and>
       unat (curr_frm_len_lines dol0)
         \<le> unat (max_integration_line dol0) + unat (imx662_min_shr0 (index dol0)) \<and>
       unat (min_integration_line dol0) + unat (imx662_min_shr0 (index dol0))
         \<le> unat (curr_frm_len_lines dol0) \<longrightarrow>
         (0 < min_integration_line dol0 \<longrightarrow>
            v = curr_frm_len_lines dol0 - min_integration_line dol0) \<and>
         (min_integration_line dol0 \<le> 0 \<and>
          0 \<le> curr_frm_len_lines dol0 - imx662_min_shr0 (index dol0) \<longrightarrow>
            v = curr_frm_len_lines dol0 - 0) \<and>
         (0 > curr_frm_len_lines dol0 - imx662_min_shr0 (index dol0) \<longrightarrow>
            v = imx662_min_shr0 (index dol0))"
      and d: "index dol0 = IMX662_DOL_INDEX \<and>
       1 \<le> min_integration_line dol0 \<and>
       min_integration_line dol0 \<le> max_integration_line dol0 \<and>
       unat (max_integration_line dol0) + 4 \<le> 2 * unat (curr_frm_len_lines dol0) \<and>
       2 * unat (curr_frm_len_lines dol0) < 2 ^ 32 \<longrightarrow>
         (let L = max (unat (min_integration_line dol0))
                    (min (unat (0 :: u32)) (unat (max_integration_line dol0)))
          in unat v = 2 * unat (curr_frm_len_lines dol0) - L - L mod 2)"
      by blast
    from c d have "unat v = 2498"
      by (simp add: sensor0_def dol0_def clear0_def imx662_set_sensor_mode_def imx662_min_shr0_def imx662_exp_lines_def)
    with a b show ?thesis
      by (simp add: sensor0_def dol0_def clear0_def imx662_set_sensor_mode_def imx662_min_shr0_def imx662_exp_lines_def)
  qed
  show ?thesis
    using i1 i2 i3 i4 i5
    by (simp add: sensor0_def dol0_def clear0_def imx662_set_sensor_mode_def
        imx662_min_shr0_def imx662_exp_lines_def)
qed

text \<open>
  C1 (as the spec states it) fails in the DOL mode, where the shutter register is
  \<open>2 * frame_length - lines\<close> made even: with the mode table's limits, a request of 0
  lines (below the minimum 1) programs 2498, not \<open>frame_length - 1 = 1249\<close>, and a
  request of 7500 lines (above the maximum 2434) programs 66, not the minimum shutter
  length 4.
\<close>

theorem set_exp_dol_counterexample:
  "imx662_exp_lines 0 1 (one_line_exp_time_ns dol0) = Some 0 \<and>
   0 < min_integration_line dol0 \<and>
   imx662_exp_shr0 dol0 0 = 2498 \<and>
   curr_frm_len_lines dol0 - min_integration_line dol0 = 1249 \<and>
   map_option (wlog \<circ> snd) (imx662_set_exp dol0 0 1) = Some (shr0_writes 2498) \<and>
   shr0_writes 2498 \<noteq> shr0_writes 1249 \<and>
   imx662_exp_lines 100000 1 (one_line_exp_time_ns dol0) = Some 7500 \<and>
   max_integration_line dol0 < 7500 \<and>
   imx662_exp_shr0 dol0 7500 = 66 \<and>
   imx662_min_shr0 (index dol0) = 4"
  by (simp add: dol0_def sensor0_def imx662_set_sensor_mode_def imx662_min_shr0_def
      imx662_exp_lines_def imx662_exp_shr0_def imx662_set_exp_def shr0_writes_def
      imx662_write_reg_def)

section \<open>Properties of the sub-exposure placement (imx662\_mipi.c)\<close>

lemma get_exp_register_unat:
  assumes "bus_ok s"
  shows "\<exists>S. imx662_get_exp_register s = (0, S) \<and> unat S = reg24 (regs s) SHR0_LOW"
proof -
  define h where "h = regs s SHR0_HIGH"
  define m where "m = regs s SHR0_MID"
  define l where "l = regs s SHR0_LOW"
  define S :: u32 where "S = push_bit 8 (push_bit 8 (ucast h) + ucast m) + ucast l"
  define n where "n = unat l + 256 * unat m + 65536 * unat h"
  have g: "imx662_get_exp_register s = (0, S)"
    using assms
    by (simp add: imx662_get_exp_register_def imx662_read_reg_def S_def h_def m_def l_def)
  have "S = 65536 * ucast h + 256 * ucast m + ucast l"
    unfolding S_def by (simp add: push_bit_eq_mult)
  then have "S = of_nat n"
    unfolding n_def by (simp add: unat_ucast_up_u8 [symmetric])
  moreover have "n < 2 ^ 32"
    unfolding n_def using unat_u8_less [of l] unat_u8_less [of m] unat_u8_less [of h]
    by simp
  then have "unat (of_nat n :: u32) = n"
    by (simp only: unat_of_nat) (simp add: take_bit_eq_mod)
  ultimately have "unat S = n" by simp
  then have "unat S = reg24 (regs s) SHR0_LOW"
    unfolding n_def reg24_def l_def m_def h_def by simp
  with g show ?thesis by blast
qed

lemma reg24_less: "reg24 f a < 16777216"
  unfolding reg24_def
  using unat_u8_less [of "f a"] unat_u8_less [of "f (a + 1)"] unat_u8_less [of "f (a + 2)"]
  by simp

lemma vs_lines_unat:
  "unat (imx662_vs_lines s lines) =
     min (max (unat lines) (unat (min_vsintegration_line s)))
       (unat (max_vsintegration_line s))"
  by (auto simp: imx662_vs_lines_def Let_def word_less_nat_alt)

lemma vs_rhs1_max_unat:
  assumes "10 \<le> unat S"
  shows "unat (imx662_vs_rhs1_max S) =
     (if 2240 \<le> unat S \<and> unat S \<le> 2243 then 2239 else unat S - 5)"
proof -
  have d: "unat (S - 5) = unat S - 5"
    using assms by (simp add: unat_sub_if_size word_size)
  define r where "r = max 2239 (S - 5)"
  have ur: "unat r = max 2239 (unat S - 5)"
    unfolding r_def d [symmetric] by (simp add: max_def word_le_nat_alt)
  define n where "n = unat S"
  have n: "10 \<le> n" using assms unfolding n_def .
  have c: "(S \<le> r) = (n \<le> max 2239 (n - 5))"
    unfolding word_le_nat_alt ur n_def ..
  have "unat (if S \<le> r then S - 5 else r) = (if S \<le> r then unat (S - 5) else unat r)"
    by simp
  also have "\<dots> = (if n \<le> max 2239 (n - 5) then n - 5 else max 2239 (n - 5))"
    unfolding c d ur n_def ..
  also have "\<dots> = (if 2240 \<le> n \<and> n \<le> 2243 then 2239 else n - 5)"
    using n by (auto simp: max_def)
  finally have "unat (if S \<le> r then S - 5 else r) =
      (if 2240 \<le> unat S \<and> unat S \<le> 2243 then 2239 else unat S - 5)"
    unfolding n_def .
  moreover have "imx662_vs_rhs1_max S = (if S \<le> r then S - 5 else r)"
    by (simp add: imx662_vs_rhs1_max_def Let_def r_def)
  ultimately show ?thesis by (simp only:)
qed

lemma vs_rhs1_unat:
  assumes "10 \<le> unat S" "unat T \<le> 2230"
  shows "unat (imx662_vs_rhs1 S T) =
     (let C = (if 2240 \<le> unat S \<and> unat S \<le> 2243 then 2239 else unat S - 5)
      in if unat T + 5 < C then (if even (unat T) then unat T + 5 else unat T + 4) else C)"
proof -
  define r where "r = imx662_vs_rhs1_max S"
  define C where "C = (if 2240 \<le> unat S \<and> unat S \<le> 2243 then 2239 else unat S - 5)"
  have ur: "unat r = C"
    unfolding r_def C_def by (rule vs_rhs1_max_unat [OF assms(1)])
  have C5: "5 \<le> C" unfolding C_def using assms(1) by (simp split: if_splits; arith)
  have d: "unat (r - 5) = C - 5"
    using C5 ur by (simp add: unat_sub_if_size word_size)
  have c: "(r - 5 > T) = (unat T + 5 < C)"
    unfolding word_less_nat_alt d using C5 by auto
  define r' where "r' = T + 5"
  have ur': "unat r' = unat T + 5"
    unfolding r'_def using assms(2) by (simp add: unat_add_lem [THEN iffD1])
  have "unat (r' mod 2) = unat r' mod 2" by (simp add: unat_mod)
  then have "(r' mod 2 = 0) = (unat r' mod 2 = 0)"
    by (simp add: unat_eq_zero [symmetric])
  then have p: "(r' mod 2 \<noteq> 0) = even (unat T)"
    unfolding ur' by presburger
  have m1: "unat (r' - 1) = unat T + 4"
    using ur' by (simp add: unat_sub_if_size word_size)
  have "unat (if r' mod 2 \<noteq> 0 then r' else r' - 1) =
      (if even (unat T) then unat T + 5 else unat T + 4)"
    unfolding p using ur' m1 by simp
  then show ?thesis
    unfolding imx662_vs_rhs1_def Let_def r_def [symmetric] c C_def [symmetric]
      r'_def [symmetric] using ur by simp
qed


lemma rhs1_write6:
  assumes "bus_ok s"
  shows "imx662_write_seq s
           [(REGHOLD, 1), (SHR1_LOW, a), (RHS1_LOW, l), (RHS1_MID, m), (RHS1_HIGH, h),
            (REGHOLD, 0)]
         = (0, s\<lparr>regs := (regs s)(REGHOLD := 0, SHR1_LOW := a, RHS1_LOW := l, RHS1_MID := m,
                    RHS1_HIGH := h),
                  wlog := wlog s @
                    [(REGHOLD, 1), (SHR1_LOW, a), (RHS1_LOW, l), (RHS1_MID, m),
                     (RHS1_HIGH, h), (REGHOLD, 0)]\<rparr>)"
  using assms by (simp add: imx662_write_reg_def fun_upd_twist)

text \<open>
  C4 (as the code has it). On a working bus, with the main shutter value \<open>S \<ge> 10\<close>
  read back from \<^verbatim>\<open>SHR0\<close> and the mode's sub-exposure limit at most 2230 lines
  (it is 66), \<^verbatim>\<open>imx662_set_vs_exp\<close> returns 0 after programming the sub-shutter
  \<^verbatim>\<open>SHR1\<close> with 5 and the readout-timing offset \<^verbatim>\<open>RHS1\<close> with \<open>R\<close>,
  where, with \<open>T\<close> the sub-exposure integration target clamped to the mode's range and
  \<open>C\<close> the datasheet candidate (\<open>S - 5\<close>, or \<open>2 * IMX662_BRL - 1 = 2239\<close> for
  \<open>S\<close> in \<open>2240..2243\<close>): \<open>R\<close> is \<open>T + 5\<close> forced odd when that is below the
  candidate, and the candidate otherwise. In every case \<open>R \<le> S - 5\<close> and the
  integration \<open>R - 5\<close> that \<open>R\<close> allows does not exceed the target.
\<close>

theorem set_vs_exp_rhs1:
  assumes "bus_ok s"
    and "imx662_exp_lines exp (if which_control = 0 then 0 else 1)
           (one_line_exp_time_ns s) = Some lines"
    and "max_vsintegration_line s \<le> 2230"
    and "10 \<le> reg24 (regs s) SHR0_LOW"
  shows "\<exists>s' (R :: u32). imx662_set_vs_exp s exp which_control = Some (0, s') \<and>
      wlog s' = wlog s @
        [(REGHOLD, 1), (SHR1_LOW, 5), (RHS1_LOW, ucast (R AND 0xff)),
         (RHS1_MID, ucast (drop_bit 8 R AND 0xff)),
         (RHS1_HIGH, ucast (drop_bit 16 R AND 0xff)), (REGHOLD, 0)] \<and>
      regs s' SHR1_LOW = 5 \<and> reg24 (regs s') RHS1_LOW = unat R \<and>
      (let S = reg24 (regs s) SHR0_LOW;
           T = min (max (unat lines) (unat (min_vsintegration_line s)))
                 (unat (max_vsintegration_line s));
           C = (if 2240 \<le> S \<and> S \<le> 2243 then 2239 else S - 5)
       in unat R = (if T + 5 < C then (if even T then T + 5 else T + 4) else C) \<and>
          unat R + 5 \<le> S \<and> unat R \<le> T + 5)"
proof -
  from get_exp_register_unat [OF assms(1)] obtain Sw where
    g: "imx662_get_exp_register s = (0, Sw)" and Sw: "unat Sw = reg24 (regs s) SHR0_LOW"
    by blast
  define S where "S = reg24 (regs s) SHR0_LOW"
  define Tw where "Tw = imx662_vs_lines s lines"
  define T where "T = min (max (unat lines) (unat (min_vsintegration_line s)))
                 (unat (max_vsintegration_line s))"
  define C where "C = (if 2240 \<le> S \<and> S \<le> 2243 then 2239 else S - 5)"
  define R where "R = imx662_vs_rhs1 Sw Tw"
  define h :: u8 where "h = ucast (drop_bit 16 R AND 0xff)"
  define m :: u8 where "m = ucast (drop_bit 8 R AND 0xff)"
  define l :: u8 where "l = ucast (R AND 0xff)"
  define s' where "s' = s\<lparr>regs := (regs s)(REGHOLD := 0, SHR1_LOW := 5, RHS1_LOW := l,
        RHS1_MID := m, RHS1_HIGH := h),
      wlog := wlog s @ [(REGHOLD, 1), (SHR1_LOW, 5), (RHS1_LOW, l), (RHS1_MID, m),
        (RHS1_HIGH, h), (REGHOLD, 0)]\<rparr>"
  have S10: "10 \<le> S" using assms(4) unfolding S_def .
  have S24: "S < 16777216" unfolding S_def by (rule reg24_less)
  have uT: "unat Tw = T" unfolding Tw_def T_def by (rule vs_lines_unat)
  have "unat (max_vsintegration_line s) \<le> 2230"
    using assms(3) by (simp add: word_le_nat_alt)
  then have T2230: "T \<le> 2230" unfolding T_def by simp
  have uR: "unat R = (if T + 5 < C then (if even T then T + 5 else T + 4) else C)"
    unfolding R_def C_def
    using vs_rhs1_unat [of Sw Tw] S10 T2230 unfolding Sw uT S_def [symmetric] Let_def
    by simp
  have b1: "unat R + 5 \<le> S"
    unfolding uR C_def using S10 T2230 by (auto split: if_splits)
  have b2: "unat R \<le> T + 5"
    unfolding uR by (auto split: if_splits)
  have ws: "rhs1_writes R = [(REGHOLD, 1), (SHR1_LOW, 5), (RHS1_LOW, l), (RHS1_MID, m),
        (RHS1_HIGH, h), (REGHOLD, 0)]"
    by (simp add: rhs1_writes_def h_def m_def l_def)
  have wr: "imx662_write_seq s (rhs1_writes R) = (0, s')"
    unfolding ws s'_def by (rule rhs1_write6 [OF assms(1)])
  have e: "imx662_set_vs_exp s exp which_control = Some (0, s')"
    using assms(2) g wr [unfolded R_def Tw_def]
    by (simp add: imx662_set_vs_exp_def)
  have ul: "unat l = unat R mod 256"
    unfolding l_def by (rule unat_byte0)
  have um: "unat m = unat R div 256 mod 256"
    unfolding m_def using unat_byte [of 8 R] by simp
  have uh: "unat h = unat R div 65536 mod 256"
    unfolding h_def using unat_byte [of 16 R] by simp
  have "reg24 (regs s') RHS1_LOW = unat l + 256 * unat m + 65536 * unat h"
    unfolding s'_def reg24_def by simp
  also have "\<dots> = unat R mod 256 + 256 * (unat R div 256 mod 256)
      + 65536 * (unat R div 65536 mod 256)"
    unfolding ul um uh ..
  also have "\<dots> = unat R"
    using b1 S24 by (intro nat_bytes24) simp
  finally have rg: "reg24 (regs s') RHS1_LOW = unat R" .
  have w: "wlog s' = wlog s @
        [(REGHOLD, 1), (SHR1_LOW, 5), (RHS1_LOW, ucast (R AND 0xff)),
         (RHS1_MID, ucast (drop_bit 8 R AND 0xff)),
         (RHS1_HIGH, ucast (drop_bit 16 R AND 0xff)), (REGHOLD, 0)]"
    unfolding s'_def h_def m_def l_def by simp
  have a: "regs s' SHR1_LOW = 5" unfolding s'_def by simp
  have body: "imx662_set_vs_exp s exp which_control = Some (0, s') \<and>
      wlog s' = wlog s @
        [(REGHOLD, 1), (SHR1_LOW, 5), (RHS1_LOW, ucast (R AND 0xff)),
         (RHS1_MID, ucast (drop_bit 8 R AND 0xff)),
         (RHS1_HIGH, ucast (drop_bit 16 R AND 0xff)), (REGHOLD, 0)] \<and>
      regs s' SHR1_LOW = 5 \<and> reg24 (regs s') RHS1_LOW = unat R \<and>
      unat R = (if T + 5 < C then (if even T then T + 5 else T + 4) else C) \<and>
      unat R + 5 \<le> S \<and> unat R \<le> T + 5"
    by (intro conjI e w a rg uR b1 b2)
  show ?thesis
    unfolding Let_def S_def [symmetric] T_def [symmetric] C_def [symmetric]
    by (rule exI [of _ s'], rule exI [of _ R]) (rule body)
qed


theorem set_vs_exp_rhs1_witness:
  "bus_ok dol1 \<and> bus_ok dol2 \<and>
   imx662_exp_lines 100 (if (1 :: u32) = 0 then 0 else 1) (one_line_exp_time_ns dol1)
     = Some 7 \<and>
   imx662_exp_lines 107 (if (1 :: u32) = 0 then 0 else 1) (one_line_exp_time_ns dol1)
     = Some 8 \<and>
   imx662_exp_lines 1000 (if (1 :: u32) = 0 then 0 else 1) (one_line_exp_time_ns dol2)
     = Some 75 \<and>
   max_vsintegration_line dol1 \<le> 2230 \<and> max_vsintegration_line dol2 \<le> 2230 \<and>
   reg24 (regs dol1) SHR0_LOW = 2400 \<and> reg24 (regs dol2) SHR0_LOW = 66 \<and>
   (\<exists>s'. imx662_set_vs_exp dol1 100 1 = Some (0, s') \<and>
      regs s' SHR1_LOW = 5 \<and> reg24 (regs s') RHS1_LOW = 11) \<and>
   (\<exists>s'. imx662_set_vs_exp dol1 107 1 = Some (0, s') \<and>
      regs s' SHR1_LOW = 5 \<and> reg24 (regs s') RHS1_LOW = 13) \<and>
   (\<exists>s'. imx662_set_vs_exp dol2 1000 1 = Some (0, s') \<and>
      regs s' SHR1_LOW = 5 \<and> reg24 (regs s') RHS1_LOW = 61)"
proof -
  have i1: "\<exists>s'. imx662_set_vs_exp dol1 100 1 = Some (0, s') \<and>
      regs s' SHR1_LOW = 5 \<and> reg24 (regs s') RHS1_LOW = 11"
  proof -
    have b: "bus_ok dol1"
      by (simp add: dol1_def dol2_def dol0_def sensor0_def imx662_set_sensor_mode_def imx662_exp_lines_def imx662_set_exp_def imx662_exp_shr0_def imx662_min_shr0_def shr0_writes_def imx662_write_reg_def reg24_def)
    have l: "imx662_exp_lines 100 (if (1 :: u32) = 0 then 0 else 1)
        (one_line_exp_time_ns dol1) = Some 7"
      by (simp add: dol1_def dol2_def dol0_def sensor0_def imx662_set_sensor_mode_def imx662_exp_lines_def imx662_set_exp_def imx662_exp_shr0_def imx662_min_shr0_def shr0_writes_def imx662_write_reg_def reg24_def)
    have m: "max_vsintegration_line dol1 \<le> 2230"
      by (simp add: dol1_def dol2_def dol0_def sensor0_def imx662_set_sensor_mode_def imx662_exp_lines_def imx662_set_exp_def imx662_exp_shr0_def imx662_min_shr0_def shr0_writes_def imx662_write_reg_def reg24_def)
    have S: "reg24 (regs dol1) SHR0_LOW = 2400"
      by (simp add: dol1_def dol2_def dol0_def sensor0_def imx662_set_sensor_mode_def imx662_exp_lines_def imx662_set_exp_def imx662_exp_shr0_def imx662_min_shr0_def shr0_writes_def imx662_write_reg_def reg24_def)
    then have S10: "10 \<le> reg24 (regs dol1) SHR0_LOW" by simp
    from set_vs_exp_rhs1 [OF b l m S10] obtain s' and R :: u32 where
      a: "imx662_set_vs_exp dol1 100 1 = Some (0, s')"
      and c: "regs s' SHR1_LOW = 5" "reg24 (regs s') RHS1_LOW = unat R"
      and d: "let S = reg24 (regs dol1) SHR0_LOW;
           T = min (max (unat (7 :: u32)) (unat (min_vsintegration_line dol1)))
                 (unat (max_vsintegration_line dol1));
           C = (if 2240 \<le> S \<and> S \<le> 2243 then 2239 else S - 5)
       in unat R = (if T + 5 < C then (if even T then T + 5 else T + 4) else C) \<and>
          unat R + 5 \<le> S \<and> unat R \<le> T + 5"
      by blast
    from d have "unat R = 11"
      unfolding S Let_def
      by (simp add: dol1_def dol2_def dol0_def sensor0_def imx662_set_sensor_mode_def
          imx662_exp_lines_def imx662_set_exp_def imx662_exp_shr0_def imx662_min_shr0_def
          shr0_writes_def imx662_write_reg_def)
    with a c show ?thesis by simp
  qed
  have i2: "\<exists>s'. imx662_set_vs_exp dol1 107 1 = Some (0, s') \<and>
      regs s' SHR1_LOW = 5 \<and> reg24 (regs s') RHS1_LOW = 13"
  proof -
    have b: "bus_ok dol1"
      by (simp add: dol1_def dol2_def dol0_def sensor0_def imx662_set_sensor_mode_def imx662_exp_lines_def imx662_set_exp_def imx662_exp_shr0_def imx662_min_shr0_def shr0_writes_def imx662_write_reg_def reg24_def)
    have l: "imx662_exp_lines 107 (if (1 :: u32) = 0 then 0 else 1)
        (one_line_exp_time_ns dol1) = Some 8"
      by (simp add: dol1_def dol2_def dol0_def sensor0_def imx662_set_sensor_mode_def imx662_exp_lines_def imx662_set_exp_def imx662_exp_shr0_def imx662_min_shr0_def shr0_writes_def imx662_write_reg_def reg24_def)
    have m: "max_vsintegration_line dol1 \<le> 2230"
      by (simp add: dol1_def dol2_def dol0_def sensor0_def imx662_set_sensor_mode_def imx662_exp_lines_def imx662_set_exp_def imx662_exp_shr0_def imx662_min_shr0_def shr0_writes_def imx662_write_reg_def reg24_def)
    have S: "reg24 (regs dol1) SHR0_LOW = 2400"
      by (simp add: dol1_def dol2_def dol0_def sensor0_def imx662_set_sensor_mode_def imx662_exp_lines_def imx662_set_exp_def imx662_exp_shr0_def imx662_min_shr0_def shr0_writes_def imx662_write_reg_def reg24_def)
    then have S10: "10 \<le> reg24 (regs dol1) SHR0_LOW" by simp
    from set_vs_exp_rhs1 [OF b l m S10] obtain s' and R :: u32 where
      a: "imx662_set_vs_exp dol1 107 1 = Some (0, s')"
      and c: "regs s' SHR1_LOW = 5" "reg24 (regs s') RHS1_LOW = unat R"
      and d: "let S = reg24 (regs dol1) SHR0_LOW;
           T = min (max (unat (8 :: u32)) (unat (min_vsintegration_line dol1)))
                 (unat (max_vsintegration_line dol1));
           C = (if 2240 \<le> S \<and> S \<le> 2243 then 2239 else S - 5)
       in unat R = (if T + 5 < C then (if even T then T + 5 else T + 4) else C) \<and>
          unat R + 5 \<le> S \<and> unat R \<le> T + 5"
      by blast
    from d have "unat R = 13"
      unfolding S Let_def
      by (simp add: dol1_def dol2_def dol0_def sensor0_def imx662_set_sensor_mode_def
          imx662_exp_lines_def imx662_set_exp_def imx662_exp_shr0_def imx662_min_shr0_def
          shr0_writes_def imx662_write_reg_def)
    with a c show ?thesis by simp
  qed
  have i3: "\<exists>s'. imx662_set_vs_exp dol2 1000 1 = Some (0, s') \<and>
      regs s' SHR1_LOW = 5 \<and> reg24 (regs s') RHS1_LOW = 61"
  proof -
    have b: "bus_ok dol2"
      by (simp add: dol1_def dol2_def dol0_def sensor0_def imx662_set_sensor_mode_def imx662_exp_lines_def imx662_set_exp_def imx662_exp_shr0_def imx662_min_shr0_def shr0_writes_def imx662_write_reg_def reg24_def)
    have l: "imx662_exp_lines 1000 (if (1 :: u32) = 0 then 0 else 1)
        (one_line_exp_time_ns dol2) = Some 75"
      by (simp add: dol1_def dol2_def dol0_def sensor0_def imx662_set_sensor_mode_def imx662_exp_lines_def imx662_set_exp_def imx662_exp_shr0_def imx662_min_shr0_def shr0_writes_def imx662_write_reg_def reg24_def)
    have m: "max_vsintegration_line dol2 \<le> 2230"
      by (simp add: dol1_def dol2_def dol0_def sensor0_def imx662_set_sensor_mode_def imx662_exp_lines_def imx662_set_exp_def imx662_exp_shr0_def imx662_min_shr0_def shr0_writes_def imx662_write_reg_def reg24_def)
    have S: "reg24 (regs dol2) SHR0_LOW = 66"
      by (simp add: dol1_def dol2_def dol0_def sensor0_def imx662_set_sensor_mode_def imx662_exp_lines_def imx662_set_exp_def imx662_exp_shr0_def imx662_min_shr0_def shr0_writes_def imx662_write_reg_def reg24_def)
    then have S10: "10 \<le> reg24 (regs dol2) SHR0_LOW" by simp
    from set_vs_exp_rhs1 [OF b l m S10] obtain s' and R :: u32 where
      a: "imx662_set_vs_exp dol2 1000 1 = Some (0, s')"
      and c: "regs s' SHR1_LOW = 5" "reg24 (regs s') RHS1_LOW = unat R"
      and d: "let S = reg24 (regs dol2) SHR0_LOW;
           T = min (max (unat (75 :: u32)) (unat (min_vsintegration_line dol2)))
                 (unat (max_vsintegration_line dol2));
           C = (if 2240 \<le> S \<and> S \<le> 2243 then 2239 else S - 5)
       in unat R = (if T + 5 < C then (if even T then T + 5 else T + 4) else C) \<and>
          unat R + 5 \<le> S \<and> unat R \<le> T + 5"
      by blast
    from d have "unat R = 61"
      unfolding S Let_def
      by (simp add: dol1_def dol2_def dol0_def sensor0_def imx662_set_sensor_mode_def
          imx662_exp_lines_def imx662_set_exp_def imx662_exp_shr0_def imx662_min_shr0_def
          shr0_writes_def imx662_write_reg_def)
    with a c show ?thesis by simp
  qed
  show ?thesis
    using i1 i2 i3
    by (simp add: dol1_def dol2_def dol0_def sensor0_def imx662_set_sensor_mode_def imx662_exp_lines_def imx662_set_exp_def imx662_exp_shr0_def imx662_min_shr0_def shr0_writes_def imx662_write_reg_def reg24_def)
qed

text \<open>
  C4 (as the spec states it) fails: \<open>2 * IMX662_BRL - 1 = 2239\<close> is not a lower bound of
  the written offset. With the main shutter at 2400 and a sub-exposure request of 100
  microseconds (7 lines), \<^verbatim>\<open>RHS1\<close> is programmed with 11.
\<close>

theorem set_vs_exp_rhs1_counterexample:
  "snd (imx662_get_exp_register dol1) = 2400 \<and>
   map_option (wlog \<circ> snd) (imx662_set_vs_exp dol1 100 1)
     = Some (wlog dol1 @ rhs1_writes 11) \<and>
   \<not> (2 * IMX662_BRL - 1 \<le> (11 :: u32))"
  by (simp add: dol1_def dol0_def sensor0_def imx662_set_sensor_mode_def
      imx662_exp_lines_def imx662_set_exp_def imx662_exp_shr0_def imx662_min_shr0_def
      shr0_writes_def imx662_write_reg_def imx662_get_exp_register_def imx662_read_reg_def
      imx662_set_vs_exp_def imx662_vs_lines_def imx662_vs_rhs1_def imx662_vs_rhs1_max_def
      rhs1_writes_def)

section \<open>Properties of the control handlers (fr\_imx662.c, imx662.c)\<close>

lemma fr_exposure_max_value:
  assumes "0 \<le> val (vblank s)" "val (vblank s) < 2 ^ 31"
    and "5 \<le> uint (height (mode s))" "uint (height (mode s)) < 2 ^ 31"
  shows "fr_exposure_max s = val (vblank s) + uint (height (mode s)) - 4"
proof -
  define V :: u32 where "V = of_int (val (vblank s))"
  define H where "H = height (mode s)"
  have uV: "uint V = val (vblank s)"
    unfolding V_def using assms(1,2) by (simp add: uint_word_of_int take_bit_eq_mod)
  have bV: "uint V < 2 ^ 31" "0 \<le> uint V" using uV assms(1,2) by simp_all
  have bH: "uint H < 2 ^ 31" "5 \<le> uint H"
    using assms(3,4) unfolding H_def [symmetric] by simp_all
  have a: "uint (V + H) = uint V + uint H"
    using bV bH uint_add_lem [of V H] by simp
  have "4 \<le> uint V + uint H"
    using bH(2) uint_ge_0 [of V] by linarith
  then have "uint (4 :: u32) \<le> uint (V + H)"
    unfolding a by simp
  then have "uint (V + H - 4) = uint (V + H) - uint (4 :: u32)"
    using uint_sub_lem [where x = "V + H" and y = 4] by simp
  then have "uint (V + H - 4) = uint V + uint H - 4"
    unfolding a by simp
  then show ?thesis
    unfolding fr_exposure_max_def V_def [symmetric] H_def [symmetric] uV by simp
qed


lemma modify_range_valid:
  assumes "mn \<le> mx" "mn \<le> df" "df \<le> mx"
  shows "v4l2_ctrl_modify_range c put h s mn mx 1 df =
     (let v = (if val c < mn then mn else if val c > mx then mx else val c);
          s1 = put (c\<lparr>minimum := mn, maximum := mx, step := 1, default_value := df,
                      val := v\<rparr>) s
      in if v \<noteq> val c then h s1 else Some (0, s1))"
  using assms by (simp add: v4l2_ctrl_modify_range_def)

lemma fr_write_reg_frame:
  "fr_imx662_write_reg s reg len v = (r, s') \<Longrightarrow>
   exposure s' = exposure s \<and> vblank s' = vblank s \<and> framerate s' = framerate s \<and>
   frame_length s' = frame_length s \<and> mode s' = mode s \<and>
   rpm_in_use s' = rpm_in_use s \<and> bus_ok s' = bus_ok s"
  by (auto simp: fr_imx662_write_reg_def split: if_splits)

lemma fr_write_hold_reg_frame:
  assumes "fr_imx662_write_hold_reg s reg len v = (r, s')"
  shows "exposure s' = exposure s \<and> vblank s' = vblank s \<and> framerate s' = framerate s \<and>
   frame_length s' = frame_length s \<and> mode s' = mode s \<and>
   rpm_in_use s' = rpm_in_use s \<and> bus_ok s' = bus_ok s"
proof -
  obtain r1 s1 where w1: "fr_imx662_write_reg s REGHOLD 1 0x01 = (r1, s1)"
    by (cases "fr_imx662_write_reg s REGHOLD 1 0x01")
  obtain r2 s2 where w2: "fr_imx662_write_reg s1 reg len v = (r2, s2)"
    by (cases "fr_imx662_write_reg s1 reg len v")
  obtain r3 s3 where w3: "fr_imx662_write_reg s2 REGHOLD 1 0x00 = (r3, s3)"
    by (cases "fr_imx662_write_reg s2 REGHOLD 1 0x00")
  have "s' = s1 \<or> s' = s3"
    using assms w1 w2 w3
    by (auto simp: fr_imx662_write_hold_reg_def split: if_splits)
  then show ?thesis
    using fr_write_reg_frame [OF w1] fr_write_reg_frame [OF w2] fr_write_reg_frame [OF w3]
    by auto
qed


lemma fr_vblank_height_sum:
  assumes "0 \<le> val (vblank s)" "val (vblank s) < 2 ^ 31"
    and "uint (height (mode s)) < 2 ^ 31"
  shows "uint ((of_int (val (vblank s)) :: u32) + height (mode s))
           = val (vblank s) + uint (height (mode s))"
proof -
  define V :: u32 where "V = of_int (val (vblank s))"
  define H where "H = height (mode s)"
  have uV: "uint V = val (vblank s)"
    unfolding V_def using assms(1,2) by (simp add: uint_word_of_int take_bit_eq_mod)
  have "uint V + uint H < 2 ^ 32"
    using uV assms(2,3) unfolding H_def by simp
  then have "uint (V + H) = uint V + uint H"
    using uint_add_lem [of V H] by simp
  then show ?thesis
    unfolding V_def [symmetric] H_def [symmetric] uV .
qed

lemma fr_set_exposure_value:
  assumes "bus_ok s"
    and "0 \<le> val (vblank s)" "val (vblank s) < 2 ^ 31"
    and "uint (height (mode s)) < 2 ^ 31"
    and "0 \<le> v" "v \<le> val (vblank s) + uint (height (mode s))"
  shows "\<exists>s'. fr_imx662_set_exposure s (of_int v) = (0, s') \<and>
      (\<exists>b0 b1 b2. wlog s' = wlog s @ [(REGHOLD, 1), (SHR0_LOW, b0), (SHR0_MID, b1),
         (SHR0_HIGH, b2), (REGHOLD, 0)]) \<and>
      reg24 (regs s') SHR0_LOW = nat (val (vblank s) + uint (height (mode s)) - v) mod 2 ^ 24"
proof -
  define A where "A = val (vblank s) + uint (height (mode s))"
  define X :: u32 where "X = (of_int (val (vblank s)) :: u32) + height (mode s)"
  define shr :: u64 where "shr = ucast X - of_int v"
  define w :: u32 where "w = ucast shr"
  have uX: "uint X = A"
    unfolding X_def A_def by (rule fr_vblank_height_sum [OF assms(2,3,4)])
  have A32: "A < 2 ^ 32" "0 \<le> A"
    unfolding A_def using assms(2,3,4) by simp_all
  have vA: "v \<le> A" using assms(6) unfolding A_def .
  have uc: "uint (ucast X :: u64) = A"
    using uX A32 by (simp only: unsigned_ucast_eq) (simp add: take_bit_eq_mod)
  have uv: "uint (of_int v :: u64) = v"
    using assms(5) vA A32 by (simp add: uint_word_of_int take_bit_eq_mod)
  have "uint (of_int v :: u64) \<le> uint (ucast X :: u64)"
    unfolding uc uv by (rule vA)
  then have us: "uint shr = A - v"
    unfolding shr_def using uint_sub_lem [where x = "ucast X :: u64" and y = "of_int v"]
    unfolding uc uv by simp
  have "uint w = (A - v) mod 2 ^ 32"
    unfolding w_def us [symmetric]
    by (simp only: unsigned_ucast_eq) (simp add: take_bit_eq_mod)
  also have "\<dots> = A - v" using vA A32 assms(5) by simp
  finally have uw: "unat w = nat (A - v)" by (simp add: unat_eq_nat_uint)
  define s' where "s' = s\<lparr>regs := (regs s)(REGHOLD := 1, SHR0_LOW := ucast w,
                 SHR0_LOW + 1 := ucast (drop_bit 8 w), SHR0_LOW + 2 := ucast (drop_bit 16 w),
                 REGHOLD := 0),
            wlog := wlog s @ [(REGHOLD, 1), (SHR0_LOW, ucast w),
                 (SHR0_LOW + 1, ucast (drop_bit 8 w)), (SHR0_LOW + 2, ucast (drop_bit 16 w)),
                 (REGHOLD, 0)]\<rparr>"
  have e: "fr_imx662_set_exposure s (of_int v) = (0, s')"
    unfolding fr_imx662_set_exposure_def Let_def X_def [symmetric] shr_def [symmetric]
      w_def [symmetric] s'_def
    by (rule fr_write_hold_reg_3 [OF assms(1)])
  have lg: "\<exists>b0 b1 b2. wlog s' = wlog s @ [(REGHOLD, 1), (SHR0_LOW, b0), (SHR0_MID, b1),
         (SHR0_HIGH, b2), (REGHOLD, 0)]"
    unfolding s'_def by simp
  have u0: "unat (ucast w :: u8) = unat w mod 256" by (rule unat_ucast_u8)
  have u1: "unat (ucast (drop_bit 8 w) :: u8) = unat w div 256 mod 256"
    using unat_ucast_drop_u8 [of 8 w] by simp
  have u2: "unat (ucast (drop_bit 16 w) :: u8) = unat w div 65536 mod 256"
    using unat_ucast_drop_u8 [of 16 w] by simp
  have "reg24 (regs s') SHR0_LOW = unat (ucast w :: u8)
      + 256 * unat (ucast (drop_bit 8 w) :: u8) + 65536 * unat (ucast (drop_bit 16 w) :: u8)"
    unfolding s'_def reg24_def by simp
  also have "\<dots> = unat w mod 16777216"
    unfolding u0 u1 u2 by (rule nat_bytes24_mod)
  finally have rg: "reg24 (regs s') SHR0_LOW = nat (A - v) mod 2 ^ 24"
    unfolding uw by simp
  show ?thesis
    using e lg rg unfolding A_def by blast
qed


lemma fr_set_ctrl_regs_frame:
  assumes "fr_imx662_set_ctrl_regs s V4L2_CID_EXPOSURE = (r, s')"
  shows "exposure s' = exposure s \<and> vblank s' = vblank s \<and> framerate s' = framerate s \<and>
   frame_length s' = frame_length s \<and> mode s' = mode s \<and>
   rpm_in_use s' = rpm_in_use s \<and> bus_ok s' = bus_ok s"
proof (cases "rpm_in_use s = 0")
  case True
  then show ?thesis using assms by (simp add: fr_imx662_set_ctrl_regs_def)
next
  case False
  then have "fr_imx662_write_hold_reg s SHR0_LOW 3
      (ucast (ucast ((of_int (val (vblank s)) :: u32) + height (mode s))
         - (of_int (val (exposure s)) :: u64))) = (r, s')"
    using assms by (simp add: fr_imx662_set_ctrl_regs_def fr_imx662_set_exposure_def)
  then show ?thesis by (rule fr_write_hold_reg_frame)
qed

lemma fr_adjust_exposure_range_eq:
  assumes "1 \<le> fr_exposure_max s"
  shows "fr_imx662_adjust_exposure_range s =
     (let v = (if val (exposure s) < 1 then 1
               else if val (exposure s) > fr_exposure_max s then fr_exposure_max s
               else val (exposure s));
          s1 = s\<lparr>exposure := (exposure s)\<lparr>minimum := 1, maximum := fr_exposure_max s,
                  step := 1, default_value := fr_exposure_max s, val := v\<rparr>\<rparr>
      in if v \<noteq> val (exposure s) then snd (fr_imx662_set_ctrl_regs s1 V4L2_CID_EXPOSURE)
         else s1)"
  unfolding fr_imx662_adjust_exposure_range_def
  by (simp add: modify_range_valid [OF assms assms order_refl] Let_def split: prod.splits)

lemma fr_vblank_range:
  assumes "0 \<le> val (vblank s)" "val (vblank s) < 2 ^ 31"
    and "5 \<le> uint (height (mode s))" "uint (height (mode s)) < 2 ^ 31"
  shows "\<exists>s'. fr_imx662_set_ctrl s V4L2_CID_VBLANK = Some (0, s') \<and>
      minimum (exposure s') = 1 \<and>
      maximum (exposure s') = val (vblank s) + uint (height (mode s)) - 4 \<and>
      minimum (exposure s') \<le> val (exposure s') \<and>
      val (exposure s') \<le> maximum (exposure s') \<and>
      val (exposure s') =
        (if val (exposure s) < 1 then 1
         else if val (exposure s) > maximum (exposure s') then maximum (exposure s')
         else val (exposure s)) \<and>
      vblank s' = vblank s \<and>
      (val (exposure s') = val (exposure s) \<or> rpm_in_use s = 0 \<longrightarrow>
         regs s' = regs s \<and> wlog s' = wlog s) \<and>
      (val (exposure s') \<noteq> val (exposure s) \<and> rpm_in_use s \<noteq> 0 \<and> bus_ok s \<longrightarrow>
         (\<exists>b0 b1 b2. wlog s' = wlog s @ [(REGHOLD, 1), (SHR0_LOW, b0), (SHR0_MID, b1),
            (SHR0_HIGH, b2), (REGHOLD, 0)]) \<and>
         reg24 (regs s') SHR0_LOW =
           nat (val (vblank s) + uint (height (mode s)) - val (exposure s')) mod 2 ^ 24)"
proof -
  define m where "m = fr_exposure_max s"
  have m: "m = val (vblank s) + uint (height (mode s)) - 4"
    unfolding m_def by (rule fr_exposure_max_value [OF assms])
  then have m1: "1 \<le> m" using assms(1,3) by simp
  define v where "v = (if val (exposure s) < 1 then 1 else if val (exposure s) > m then m
      else val (exposure s))"
  define s1 where "s1 = s\<lparr>exposure := (exposure s)\<lparr>minimum := 1, maximum := m,
      step := 1, default_value := m, val := v\<rparr>\<rparr>"
  define s' where "s' = fr_imx662_adjust_exposure_range s"
  have v: "1 \<le> v" "v \<le> m" unfolding v_def using m1 by auto
  have adj: "s' = (if v \<noteq> val (exposure s)
      then snd (fr_imx662_set_ctrl_regs s1 V4L2_CID_EXPOSURE) else s1)"
    unfolding s'_def s1_def v_def m_def
    using fr_adjust_exposure_range_eq [of s] m1 [unfolded m_def]
    by (simp add: Let_def)
  have fr: "exposure s' = exposure s1 \<and> vblank s' = vblank s1 \<and>
      rpm_in_use s' = rpm_in_use s1"
  proof (cases "v \<noteq> val (exposure s)")
    case True
    obtain r s2 where x: "fr_imx662_set_ctrl_regs s1 V4L2_CID_EXPOSURE = (r, s2)"
      by (cases "fr_imx662_set_ctrl_regs s1 V4L2_CID_EXPOSURE")
    from fr_set_ctrl_regs_frame [OF x] show ?thesis
      unfolding adj using True x by simp
  next
    case False
    then show ?thesis unfolding adj by simp
  qed
  have e: "exposure s' = (exposure s)\<lparr>minimum := 1, maximum := m,
      step := 1, default_value := m, val := v\<rparr>"
    and vb: "vblank s' = vblank s" and iu: "rpm_in_use s' = rpm_in_use s"
    using fr unfolding s1_def by simp_all
  have r: "fr_imx662_set_ctrl s V4L2_CID_VBLANK = Some (0, s')"
    unfolding fr_imx662_set_ctrl_def s'_def [symmetric]
    by (simp add: fr_imx662_set_ctrl_regs_def)
  have same: "regs s' = regs s \<and> wlog s' = wlog s"
    if "v = val (exposure s) \<or> rpm_in_use s = 0"
    using that unfolding adj s1_def by (auto simp: fr_imx662_set_ctrl_regs_def)
  have wr: "(\<exists>b0 b1 b2. wlog s' = wlog s @ [(REGHOLD, 1), (SHR0_LOW, b0), (SHR0_MID, b1),
            (SHR0_HIGH, b2), (REGHOLD, 0)]) \<and>
         reg24 (regs s') SHR0_LOW =
           nat (val (vblank s) + uint (height (mode s)) - v) mod 2 ^ 24"
    if "v \<noteq> val (exposure s)" "rpm_in_use s \<noteq> 0" "bus_ok s"
  proof -
    have b: "bus_ok s1" "0 \<le> val (vblank s1)" "val (vblank s1) < 2 ^ 31"
      "uint (height (mode s1)) < 2 ^ 31" "0 \<le> v"
      "v \<le> val (vblank s1) + uint (height (mode s1))"
      using that(3) assms v m unfolding s1_def by simp_all
    from fr_set_exposure_value [OF b] obtain s2 where
      x: "fr_imx662_set_exposure s1 (of_int v) = (0, s2)"
      and y: "\<exists>b0 b1 b2. wlog s2 = wlog s1 @ [(REGHOLD, 1), (SHR0_LOW, b0), (SHR0_MID, b1),
         (SHR0_HIGH, b2), (REGHOLD, 0)]"
        "reg24 (regs s2) SHR0_LOW
           = nat (val (vblank s1) + uint (height (mode s1)) - v) mod 2 ^ 24"
      by blast
    have "s' = s2"
      unfolding adj using that(1,2) x
      by (simp add: fr_imx662_set_ctrl_regs_def s1_def)
    then show ?thesis using y unfolding s1_def by simp
  qed
  have ve: "val (exposure s') = v" unfolding e by simp
  have cl: "val (exposure s') =
        (if val (exposure s) < 1 then 1
         else if val (exposure s) > maximum (exposure s') then maximum (exposure s')
         else val (exposure s))"
    unfolding e v_def by simp
  have mm: "minimum (exposure s') = 1" "maximum (exposure s') = m"
    unfolding e by simp_all
  show ?thesis
    apply (rule exI [of _ s'])
    unfolding ve
    using r mm m v vb same wr cl [unfolded ve] by auto
qed

lemma calc_exposure_value:
  assumes "unat hmx \<noteq> 0" "unat hmx < 65536" "unat shr \<le> unat vmx" "unat vmx < 1048576"
  shows "\<exists>e. calculate_v4l2_cid_exposure hmx vmx shr 0 209 = Some e \<and>
      unat e = unat vmx - unat shr + 209 div unat hmx"
proof -
  define hm where "hm = unat hmx"
  define VM where "VM = unat vmx"
  define sh where "sh = unat shr"
  note a = assms [folded hm_def VM_def sh_def]
  define h32w :: u32 where "h32w = ucast hmx"
  have h32: "unat h32w = hm"
    unfolding h32w_def hm_def using a(2) [unfolded hm_def]
    by (intro unat_ucast_small) simp
  then have nz: "h32w \<noteq> 0"
    using a(1) by (auto simp: unat_eq_zero [symmetric])
  have "unat (ucast h32w :: u64) = unat h32w"
    by (intro unat_ucast_small) (use h32 a(2) in simp)
  then have hh: "(ucast h32w :: u64) = hmx"
    unfolding h32 hm_def by (simp add: word_unat_eq_iff)
  define d where "d = vmx * (0 + 1) - shr"
  have ud: "unat d = VM - sh"
    unfolding d_def VM_def sh_def using assms(3)
    by (simp add: unat_sub word_le_nat_alt)
  have b1: "(VM - sh) * hm < 1048576 * 65536"
    using a(2,4) by (intro mult_strict_mono') simp_all
  have um: "unat (d * hmx) = (VM - sh) * hm"
  proof -
    have "unat d * unat hmx < 2 ^ 64"
      unfolding ud hm_def [symmetric] using b1 by simp
    then show ?thesis
      using unat_mult_lem [of d hmx] unfolding ud hm_def [symmetric] by simp
  qed
  define n where "n = d * hmx + 209"
  have un: "unat n = (VM - sh) * hm + 209"
  proof -
    have "unat (d * hmx) + unat (209 :: u64) < 2 ^ 64"
      unfolding um using b1 by simp
    then show ?thesis
      unfolding n_def using unat_add_lem [of "d * hmx" 209] unfolding um by simp
  qed
  define q where "q = n div hmx"
  have uq: "unat q = VM - sh + 209 div hm"
    unfolding q_def unat_div un hm_def [symmetric]
    using a(1) by (simp only: div_add_offset)
  have "209 div hm \<le> 209" by simp
  moreover have "VM - sh \<le> VM" by simp
  ultimately have "VM - sh + 209 div hm < 1048576 + 210"
    using a(4) by linarith
  then have q32: "unat q < 2 ^ 32"
    unfolding uq by simp
  define q32w :: u32 where "q32w = ucast q"
  have x: "unat q32w = unat q"
    unfolding q32w_def using q32 by (intro unat_ucast_small) simp
  have "unat (ucast q32w :: u64) = unat q32w"
    by (intro unat_ucast_small) (use x q32 in simp)
  then have ue: "unat (ucast q32w :: u64) = unat q"
    unfolding x .
  have "calculate_v4l2_cid_exposure hmx vmx shr 0 209 = Some (ucast q32w)"
    unfolding calculate_v4l2_cid_exposure_def do_div_def h32w_def [symmetric] hh
      q32w_def q_def n_def d_def
    using nz by simp
  then show ?thesis
    using ue uq unfolding VM_def sh_def hm_def by simp
qed


lemma calc_min_max_value:
  assumes "unat hmx \<noteq> 0" "unat hmx < 65536" "4 \<le> unat vmx" "unat vmx < 1048576"
    and "unat k \<le> unat vmx"
  shows "\<exists>mn mx. calculate_min_max_v4l2_cid_exposure hmx vmx k 0 209 = Some (mn, mx) \<and>
      unat mn = unat vmx - min (unat vmx - 4) 65535 + 209 div unat hmx \<and>
      unat mx = unat vmx - unat k + 209 div unat hmx"
proof -
  define ms where "ms = min ((0 + 1) * vmx - 4) (0xFFFF :: u64)"
  have u4: "unat (vmx - 4) = unat vmx - 4"
    using assms(3) by (simp add: unat_sub word_le_nat_alt)
  have ums: "unat ms = min (unat vmx - 4) 65535"
    unfolding ms_def using u4 by (simp add: min_def word_le_nat_alt)
  then have le: "unat ms \<le> unat vmx" by simp
  from calc_exposure_value [OF assms(1,2) le assms(4)] obtain mn where
    mn: "calculate_v4l2_cid_exposure hmx vmx ms 0 209 = Some mn"
      "unat mn = unat vmx - unat ms + 209 div unat hmx"
    by blast
  from calc_exposure_value [OF assms(1,2) assms(5) assms(4)] obtain mx where
    mx: "calculate_v4l2_cid_exposure hmx vmx k 0 209 = Some mx"
      "unat mx = unat vmx - unat k + 209 div unat hmx"
    by blast
  have "calculate_min_max_v4l2_cid_exposure hmx vmx k 0 209 = Some (mn, mx)"
    unfolding calculate_min_max_v4l2_cid_exposure_def Let_def ms_def [symmetric]
    using mn(1) mx(1) by simp
  then show ?thesis using mn(2) mx(2) unfolding ums by blast
qed

lemma clamp_t_u32_in_range:
  assumes "uint lo \<le> uint hi" "uint hi < 2 ^ 32"
  shows "uint lo \<le> uint (clamp_t_u32 v lo hi) \<and> uint (clamp_t_u32 v lo hi) \<le> uint hi"
proof -
  have hi: "uint (ucast hi :: u32) = uint hi"
    using assms(2) by (simp only: unsigned_ucast_eq) (simp add: take_bit_eq_mod)
  have "uint lo < 2 ^ 32" using assms by linarith
  then have lo: "uint (ucast lo :: u32) = uint lo"
    by (simp only: unsigned_ucast_eq) (simp add: take_bit_eq_mod)
  have le: "(ucast lo :: u32) \<le> ucast hi"
    using assms(1) unfolding word_le_def hi lo .
  have "(ucast lo :: u32) \<le> clamp_t_u32 v lo hi" "clamp_t_u32 v lo hi \<le> (ucast hi :: u32)"
    unfolding clamp_t_u32_def using le by (auto simp: min_def max_def)
  then show ?thesis
    unfolding word_le_def hi lo by simp
qed


lemma modify_range_valid_at:
  assumes "mn \<le> mx" "mn \<le> df" "df \<le> mx"
    and "v = (if val c < mn then mn else if val c > mx then mx else val c)"
    and "c' = c\<lparr>minimum := mn, maximum := mx, step := 1, default_value := df, val := v\<rparr>"
  shows "v4l2_ctrl_modify_range c put h s mn mx 1 df =
     (if v \<noteq> val c then h (put c' s) else Some (0, put c' s))"
  unfolding modify_range_valid [OF assms(1,2,3)] Let_def assms(4) [symmetric]
    assms(5) [symmetric] ..

lemma rpi_write_bytes_frame:
  "rpi_write_bytes s bytes = (r, s') \<Longrightarrow>
   rpi_exposure s' = rpi_exposure s \<and> VMAX s' = VMAX s \<and> HMAX s' = HMAX s \<and>
   rpi_cur_mode s' = rpi_cur_mode s \<and> rpi_in_use s' = rpi_in_use s"
  by (auto simp: rpi_write_bytes_def split: if_splits)

lemma rpi_exposure_handler:
  assumes "HMAX s \<noteq> 0"
  shows "\<exists>ret s'. rpi_imx662_set_ctrl_regs s V4L2_CID_EXPOSURE x = Some (ret, s') \<and>
      rpi_exposure s' = rpi_exposure s \<and> VMAX s' = VMAX s \<and> HMAX s' = HMAX s \<and>
      rpi_cur_mode s' = rpi_cur_mode s \<and> rpi_in_use s' = rpi_in_use s"
proof (cases "rpi_in_use s = 0")
  case True
  then show ?thesis by (simp add: rpi_imx662_set_ctrl_regs_def)
next
  case False
  define h32 :: u32 where "h32 = ucast (HMAX s)"
  have "unat h32 = unat (HMAX s)"
    unfolding h32_def using unsigned_less [of "HMAX s", where 'a = nat]
    by (intro unat_ucast_small) simp
  then have u: "unat h32 \<noteq> 0" "unat h32 < 65536"
    using assms unsigned_less [of "HMAX s", where 'a = nat]
    by (simp_all add: unat_eq_zero)
  have "unat (ucast h32 :: u64) = unat h32"
    by (intro unat_ucast_small) (use u in simp)
  then have "unat (ucast (ucast h32 :: u64) :: u32) = unat h32"
    using u by (subst unat_ucast_small) simp_all
  then have nz: "(ucast (ucast h32 :: u64) :: u32) \<noteq> 0"
    using u(1) by (auto simp: unat_eq_zero [symmetric])
  then obtain shr where c: "calculate_shr (of_int x) h32 (ucast (VMAX s)) 0 209 = Some shr"
    by (simp add: calculate_shr_def do_div_def)
  obtain ret s' where w: "rpi_write_bytes s
      [(IMX662_REG_SHR, ucast (ucast shr :: u16)),
       (IMX662_REG_SHR + 1, ucast (drop_bit 8 (ucast shr :: u16)))] = (ret, s')"
    by (cases "rpi_write_bytes s
      [(IMX662_REG_SHR, ucast (ucast shr :: u16)),
       (IMX662_REG_SHR + 1, ucast (drop_bit 8 (ucast shr :: u16)))]")
  have "rpi_imx662_set_ctrl_regs s V4L2_CID_EXPOSURE x = Some (ret, s')"
    using False c w
    by (simp add: rpi_imx662_set_ctrl_regs_def rpi_imx662_write_reg_2byte_def
        h32_def [symmetric])
  then show ?thesis
    using rpi_write_bytes_frame [OF w] by blast
qed


lemma rpi_vblank_range:
  assumes "HMAX r \<noteq> 0"
    and "0 \<le> v"
    and "unat (min_SHR (rpi_cur_mode r)) + 4 \<le> unat (rpi_height (rpi_cur_mode r)) + nat v"
    and "unat (rpi_height (rpi_cur_mode r)) + nat v \<le> 0xFFFFF"
    and "unat (min_SHR (rpi_cur_mode r)) \<le> 0xFFFF"
  shows "\<exists>ret r'. rpi_imx662_set_ctrl r V4L2_CID_VBLANK v junk = Some (ret, r') \<and>
      unat (VMAX r') = unat (rpi_height (rpi_cur_mode r)) + nat v \<and>
      (let VM = unat (rpi_height (rpi_cur_mode r)) + nat v;
           off = 209 div unat (HMAX r)
       in minimum (rpi_exposure r') = int (VM - min (VM - 4) 65535 + off) \<and>
          maximum (rpi_exposure r') = int (VM - unat (min_SHR (rpi_cur_mode r)) + off)) \<and>
      minimum (rpi_exposure r') \<le> val (rpi_exposure r') \<and>
      val (rpi_exposure r') \<le> maximum (rpi_exposure r') \<and>
      val (rpi_exposure r') =
        (if val (rpi_exposure r) < minimum (rpi_exposure r') then minimum (rpi_exposure r')
         else if val (rpi_exposure r) > maximum (rpi_exposure r')
              then maximum (rpi_exposure r')
         else val (rpi_exposure r))"
proof -
  define H where "H = unat (rpi_height (rpi_cur_mode r))"
  define k where "k = unat (min_SHR (rpi_cur_mode r))"
  define VM where "VM = H + nat v"
  define hm where "hm = unat (HMAX r)"
  define off where "off = 209 div hm"
  note a = assms [folded H_def k_def, folded VM_def]
  have VM20: "VM < 1048576" "4 \<le> VM" "k \<le> VM" using a(3,4) by simp_all
  have hm: "hm \<noteq> 0" "hm < 65536"
    unfolding hm_def using assms(1) unsigned_less [of "HMAX r", where 'a = nat]
    by (simp_all add: unat_eq_zero)
  define v64 :: u64 where "v64 = ucast (rpi_height (rpi_cur_mode r)) + of_int v"
  have uh: "unat (ucast (rpi_height (rpi_cur_mode r)) :: u64) = H"
    unfolding H_def using unsigned_less [of "rpi_height (rpi_cur_mode r)", where 'a = nat]
    by (intro unat_ucast_small) simp
  have nv: "nat v < 1048576" using VM20(1) unfolding VM_def by simp
  have "uint (of_int v :: u64) = v"
    using assms(2) nv by (simp add: uint_word_of_int take_bit_eq_mod)
  then have uv: "unat (of_int v :: u64) = nat v" by (simp add: unat_eq_nat_uint)
  have u64: "unat v64 = VM"
  proof -
    have "unat (ucast (rpi_height (rpi_cur_mode r)) :: u64) + unat (of_int v :: u64) < 2 ^ 64"
      unfolding uh uv using VM20(1) unfolding VM_def by simp
    then show ?thesis
      unfolding v64_def
      using unat_add_lem [of "ucast (rpi_height (rpi_cur_mode r)) :: u64" "of_int v"]
      unfolding uh uv VM_def by simp
  qed
  define V' :: u32 where "V' = ucast v64"
  have uV': "unat V' = VM"
    unfolding V'_def u64 [symmetric] using u64 VM20(1) by (intro unat_ucast_small) simp
  define s1 where "s1 = r\<lparr>VMAX := V'\<rparr>"
  define hmx :: u64 where "hmx = ucast (HMAX r)"
  define vmx :: u64 where "vmx = ucast V'"
  have uhmx: "unat hmx = hm"
    unfolding hmx_def hm_def using unsigned_less [of "HMAX r", where 'a = nat]
    by (intro unat_ucast_small) simp
  have uvmx: "unat vmx = VM"
    unfolding vmx_def uV' [symmetric] using uV' VM20(1) by (intro unat_ucast_small) simp
  have uk: "unat (min_SHR (rpi_cur_mode r)) \<le> unat vmx"
    unfolding uvmx k_def [symmetric] by (rule VM20(3))
  from calc_min_max_value [of hmx vmx "min_SHR (rpi_cur_mode r)"] hm VM20 uk
  obtain mn mx where
    mm: "calculate_min_max_v4l2_cid_exposure hmx vmx (min_SHR (rpi_cur_mode r)) 0 209
           = Some (mn, mx)"
    and umn: "unat mn = VM - min (VM - 4) 65535 + off"
    and umx: "unat mx = VM - k + off"
    unfolding uhmx uvmx k_def [symmetric] off_def by blast
  have off: "off \<le> 209" unfolding off_def by simp
  have kk: "k \<le> VM - 4" "k \<le> 65535" using a(3,5) by simp_all
  have le_nat: "unat mn \<le> unat mx"
    unfolding umn umx using kk VM20 by simp
  have "unat mx \<le> VM + off" unfolding umx by simp
  then have mx32n: "unat mx < 4294967296" using VM20(1) off by simp
  have le: "uint mn \<le> uint mx"
    using le_nat unfolding word_le_def [symmetric] word_le_nat_alt .
  have "int (unat mx) < 4294967296" using mx32n by linarith
  then have mx32: "uint mx < 2 ^ 32"
    unfolding uint_nat [of mx] by simp
  define cur where "cur = clamp_t_u32 junk mn mx"
  have c: "uint mn \<le> uint cur" "uint cur \<le> uint mx"
    unfolding cur_def using clamp_t_u32_in_range [OF le mx32] by simp_all
  define x where "x = (if val (rpi_exposure r) < uint mn then uint mn
      else if val (rpi_exposure r) > uint mx then uint mx else val (rpi_exposure r))"
  define c' where "c' = (rpi_exposure r)\<lparr>minimum := uint mn, maximum := uint mx, step := 1,
      default_value := uint cur, val := x\<rparr>"
  define s2 where "s2 = s1\<lparr>rpi_exposure := c'\<rparr>"
  have x: "uint mn \<le> x" "x \<le> uint mx" unfolding x_def using le by auto
  have "HMAX s2 \<noteq> 0" unfolding s2_def s1_def using assms(1) by simp
  from rpi_exposure_handler [OF this, of x] obtain ret3 s3 where
    h: "rpi_imx662_set_ctrl_regs s2 V4L2_CID_EXPOSURE x = Some (ret3, s3)"
    and f3: "rpi_exposure s3 = rpi_exposure s2" "VMAX s3 = VMAX s2"
      "rpi_cur_mode s3 = rpi_cur_mode s2" "rpi_in_use s3 = rpi_in_use s2"
    by blast
  define sL where "sL = (if x \<noteq> val (rpi_exposure r) then s3 else s2)"
  have fL: "rpi_exposure sL = c'" "rpi_cur_mode sL = rpi_cur_mode r"
      "rpi_in_use sL = rpi_in_use r" "VMAX sL = V'"
    unfolding sL_def using f3 unfolding s2_def s1_def by simp_all
  have vx: "val (rpi_exposure s2) = x" unfolding s2_def c'_def by simp
  have "v4l2_ctrl_modify_range (rpi_exposure r) (\<lambda>c s. s\<lparr>rpi_exposure := c\<rparr>)
      (\<lambda>s. rpi_imx662_set_ctrl_regs s V4L2_CID_EXPOSURE (val (rpi_exposure s)))
      s1 (uint mn) (uint mx) 1 (uint cur)
      = (if x \<noteq> val (rpi_exposure r)
         then rpi_imx662_set_ctrl_regs s2 V4L2_CID_EXPOSURE (val (rpi_exposure s2))
         else Some (0, s2))"
    unfolding modify_range_valid_at [OF le c x_def c'_def] s2_def ..
  then have mr: "v4l2_ctrl_modify_range (rpi_exposure r) (\<lambda>c s. s\<lparr>rpi_exposure := c\<rparr>)
      (\<lambda>s. rpi_imx662_set_ctrl_regs s V4L2_CID_EXPOSURE (val (rpi_exposure s)))
      s1 (uint mn) (uint mx) 1 (uint cur)
      = Some (if x \<noteq> val (rpi_exposure r) then (ret3, s3) else (0, s2))"
    unfolding vx h by simp
  have f1: "HMAX s1 = HMAX r" "VMAX s1 = V'" "rpi_cur_mode s1 = rpi_cur_mode r"
      "rpi_exposure s1 = rpi_exposure r"
    unfolding s1_def by simp_all
  have lim: "rpi_vblank_limits r v junk = Some sL"
    unfolding rpi_vblank_limits_def Let_def v64_def [symmetric] V'_def [symmetric]
      s1_def [symmetric] f1 mm [unfolded hmx_def vmx_def]
    by (simp add: cur_def [symmetric] mr sL_def)
  have "\<exists>ret r'. rpi_imx662_set_ctrl_regs sL V4L2_CID_VBLANK v = Some (ret, r') \<and>
      rpi_exposure r' = rpi_exposure sL \<and> VMAX r' = V'"
  proof (cases "rpi_in_use sL = 0")
    case True
    then show ?thesis using fL(4) by (simp add: rpi_imx662_set_ctrl_regs_def)
  next
    case False
    define s4 where "s4 = sL\<lparr>VMAX := ucast ((ucast (rpi_height (rpi_cur_mode sL)) :: u64)
        + of_int v)\<rparr>"
    obtain ret r' where w: "rpi_write_bytes s4
        [(IMX662_REG_VMAX, ucast (VMAX s4)), (IMX662_REG_VMAX + 1, ucast (drop_bit 8 (VMAX s4))),
         (IMX662_REG_VMAX + 2, ucast (drop_bit 16 (VMAX s4)))] = (ret, r')"
      by (cases "rpi_write_bytes s4
        [(IMX662_REG_VMAX, ucast (VMAX s4)), (IMX662_REG_VMAX + 1, ucast (drop_bit 8 (VMAX s4))),
         (IMX662_REG_VMAX + 2, ucast (drop_bit 16 (VMAX s4)))]")
    have "rpi_imx662_set_ctrl_regs sL V4L2_CID_VBLANK v = Some (ret, r')"
      using False w
      by (simp add: rpi_imx662_set_ctrl_regs_def rpi_imx662_write_reg_3byte_def Let_def
          s4_def [symmetric])
    moreover have "rpi_exposure r' = rpi_exposure sL"
      using rpi_write_bytes_frame [OF w] unfolding s4_def by simp
    moreover have "VMAX s4 = V'"
      unfolding s4_def fL(2) V'_def v64_def by simp
    then have "VMAX r' = V'"
      using rpi_write_bytes_frame [OF w] by simp
    ultimately show ?thesis by blast
  qed
  then obtain ret r' where
    fin: "rpi_imx662_set_ctrl r V4L2_CID_VBLANK v junk = Some (ret, r')"
    and e: "rpi_exposure r' = c'" and vm: "VMAX r' = V'"
    unfolding fL(1) [symmetric] by (auto simp: rpi_imx662_set_ctrl_def lim)
  have r0: "unat (VMAX r') = VM" unfolding vm by (rule uV')
  have "minimum (rpi_exposure r') = uint mn" unfolding e c'_def by simp
  also have "\<dots> = int (unat mn)" by (rule uint_nat)
  finally have r1: "minimum (rpi_exposure r') = int (VM - min (VM - 4) 65535 + off)"
    unfolding umn .
  have "maximum (rpi_exposure r') = uint mx" unfolding e c'_def by simp
  also have "\<dots> = int (unat mx)" by (rule uint_nat)
  finally have r2: "maximum (rpi_exposure r') = int (VM - k + off)"
    unfolding umx .
  have r3: "minimum (rpi_exposure r') \<le> val (rpi_exposure r')"
    "val (rpi_exposure r') \<le> maximum (rpi_exposure r')"
    unfolding e c'_def using x by simp_all
  have r4: "val (rpi_exposure r') =
        (if val (rpi_exposure r) < minimum (rpi_exposure r') then minimum (rpi_exposure r')
         else if val (rpi_exposure r) > maximum (rpi_exposure r')
              then maximum (rpi_exposure r')
         else val (rpi_exposure r))"
    unfolding e c'_def x_def by simp
  show ?thesis
    unfolding Let_def H_def [symmetric] k_def [symmetric] VM_def [symmetric]
      hm_def [symmetric] off_def [symmetric]
    by (rule exI [of _ ret], rule exI [of _ r']) (intro conjI fin r0 r1 r2 r3 r4)
qed


lemma rpi_modes_vblank_range:
  assumes "m \<in> set (supported_modes_12bit @ supported_modes_nonlinear_12bit
                     @ supported_modes_16bit)"
    and "uint (min_VMAX m) - uint (rpi_height m) \<le> v"
    and "v \<le> 0xFFFFF - uint (rpi_height m)"
  shows "0 \<le> v \<and> unat (min_SHR m) + 4 \<le> unat (rpi_height m) + nat v \<and>
     unat (rpi_height m) + nat v \<le> 0xFFFFF \<and> unat (min_SHR m) \<le> 0xFFFF"
proof -
  define h where "h = uint (rpi_height m)"
  define mv where "mv = uint (min_VMAX m)"
  have t: "unat (min_SHR m) = 20 \<and> h \<le> mv \<and> 1250 \<le> mv"
    unfolding h_def mv_def using assms(1)
    by (auto simp: supported_modes_12bit_def supported_modes_nonlinear_12bit_def
        supported_modes_16bit_def)
  have h0: "0 \<le> h" unfolding h_def by simp
  have uh: "unat (rpi_height m) = nat h" unfolding h_def by (rule unat_eq_nat_uint)
  note a = assms(2,3) [folded h_def mv_def]
  have v0: "0 \<le> v" using a(1) t by linarith
  have s: "int (nat h + nat v) = h + v" using h0 v0 by simp
  have "24 \<le> h + v" using a(1) t by linarith
  then have "int 24 \<le> int (nat h + nat v)" unfolding s by simp
  then have c2: "24 \<le> nat h + nat v" by (simp only: of_nat_le_iff)
  have "h + v \<le> 1048575" using a(2) by linarith
  then have "int (nat h + nat v) \<le> int 1048575" unfolding s by simp
  then have c3: "nat h + nat v \<le> 1048575" by (simp only: of_nat_le_iff)
  show ?thesis
    using v0 c2 c3 t unfolding uh by simp
qed

lemma fr_set_ctrl_exposure_handler:
  "fr_imx662_set_ctrl s V4L2_CID_EXPOSURE = Some (fr_imx662_set_ctrl_regs s V4L2_CID_EXPOSURE)"
  by (simp add: fr_imx662_set_ctrl_def)

lemma fr_set_ctrl_vblank_handler:
  "fr_imx662_set_ctrl s V4L2_CID_VBLANK = Some (fr_imx662_set_ctrl_vblank s)"
  by (simp add: fr_imx662_set_ctrl_def fr_imx662_set_ctrl_vblank_def)

lemma rpi_set_ctrl_exposure_handler:
  "rpi_imx662_set_ctrl s V4L2_CID_EXPOSURE v junk
     = rpi_imx662_set_ctrl_regs s V4L2_CID_EXPOSURE v"
  by (simp add: rpi_imx662_set_ctrl_def)

lemma modify_range_cases:
  "v4l2_ctrl_modify_range c put h s mn mx st df = Some (- ERANGE, s) \<or>
   (\<exists>c'. v4l2_ctrl_modify_range c put h s mn mx st df = Some (0, put c' s)) \<or>
   (\<exists>c'. v4l2_ctrl_modify_range c put h s mn mx st df = h (put c' s))"
  by (simp add: v4l2_ctrl_modify_range_def Let_def) blast

lemma s_ctrl_cases:
  "v4l2_ctrl_s_ctrl c put h s v = Some (0, s) \<or>
   (\<exists>c'. v4l2_ctrl_s_ctrl c put h s v = h (put c' s))"
  by (simp add: v4l2_ctrl_s_ctrl_def) blast

lemma fr_adjust_exposure_range_frame:
  "frame_length (fr_imx662_adjust_exposure_range s) = frame_length s \<and>
   mode (fr_imx662_adjust_exposure_range s) = mode s"
proof -
  define h where "h = (\<lambda>s. Some (fr_imx662_set_ctrl_regs s V4L2_CID_EXPOSURE))"
  define put where "put = (\<lambda>c (s :: fr_imx662). s\<lparr>exposure := c\<rparr>)"
  define res where "res = v4l2_ctrl_modify_range (exposure s) put h s
      (uint IMX662_MIN_INTEGRATION_LINES) (fr_exposure_max s) 1 (fr_exposure_max s)"
  have p: "frame_length (put c s) = frame_length s \<and> mode (put c s) = mode s" for c
    unfolding put_def by simp
  have hh: "\<exists>r s'. h x = Some (r, s') \<and> frame_length s' = frame_length x \<and> mode s' = mode x"
    for x
  proof -
    obtain r s' where e: "fr_imx662_set_ctrl_regs x V4L2_CID_EXPOSURE = (r, s')"
      by (cases "fr_imx662_set_ctrl_regs x V4L2_CID_EXPOSURE")
    from fr_set_ctrl_regs_frame [OF e] e show ?thesis unfolding h_def by simp
  qed
  have "\<exists>r s'. res = Some (r, s') \<and> frame_length s' = frame_length s \<and> mode s' = mode s"
    using modify_range_cases [of "exposure s" put h s
        "uint IMX662_MIN_INTEGRATION_LINES" "fr_exposure_max s" 1 "fr_exposure_max s"]
    unfolding res_def [symmetric]
  proof (elim disjE exE)
    assume "res = Some (- ERANGE, s)"
    then show ?thesis by simp
  next
    fix c' assume "res = Some (0, put c' s)"
    then show ?thesis using p [of c'] by simp
  next
    fix c' assume "res = h (put c' s)"
    then show ?thesis using hh [of "put c' s"] p [of c'] by auto
  qed
  then show ?thesis
    unfolding fr_imx662_adjust_exposure_range_def res_def h_def put_def by auto
qed

lemma fr_set_ctrl_vblank_frame:
  "\<exists>r s'. fr_imx662_set_ctrl_vblank s = (r, s') \<and>
     frame_length s' = frame_length s \<and> mode s' = mode s"
  using fr_adjust_exposure_range_frame [of s]
  by (simp add: fr_imx662_set_ctrl_vblank_def fr_imx662_set_ctrl_regs_def)

lemma fr_update_frame_rate_frame_length:
  assumes "fr_frame_length v (line_time f) = Some fl"
  shows "\<exists>f'. fr_imx662_update_frame_rate f v = Some f' \<and> frame_length f' = fl"
proof -
  define h where "h = (\<lambda>s. Some (fr_imx662_set_ctrl_vblank s))"
  define put where "put = (\<lambda>c (s :: fr_imx662). s\<lparr>vblank := c\<rparr>)"
  define s0 where "s0 = f\<lparr>frame_length := fl\<rparr>"
  define uv where "uv = frame_length s0 - height (mode s0)"
  define res1 where "res1 = v4l2_ctrl_modify_range (vblank s0) put h s0
      (uint uv) (uint uv) 1 (uint uv)"
  have p: "frame_length (put c s) = frame_length s \<and> mode (put c s) = mode s" for c s
    unfolding put_def by simp
  have hh: "\<exists>r s'. h x = Some (r, s') \<and> frame_length s' = frame_length x \<and> mode s' = mode x"
    for x
    using fr_set_ctrl_vblank_frame [of x] unfolding h_def by simp
  have "\<exists>r s1. res1 = Some (r, s1) \<and> frame_length s1 = frame_length s0"
    using modify_range_cases [of "vblank s0" put h s0 "uint uv" "uint uv" 1 "uint uv"]
    unfolding res1_def [symmetric]
  proof (elim disjE exE)
    assume "res1 = Some (- ERANGE, s0)"
    then show ?thesis by simp
  next
    fix c' assume "res1 = Some (0, put c' s0)"
    then show ?thesis using p [of c' s0] by simp
  next
    fix c' assume "res1 = h (put c' s0)"
    then show ?thesis using hh [of "put c' s0"] p [of c' s0] by auto
  qed
  then obtain r1 s1 where r1: "res1 = Some (r1, s1)" "frame_length s1 = frame_length s0"
    by blast
  define res2 where "res2 = v4l2_ctrl_s_ctrl (vblank s1) put h s1 (sint uv)"
  have "\<exists>r s2. res2 = Some (r, s2) \<and> frame_length s2 = frame_length s1"
    using s_ctrl_cases [of "vblank s1" put h s1 "sint uv"]
    unfolding res2_def [symmetric]
  proof (elim disjE exE)
    assume "res2 = Some (0, s1)"
    then show ?thesis by simp
  next
    fix c' assume "res2 = h (put c' s1)"
    then show ?thesis using hh [of "put c' s1"] p [of c' s1] by auto
  qed
  then obtain r2 s2 where r2: "res2 = Some (r2, s2)" "frame_length s2 = frame_length s1"
    by blast
  have "fr_imx662_update_frame_rate f v = Some s2"
    unfolding fr_imx662_update_frame_rate_def assms Let_def
    using r1(1) r2(1)
    unfolding res1_def res2_def uv_def s0_def h_def put_def by simp
  moreover have "frame_length s2 = fl"
    unfolding r2(2) r1(2) s0_def by simp
  ultimately show ?thesis by blast
qed

text \<open>
  The frame-rate path: \<^verbatim>\<open>imx662_update_frame_rate\<close> moves the vertical
  blanking to \<open>frame_length - height\<close>, and when that changes the blanking the exposure
  range follows in the same call, through the blanking control's handler.
\<close>

lemma fr_frame_rate_recomputes_exposure_range:
  assumes "fr_frame_length v (line_time f) = Some fl"
    and "5 \<le> uint (height (mode f))"
    and "uint (height (mode f)) \<le> uint fl"
    and "uint fl < 2 ^ 31"
    and "val (vblank f) \<noteq> uint fl - uint (height (mode f))"
  shows "\<exists>f'. fr_imx662_update_frame_rate f v = Some f' \<and> frame_length f' = fl \<and>
      val (vblank f') = uint fl - uint (height (mode f)) \<and>
      minimum (exposure f') = 1 \<and> maximum (exposure f') = uint fl - 4 \<and>
      minimum (exposure f') \<le> val (exposure f') \<and>
      val (exposure f') \<le> maximum (exposure f')"
proof -
  define H where "H = height (mode f)"
  define U where "U = uint fl - uint H"
  define s0 where "s0 = f\<lparr>frame_length := fl\<rparr>"
  define uv where "uv = fl - H"
  define c' where "c' = (vblank f)\<lparr>minimum := U, maximum := U, step := 1,
      default_value := U, val := U\<rparr>"
  define s1 where "s1 = s0\<lparr>vblank := c'\<rparr>"
  note a = assms(2,3,4,5) [folded H_def, folded U_def]
  have U: "0 \<le> U" "U < 2 ^ 31" unfolding U_def using a(2,3) uint_ge_0 [of H] by linarith+
  have uuv: "uint uv = U"
    unfolding uv_def U_def using uint_sub_lem [where x = fl and y = H] a(2) by simp
  have suv: "sint uv = U"
  proof -
    have "signed_take_bit 31 U = U"
      using U by (intro signed_take_bit_int_eq_self) simp_all
    then show ?thesis unfolding sint_uint uuv by simp
  qed
  have UH: "U + uint H = uint fl" unfolding U_def by simp
  have b: "0 \<le> val (vblank s1)" "val (vblank s1) < 2 ^ 31"
      "5 \<le> uint (height (mode s1))" "uint (height (mode s1)) < 2 ^ 31"
    using U a(1,2,3) unfolding s1_def s0_def c'_def H_def by simp_all
  from fr_vblank_range [OF b] obtain s2 where
    s2: "fr_imx662_set_ctrl s1 V4L2_CID_VBLANK = Some (0, s2)"
      "minimum (exposure s2) = 1"
      "maximum (exposure s2) = val (vblank s1) + uint (height (mode s1)) - 4"
      "minimum (exposure s2) \<le> val (exposure s2)"
      "val (exposure s2) \<le> maximum (exposure s2)"
      "vblank s2 = vblank s1"
    by blast
  have hs: "fr_imx662_set_ctrl_vblank s1 = (0, s2)"
    using s2(1) unfolding fr_set_ctrl_vblank_handler by simp
  from fr_set_ctrl_vblank_frame [of s1] hs
  have fl2: "frame_length s2 = fl" unfolding s1_def s0_def by simp
  have mx: "maximum (exposure s2) = uint fl - 4"
    unfolding s2(3) using UH unfolding s1_def s0_def c'_def H_def by simp
  have vb: "val (vblank s2) = U" unfolding s2(6) s1_def c'_def by simp
  have m1: "v4l2_ctrl_modify_range (vblank s0) (\<lambda>c s. s\<lparr>vblank := c\<rparr>)
      (\<lambda>s. Some (fr_imx662_set_ctrl_vblank s)) s0 U U 1 U = Some (0, s2)"
  proof -
    have v0: "vblank s0 = vblank f" unfolding s0_def by simp
    have x: "U = (if val (vblank f) < U then U else if val (vblank f) > U then U
        else val (vblank f))"
      using a(4) by auto
    show ?thesis
      unfolding v0 modify_range_valid_at [OF order_refl order_refl order_refl x c'_def]
        s1_def [symmetric] hs
      using a(4) by simp
  qed
  have m2: "v4l2_ctrl_s_ctrl (vblank s2) (\<lambda>c s. s\<lparr>vblank := c\<rparr>)
      (\<lambda>s. Some (fr_imx662_set_ctrl_vblank s)) s2 U = Some (0, s2)"
    unfolding v4l2_ctrl_s_ctrl_def vb by simp
  have e: "fr_imx662_update_frame_rate f v = Some s2"
    unfolding fr_imx662_update_frame_rate_def assms(1) Let_def s0_def [symmetric]
    using m1 m2 uuv suv unfolding uv_def H_def s0_def by simp
  show ?thesis
    unfolding H_def [symmetric] U_def [symmetric]
    by (rule exI [of _ s2]) (intro conjI e fl2 vb s2(2) mx s2(4,5))
qed

text \<open>
  C5. A change of the vertical blanking reaches the driver as
  \<^verbatim>\<open>imx662_set_ctrl\<close> for \<^verbatim>\<open>V4L2_CID_VBLANK\<close>, and the exposure control's
  range is recomputed inside that call, before it returns, whatever the power state.

  In \<^verbatim>\<open>fr_imx662.c\<close> (the blanking a non-negative \<^verbatim>\<open>s32\<close>, the mode's
  height at least 5 lines, as for every mode of the driver) the call returns 0 with the
  range \<open>[1, vblank + height - 4]\<close> and the held exposure value inside it: unchanged
  when it already was, else at the nearest bound. The blanking control itself is not
  touched. When the value was not changed, or the device is not in use, no register is
  written; when it was changed on a device in use with a working bus, it is re-applied:
  \<^verbatim>\<open>SHR0\<close> is written under register hold with \<open>vblank + height - exposure\<close>.

  In \<^verbatim>\<open>imx662.c\<close>, for every mode of the driver's tables, every blanking in the
  control's range \<open>[min_VMAX - height, 0xFFFFF - height]\<close> and a non-zero
  \<^verbatim>\<open>HMAX\<close> (the divisor), the call returns with \<^verbatim>\<open>VMAX = height + vblank\<close>,
  the range \<open>[VMAX - min(VMAX - 4, 0xFFFF) + 209 / HMAX, VMAX - min_SHR + 209 / HMAX]\<close>
  and the held value inside it, unchanged or at the nearest bound.
\<close>

theorem vblank_recomputes_exposure_range:
  "(0 \<le> val (vblank s) \<and> val (vblank s) < 2 ^ 31 \<and>
    5 \<le> uint (height (mode s)) \<and> uint (height (mode s)) < 2 ^ 31 \<longrightarrow>
    (\<exists>s'. fr_imx662_set_ctrl s V4L2_CID_VBLANK = Some (0, s') \<and>
       minimum (exposure s') = 1 \<and>
       maximum (exposure s') = val (vblank s) + uint (height (mode s)) - 4 \<and>
       minimum (exposure s') \<le> val (exposure s') \<and>
       val (exposure s') \<le> maximum (exposure s') \<and>
       val (exposure s') =
         (if val (exposure s) < 1 then 1
          else if val (exposure s) > maximum (exposure s') then maximum (exposure s')
          else val (exposure s)) \<and>
       vblank s' = vblank s \<and>
       (val (exposure s') = val (exposure s) \<or> rpm_in_use s = 0 \<longrightarrow>
          regs s' = regs s \<and> wlog s' = wlog s) \<and>
       (val (exposure s') \<noteq> val (exposure s) \<and> rpm_in_use s \<noteq> 0 \<and> bus_ok s \<longrightarrow>
          (\<exists>b0 b1 b2. wlog s' = wlog s @ [(REGHOLD, 1), (SHR0_LOW, b0), (SHR0_MID, b1),
             (SHR0_HIGH, b2), (REGHOLD, 0)]) \<and>
          reg24 (regs s') SHR0_LOW =
            nat (val (vblank s) + uint (height (mode s)) - val (exposure s')) mod 2 ^ 24))) \<and>
   (HMAX r \<noteq> 0 \<and>
    rpi_cur_mode r \<in> set (supported_modes_12bit @ supported_modes_nonlinear_12bit
                             @ supported_modes_16bit) \<and>
    uint (min_VMAX (rpi_cur_mode r)) - uint (rpi_height (rpi_cur_mode r)) \<le> v \<and>
    v \<le> 0xFFFFF - uint (rpi_height (rpi_cur_mode r)) \<longrightarrow>
    (\<exists>ret r'. rpi_imx662_set_ctrl r V4L2_CID_VBLANK v junk = Some (ret, r') \<and>
       unat (VMAX r') = unat (rpi_height (rpi_cur_mode r)) + nat v \<and>
       (let VM = unat (rpi_height (rpi_cur_mode r)) + nat v;
            off = 209 div unat (HMAX r)
        in minimum (rpi_exposure r') = int (VM - min (VM - 4) 65535 + off) \<and>
           maximum (rpi_exposure r') = int (VM - unat (min_SHR (rpi_cur_mode r)) + off)) \<and>
       minimum (rpi_exposure r') \<le> val (rpi_exposure r') \<and>
       val (rpi_exposure r') \<le> maximum (rpi_exposure r') \<and>
       val (rpi_exposure r') =
         (if val (rpi_exposure r) < minimum (rpi_exposure r') then minimum (rpi_exposure r')
          else if val (rpi_exposure r) > maximum (rpi_exposure r')
               then maximum (rpi_exposure r')
          else val (rpi_exposure r))))"
proof (intro conjI impI)
  assume "0 \<le> val (vblank s) \<and> val (vblank s) < 2 ^ 31 \<and>
    5 \<le> uint (height (mode s)) \<and> uint (height (mode s)) < 2 ^ 31"
  then have "0 \<le> val (vblank s)" "val (vblank s) < 2 ^ 31"
    "5 \<le> uint (height (mode s))" "uint (height (mode s)) < 2 ^ 31"
    by simp_all
  then show "\<exists>s'. fr_imx662_set_ctrl s V4L2_CID_VBLANK = Some (0, s') \<and>
       minimum (exposure s') = 1 \<and>
       maximum (exposure s') = val (vblank s) + uint (height (mode s)) - 4 \<and>
       minimum (exposure s') \<le> val (exposure s') \<and>
       val (exposure s') \<le> maximum (exposure s') \<and>
       val (exposure s') =
         (if val (exposure s) < 1 then 1
          else if val (exposure s) > maximum (exposure s') then maximum (exposure s')
          else val (exposure s)) \<and>
       vblank s' = vblank s \<and>
       (val (exposure s') = val (exposure s) \<or> rpm_in_use s = 0 \<longrightarrow>
          regs s' = regs s \<and> wlog s' = wlog s) \<and>
       (val (exposure s') \<noteq> val (exposure s) \<and> rpm_in_use s \<noteq> 0 \<and> bus_ok s \<longrightarrow>
          (\<exists>b0 b1 b2. wlog s' = wlog s @ [(REGHOLD, 1), (SHR0_LOW, b0), (SHR0_MID, b1),
             (SHR0_HIGH, b2), (REGHOLD, 0)]) \<and>
          reg24 (regs s') SHR0_LOW =
            nat (val (vblank s) + uint (height (mode s)) - val (exposure s')) mod 2 ^ 24)"
    by (rule fr_vblank_range)
next
  assume h: "HMAX r \<noteq> 0 \<and>
    rpi_cur_mode r \<in> set (supported_modes_12bit @ supported_modes_nonlinear_12bit
                             @ supported_modes_16bit) \<and>
    uint (min_VMAX (rpi_cur_mode r)) - uint (rpi_height (rpi_cur_mode r)) \<le> v \<and>
    v \<le> 0xFFFFF - uint (rpi_height (rpi_cur_mode r))"
  then have m: "0 \<le> v" "unat (min_SHR (rpi_cur_mode r)) + 4
        \<le> unat (rpi_height (rpi_cur_mode r)) + nat v"
      "unat (rpi_height (rpi_cur_mode r)) + nat v \<le> 0xFFFFF"
      "unat (min_SHR (rpi_cur_mode r)) \<le> 0xFFFF"
    using rpi_modes_vblank_range [of "rpi_cur_mode r" v] by blast+
  from h have "HMAX r \<noteq> 0" by simp
  from rpi_vblank_range [OF this m]
  show "\<exists>ret r'. rpi_imx662_set_ctrl r V4L2_CID_VBLANK v junk = Some (ret, r') \<and>
       unat (VMAX r') = unat (rpi_height (rpi_cur_mode r)) + nat v \<and>
       (let VM = unat (rpi_height (rpi_cur_mode r)) + nat v;
            off = 209 div unat (HMAX r)
        in minimum (rpi_exposure r') = int (VM - min (VM - 4) 65535 + off) \<and>
           maximum (rpi_exposure r') = int (VM - unat (min_SHR (rpi_cur_mode r)) + off)) \<and>
       minimum (rpi_exposure r') \<le> val (rpi_exposure r') \<and>
       val (rpi_exposure r') \<le> maximum (rpi_exposure r') \<and>
       val (rpi_exposure r') =
         (if val (rpi_exposure r) < minimum (rpi_exposure r') then minimum (rpi_exposure r')
          else if val (rpi_exposure r) > maximum (rpi_exposure r')
               then maximum (rpi_exposure r')
          else val (rpi_exposure r))" .
qed


theorem vblank_recomputes_exposure_range_witness:
  "0 \<le> val (vblank fr1) \<and> val (vblank fr1) < 2 ^ 31 \<and>
   5 \<le> uint (height (mode fr1)) \<and> uint (height (mode fr1)) < 2 ^ 31 \<and>
   val (vblank fr1) = 70 \<and> uint (height (mode fr1)) = 1080 \<and>
   val (exposure fr1) = 2000 \<and> rpm_in_use fr1 \<noteq> 0 \<and> bus_ok fr1 \<and>
   (\<exists>s'. fr_imx662_set_ctrl fr1 V4L2_CID_VBLANK = Some (0, s') \<and>
      minimum (exposure s') = 1 \<and> maximum (exposure s') = 1146 \<and>
      val (exposure s') = 1146 \<and> reg24 (regs s') SHR0_LOW = 4) \<and>
   rpm_in_use (fr1\<lparr>rpm_in_use := 0\<rparr>) = 0 \<and>
   (\<exists>s'. fr_imx662_set_ctrl (fr1\<lparr>rpm_in_use := 0\<rparr>) V4L2_CID_VBLANK = Some (0, s') \<and>
      maximum (exposure s') = 1146 \<and> val (exposure s') = 1146 \<and>
      regs s' = regs fr1 \<and> wlog s' = []) \<and>
   val (exposure fr0) = 255 \<and>
   (\<exists>s'. fr_imx662_set_ctrl fr0 V4L2_CID_VBLANK = Some (0, s') \<and>
      maximum (exposure s') = 1146 \<and> val (exposure s') = 255 \<and>
      regs s' = regs fr0 \<and> wlog s' = []) \<and>
   HMAX rpi0 \<noteq> 0 \<and>
   rpi_cur_mode rpi0 \<in> set (supported_modes_12bit @ supported_modes_nonlinear_12bit
                             @ supported_modes_16bit) \<and>
   uint (min_VMAX (rpi_cur_mode rpi0)) - uint (rpi_height (rpi_cur_mode rpi0)) \<le> 150 \<and>
   (150 :: int) \<le> 0xFFFFF - uint (rpi_height (rpi_cur_mode rpi0)) \<and>
   val (rpi_exposure rpi0) = 2000 \<and>
   (\<exists>ret r'. rpi_imx662_set_ctrl rpi0 V4L2_CID_VBLANK 150 0 = Some (ret, r') \<and>
      unat (VMAX r') = 1250 \<and>
      minimum (rpi_exposure r') = 4 \<and> maximum (rpi_exposure r') = 1230 \<and>
      val (rpi_exposure r') = 1230)"
proof -
  note t = vblank_recomputes_exposure_range [of fr1 rpi0 150 0]
  have f: "0 \<le> val (vblank fr1) \<and> val (vblank fr1) < 2 ^ 31 \<and>
      5 \<le> uint (height (mode fr1)) \<and> uint (height (mode fr1)) < 2 ^ 31"
    by (simp add: fr1_def fr0_def modes_12bit_0_def)
  have fv: "val (vblank fr1) = 70" "uint (height (mode fr1)) = 1080"
      "val (exposure fr1) = 2000" "rpm_in_use fr1 \<noteq> 0" "bus_ok fr1"
    by (simp_all add: fr1_def fr0_def modes_12bit_0_def)
  from t [THEN conjunct1, THEN mp, OF f] obtain s' where
    a: "fr_imx662_set_ctrl fr1 V4L2_CID_VBLANK = Some (0, s')"
      "minimum (exposure s') = 1"
      "maximum (exposure s') = val (vblank fr1) + uint (height (mode fr1)) - 4"
    and b: "val (exposure s') =
         (if val (exposure fr1) < 1 then 1
          else if val (exposure fr1) > maximum (exposure s') then maximum (exposure s')
          else val (exposure fr1))"
    and c: "val (exposure s') \<noteq> val (exposure fr1) \<and> rpm_in_use fr1 \<noteq> 0 \<and> bus_ok fr1 \<longrightarrow>
          (\<exists>b0 b1 b2. wlog s' = wlog fr1 @ [(REGHOLD, 1), (SHR0_LOW, b0), (SHR0_MID, b1),
             (SHR0_HIGH, b2), (REGHOLD, 0)]) \<and>
          reg24 (regs s') SHR0_LOW =
            nat (val (vblank fr1) + uint (height (mode fr1)) - val (exposure s')) mod 2 ^ 24"
    by blast
  have mx: "maximum (exposure s') = 1146" using a(3) unfolding fv by simp
  have vl: "val (exposure s') = 1146" using b unfolding mx fv by simp
  have "reg24 (regs s') SHR0_LOW = 4" using c fv(4,5) unfolding vl fv(1,2,3) by simp
  with a(1,2) mx vl have i1: "\<exists>s'. fr_imx662_set_ctrl fr1 V4L2_CID_VBLANK = Some (0, s') \<and>
      minimum (exposure s') = 1 \<and> maximum (exposure s') = 1146 \<and>
      val (exposure s') = 1146 \<and> reg24 (regs s') SHR0_LOW = 4"
    by blast
  have i1a: "\<exists>s'. fr_imx662_set_ctrl (fr1\<lparr>rpm_in_use := 0\<rparr>) V4L2_CID_VBLANK = Some (0, s') \<and>
      maximum (exposure s') = 1146 \<and> val (exposure s') = 1146 \<and>
      regs s' = regs fr1 \<and> wlog s' = []"
  proof -
    define x where "x = fr1\<lparr>rpm_in_use := 0\<rparr>"
    have fx: "0 \<le> val (vblank x) \<and> val (vblank x) < 2 ^ 31 \<and>
        5 \<le> uint (height (mode x)) \<and> uint (height (mode x)) < 2 ^ 31"
      by (simp add: x_def fr1_def fr0_def modes_12bit_0_def)
    have xv: "val (vblank x) = 70" "uint (height (mode x)) = 1080"
        "val (exposure x) = 2000" "rpm_in_use x = 0" "regs x = regs fr1" "wlog x = []"
      by (simp_all add: x_def fr1_def fr0_def modes_12bit_0_def)
    from vblank_recomputes_exposure_range [of x rpi0 150 0, THEN conjunct1, THEN mp, OF fx]
    obtain s' where
      a: "fr_imx662_set_ctrl x V4L2_CID_VBLANK = Some (0, s')"
        "maximum (exposure s') = val (vblank x) + uint (height (mode x)) - 4"
      and b: "val (exposure s') =
         (if val (exposure x) < 1 then 1
          else if val (exposure x) > maximum (exposure s') then maximum (exposure s')
          else val (exposure x))"
      and c: "val (exposure s') = val (exposure x) \<or> rpm_in_use x = 0 \<longrightarrow>
          regs s' = regs x \<and> wlog s' = wlog x"
      by blast
    have mx: "maximum (exposure s') = 1146" using a(2) unfolding xv by simp
    have vl: "val (exposure s') = 1146" using b unfolding mx xv by simp
    from c xv(4) have "regs s' = regs fr1 \<and> wlog s' = []" unfolding xv(5,6) by simp
    with a(1) mx vl show ?thesis unfolding x_def by blast
  qed
  have i1b: "\<exists>s'. fr_imx662_set_ctrl fr0 V4L2_CID_VBLANK = Some (0, s') \<and>
      maximum (exposure s') = 1146 \<and> val (exposure s') = 255 \<and>
      regs s' = regs fr0 \<and> wlog s' = []"
  proof -
    have fx: "0 \<le> val (vblank fr0) \<and> val (vblank fr0) < 2 ^ 31 \<and>
        5 \<le> uint (height (mode fr0)) \<and> uint (height (mode fr0)) < 2 ^ 31"
      by (simp add: fr0_def modes_12bit_0_def)
    have xv: "val (vblank fr0) = 70" "uint (height (mode fr0)) = 1080"
        "val (exposure fr0) = 255" "wlog fr0 = []"
      by (simp_all add: fr0_def modes_12bit_0_def)
    from vblank_recomputes_exposure_range [of fr0 rpi0 150 0, THEN conjunct1, THEN mp, OF fx]
    obtain s' where
      a: "fr_imx662_set_ctrl fr0 V4L2_CID_VBLANK = Some (0, s')"
        "maximum (exposure s') = val (vblank fr0) + uint (height (mode fr0)) - 4"
      and b: "val (exposure s') =
         (if val (exposure fr0) < 1 then 1
          else if val (exposure fr0) > maximum (exposure s') then maximum (exposure s')
          else val (exposure fr0))"
      and c: "val (exposure s') = val (exposure fr0) \<or> rpm_in_use fr0 = 0 \<longrightarrow>
          regs s' = regs fr0 \<and> wlog s' = wlog fr0"
      by blast
    have mx: "maximum (exposure s') = 1146" using a(2) unfolding xv by simp
    have vl: "val (exposure s') = 255" using b unfolding mx xv by simp
    from c vl have "regs s' = regs fr0 \<and> wlog s' = []" unfolding xv(3,4) by simp
    with a(1) mx vl show ?thesis by blast
  qed
  have iu0: "rpm_in_use (fr1\<lparr>rpm_in_use := 0\<rparr>) = 0" by simp
  have e0: "val (exposure fr0) = 255" by (simp add: fr0_def)
  have g: "HMAX rpi0 \<noteq> 0 \<and>
      rpi_cur_mode rpi0 \<in> set (supported_modes_12bit @ supported_modes_nonlinear_12bit
                             @ supported_modes_16bit) \<and>
      uint (min_VMAX (rpi_cur_mode rpi0)) - uint (rpi_height (rpi_cur_mode rpi0)) \<le> 150 \<and>
      (150 :: int) \<le> 0xFFFFF - uint (rpi_height (rpi_cur_mode rpi0))"
    by (simp add: rpi0_def supported_modes_12bit_def)
  have gv: "val (rpi_exposure rpi0) = 2000" "unat (rpi_height (rpi_cur_mode rpi0)) = 1100"
      "unat (HMAX rpi0) = 990" "unat (min_SHR (rpi_cur_mode rpi0)) = 20"
    by (simp_all add: rpi0_def)
  from t [THEN conjunct2, THEN mp, OF g] obtain ret r' where
    d: "rpi_imx662_set_ctrl rpi0 V4L2_CID_VBLANK 150 0 = Some (ret, r')"
      "unat (VMAX r') = unat (rpi_height (rpi_cur_mode rpi0)) + nat 150"
    and e: "let VM = unat (rpi_height (rpi_cur_mode rpi0)) + nat 150;
            off = 209 div unat (HMAX rpi0)
        in minimum (rpi_exposure r') = int (VM - min (VM - 4) 65535 + off) \<and>
           maximum (rpi_exposure r') = int (VM - unat (min_SHR (rpi_cur_mode rpi0)) + off)"
    and h: "val (rpi_exposure r') =
         (if val (rpi_exposure rpi0) < minimum (rpi_exposure r') then minimum (rpi_exposure r')
          else if val (rpi_exposure rpi0) > maximum (rpi_exposure r')
               then maximum (rpi_exposure r')
          else val (rpi_exposure rpi0))"
    by blast
  have vm: "unat (VMAX r') = 1250" using d(2) unfolding gv by simp
  have mn: "minimum (rpi_exposure r') = 4" and mxr: "maximum (rpi_exposure r') = 1230"
    using e unfolding gv Let_def by simp_all
  have vr: "val (rpi_exposure r') = 1230" using h unfolding mn mxr gv by simp
  from d(1) vm mn mxr vr
  have i2: "\<exists>ret r'. rpi_imx662_set_ctrl rpi0 V4L2_CID_VBLANK 150 0 = Some (ret, r') \<and>
      unat (VMAX r') = 1250 \<and>
      minimum (rpi_exposure r') = 4 \<and> maximum (rpi_exposure r') = 1230 \<and>
      val (rpi_exposure r') = 1230"
    by blast
  show ?thesis
    by (intro conjI f [THEN conjunct1] f [THEN conjunct2, THEN conjunct1]
        f [THEN conjunct2, THEN conjunct2, THEN conjunct1]
        f [THEN conjunct2, THEN conjunct2, THEN conjunct2] fv i1 iu0 i1a e0 i1b
        g [THEN conjunct1] g [THEN conjunct2, THEN conjunct1]
        g [THEN conjunct2, THEN conjunct2, THEN conjunct1]
        g [THEN conjunct2, THEN conjunct2, THEN conjunct2] gv(1) i2)
qed

section \<open>Properties of the frame-rate translation \<close>

lemma imx662_write_reg_ok:
  "bus_ok s \<Longrightarrow> fst (imx662_write_reg s r v) = 0 \<and> bus_ok (snd (imx662_write_reg s r v))"
  by (simp add: imx662_write_reg_def)

lemma imx662_write_seq_ok:
  "bus_ok s \<Longrightarrow> fst (imx662_write_seq s ws) = 0 \<and> bus_ok (snd (imx662_write_seq s ws))"
proof (induction ws arbitrary: s)
  case Nil
  then show ?case by simp
next
  case (Cons w ws)
  obtain r v where w: "w = (r, v)" by (cases w)
  from Cons.prems have b: "bus_ok (snd (imx662_write_reg s r v))"
    and z: "fst (imx662_write_reg s r v) = 0"
    using imx662_write_reg_ok [of s r v] by simp_all
  from Cons.IH [OF b] z show ?case
    unfolding w by (auto split: prod.splits)
qed

lemma fps_reg_value:
  assumes "imx662_fps_reg s fps = Some v"
  shows "drop_bit 10 fps * one_line_exp_time_ns s \<noteq> 0 \<and>
     (let q = IMX662_G_FACTOR div unat (drop_bit 10 fps * one_line_exp_time_ns s);
          q' = (if index s = IMX662_DOL_INDEX then q div 2 else q)
      in unat v = (if odd q' then q' + 1 else q'))"
proof -
  define d where "d = drop_bit 10 fps * one_line_exp_time_ns s"
  define q where "q = IMX662_G_FACTOR div unat d"
  define q' where "q' = (if index s = IMX662_DOL_INDEX then q div 2 else q)"
  define w0 :: u32 where "w0 = of_nat q"
  define w1 where "w1 = (if index s = IMX662_DOL_INDEX then w0 div 2 else w0)"
  have d: "d \<noteq> 0"
    using assms unfolding imx662_fps_reg_def d_def [symmetric] Let_def
    by (auto split: if_splits)
  have v: "v = (if w1 mod 2 \<noteq> 0 then w1 + 1 else w1)"
    using assms d unfolding imx662_fps_reg_def d_def [symmetric] Let_def w1_def w0_def q_def
    by (auto split: if_splits)
  have "q \<le> IMX662_G_FACTOR" unfolding q_def by (rule div_le_dividend)
  then have q: "q \<le> 1000000000" by simp
  then have u0: "unat w0 = q" unfolding w0_def by (simp add: unat_of_nat)
  have u1: "unat w1 = q'"
    unfolding w1_def q'_def using u0 by (simp add: unat_div)
  have q'le: "q' \<le> 1000000000"
    using q div_le_dividend [of q 2] by (auto simp: q'_def)
  have par: "(w1 mod 2 \<noteq> 0) = odd q'"
  proof -
    have "(w1 mod 2 = 0) = (unat (w1 mod 2) = 0)" by (simp add: unat_eq_zero)
    also have "\<dots> = (q' mod 2 = 0)" using u1 by (simp add: unat_mod)
    finally show ?thesis by presburger
  qed
  have "unat (w1 + 1) = q' + 1"
    using u1 q'le by (simp add: unat_word_ariths)
  then have "unat v = (if odd q' then q' + 1 else q')"
    unfolding v using par u1 by simp
  then show ?thesis
    using d unfolding d_def q_def q'_def Let_def by simp
qed

lemma set_fps_frame_length_mipi:
  assumes "bus_ok s"
    and "drop_bit 10 (imx662_fps_clamp s fps which_control) * one_line_exp_time_ns s \<noteq> 0"
  shows "\<exists>s' v. imx662_set_fps s fps which_control = Some (0, s') \<and>
      curr_frm_len_lines s' = v \<and> wlog s' = wlog s @ vmax_writes v \<and>
      (let q = IMX662_G_FACTOR div
                 unat (drop_bit 10 (imx662_fps_clamp s fps which_control)
                         * one_line_exp_time_ns s);
           q' = (if index s = IMX662_DOL_INDEX then q div 2 else q)
       in unat v = (if odd q' then q' + 1 else q')) \<and>
      even (unat v)"
proof -
  define f where "f = imx662_fps_clamp s fps which_control"
  from assms(2) obtain v where v: "imx662_fps_reg s f = Some v"
    unfolding f_def [symmetric] imx662_fps_reg_def Let_def by simp
  obtain ret s1 where r: "imx662_write_seq s (vmax_writes v) = (ret, s1)"
    by (cases "imx662_write_seq s (vmax_writes v)")
  have ret: "ret = 0"
    using imx662_write_seq_ok [OF assms(1), of "vmax_writes v"] r by simp
  have w: "wlog s1 = wlog s @ vmax_writes v"
    using imx662_write_seq_wlog [of s "vmax_writes v"] r by simp
  define s' where "s' = s1\<lparr>cur_fps := f,
      max_integration_line :=
        (if index s1 = IMX662_DOL_INDEX then 2 * v - 2 - max_vsintegration_line s1
         else v - min_integration_line s1),
      curr_frm_len_lines := v\<rparr>"
  have e: "imx662_set_fps s fps which_control = Some (0, s')"
    unfolding imx662_set_fps_def f_def [symmetric] Let_def using v r ret
    by (simp add: s'_def)
  have val: "let q = IMX662_G_FACTOR div unat (drop_bit 10 f * one_line_exp_time_ns s);
                 q' = (if index s = IMX662_DOL_INDEX then q div 2 else q)
             in unat v = (if odd q' then q' + 1 else q')"
    using fps_reg_value [OF v] by simp
  then have ev: "even (unat v)" unfolding Let_def by (auto split: if_splits)
  have "curr_frm_len_lines s' = v" "wlog s' = wlog s @ vmax_writes v"
    using w by (simp_all add: s'_def)
  with e val ev show ?thesis unfolding f_def by blast
qed

lemma fr_frame_length_value:
  assumes "v * lt \<noteq> 0"
  shows "\<exists>fl. fr_frame_length v lt = Some fl \<and> even (unat fl) \<and>
     (let q = (IMX662_M_FACTOR * IMX662_G_FACTOR) div unat (v * lt)
      in q < 2 ^ 32 - 1 \<longrightarrow> unat fl = (if odd q then q + 1 else q))"
proof -
  define q where "q = (IMX662_M_FACTOR * IMX662_G_FACTOR) div unat (v * lt)"
  define w :: u32 where "w = of_nat q"
  define fl where "fl = (if w mod 2 \<noteq> 0 then w + 1 else w)"
  have e: "fr_frame_length v lt = Some fl"
    using assms unfolding fr_frame_length_def Let_def fl_def w_def q_def by simp
  have par: "(w mod 2 \<noteq> 0) = odd (unat w)"
  proof -
    have "(w mod 2 = 0) = (unat (w mod 2) = 0)" by (simp add: unat_eq_zero)
    also have "\<dots> = (unat w mod 2 = 0)" by (simp add: unat_mod)
    finally show ?thesis by presburger
  qed
  have ev: "even (unat fl)"
  proof (cases "odd (unat w)")
    case True
    then have "unat fl = (unat w + 1) mod 2 ^ 32"
      unfolding fl_def using par by (simp add: unat_word_ariths)
    moreover have b: "(unat w + 1) mod 2 = 0"
      using True by presburger
    have a: "(unat w + 1) mod 2 ^ 32 mod 2 = (unat w + 1) mod 2"
      by (rule mod_mod_cancel) simp
    have "even ((unat w + 1) mod 2 ^ 32)"
      unfolding even_iff_mod_2_eq_zero a by (rule b)
    ultimately show ?thesis by (simp only:)
  next
    case False
    then show ?thesis unfolding fl_def using par by simp
  qed
  have val: "unat fl = (if odd q then q + 1 else q)" if "q < 2 ^ 32 - 1"
  proof -
    have uw: "unat w = q" unfolding w_def using that by (simp add: unat_of_nat)
    have "unat (w + 1) = q + 1"
      using uw that by (simp add: unat_word_ariths)
    then show ?thesis unfolding fl_def using par uw by simp
  qed
  show ?thesis
    using e ev val unfolding q_def Let_def by blast
qed

lemma fr_update_frame_rate_value:
  assumes "v * line_time f \<noteq> 0"
  shows "\<exists>f'. fr_imx662_update_frame_rate f v = Some f' \<and>
     even (unat (frame_length f')) \<and>
     (let q = (IMX662_M_FACTOR * IMX662_G_FACTOR) div unat (v * line_time f)
      in q < 2 ^ 32 - 1 \<longrightarrow> unat (frame_length f') = (if odd q then q + 1 else q))"
proof -
  from fr_frame_length_value [OF assms] obtain fl where
    fl: "fr_frame_length v (line_time f) = Some fl" "even (unat fl)"
      "let q = (IMX662_M_FACTOR * IMX662_G_FACTOR) div unat (v * line_time f)
       in q < 2 ^ 32 - 1 \<longrightarrow> unat fl = (if odd q then q + 1 else q)"
    by blast
  from fr_update_frame_rate_frame_length [OF fl(1)] obtain f' where
    "fr_imx662_update_frame_rate f v = Some f'" "frame_length f' = fl"
    by blast
  then show ?thesis using fl(2,3) by auto
qed

text \<open>
  C6. For every requested frame rate with a non-zero divisor, on a working bus,
  \<^verbatim>\<open>imx662_set_fps\<close> (\<^verbatim>\<open>imx662_mipi.c\<close>) computes
  \<open>10^9 / ((fps >> 10) * line_time)\<close> from the rate clamped to the mode's range, halves
  it first in the DOL mode, rounds an odd result up by one, programs \<^verbatim>\<open>VMAX\<close>
  with the even value and stores it as the current frame length. And
  \<^verbatim>\<open>imx662_update_frame_rate\<close> (\<^verbatim>\<open>fr_imx662.c\<close>, which has no DOL mode)
  stores \<open>10^15 / (fps * line_time)\<close>, an odd result rounded up by one, as the frame
  length; it is even in every case, and is the rounded quotient whenever that fits the
  32-bit field.
\<close>

theorem set_fps_frame_length:
  "(bus_ok s \<and>
    drop_bit 10 (imx662_fps_clamp s fps which_control) * one_line_exp_time_ns s \<noteq> 0 \<longrightarrow>
    (\<exists>s' v. imx662_set_fps s fps which_control = Some (0, s') \<and>
       curr_frm_len_lines s' = v \<and> wlog s' = wlog s @ vmax_writes v \<and>
       (let q = IMX662_G_FACTOR div
                  unat (drop_bit 10 (imx662_fps_clamp s fps which_control)
                          * one_line_exp_time_ns s);
            q' = (if index s = IMX662_DOL_INDEX then q div 2 else q)
        in unat v = (if odd q' then q' + 1 else q')) \<and>
       even (unat v))) \<and>
   (rate * line_time f \<noteq> 0 \<longrightarrow>
    (\<exists>f'. fr_imx662_update_frame_rate f rate = Some f' \<and>
       even (unat (frame_length f')) \<and>
       (let q = (IMX662_M_FACTOR * IMX662_G_FACTOR) div unat (rate * line_time f)
        in q < 2 ^ 32 - 1 \<longrightarrow> unat (frame_length f') = (if odd q then q + 1 else q))))"
  using set_fps_frame_length_mipi [of s fps which_control]
    fr_update_frame_rate_value [of rate f]
  by blast

theorem set_fps_frame_length_witness:
  "bus_ok dol0 \<and>
   drop_bit 10 (imx662_fps_clamp dol0 25 1) * one_line_exp_time_ns dol0 \<noteq> 0 \<and>
   (\<exists>s'. imx662_set_fps dol0 25 1 = Some (0, s') \<and>
      curr_frm_len_lines s' = 1500 \<and> wlog s' = vmax_writes 1500) \<and>
   30000000 * line_time fr0 \<noteq> 0 \<and>
   (\<exists>f'. fr_imx662_update_frame_rate fr0 30000000 = Some f' \<and>
      unat (frame_length f') = 2500)"
proof -
  have h: "bus_ok dol0 \<and>
    drop_bit 10 (imx662_fps_clamp dol0 25 1) * one_line_exp_time_ns dol0 \<noteq> 0"
    by (simp add: dol0_def sensor0_def imx662_set_sensor_mode_def imx662_fps_clamp_def)
  have g: "30000000 * line_time fr0 \<noteq> 0"
    by (simp add: fr0_def)
  from set_fps_frame_length [of dol0 25 1 30000000 fr0] h g obtain s' v f' where
    r: "imx662_set_fps dol0 25 1 = Some (0, s')" "curr_frm_len_lines s' = v"
      "wlog s' = wlog dol0 @ vmax_writes v"
      "let q = IMX662_G_FACTOR div
                 unat (drop_bit 10 (imx662_fps_clamp dol0 25 1) * one_line_exp_time_ns dol0);
           q' = (if index dol0 = IMX662_DOL_INDEX then q div 2 else q)
       in unat v = (if odd q' then q' + 1 else q')"
    and f: "fr_imx662_update_frame_rate fr0 30000000 = Some f'"
      "let q = (IMX662_M_FACTOR * IMX662_G_FACTOR) div unat (30000000 * line_time fr0)
       in q < 2 ^ 32 - 1 \<longrightarrow> unat (frame_length f') = (if odd q then q + 1 else q)"
    by blast
  from r(4) have "unat v = 1500"
    by (simp add: dol0_def sensor0_def imx662_set_sensor_mode_def imx662_fps_clamp_def)
  then have v: "v = 1500"
    using word_unat_eq_iff [of v 1500] by simp
  from f(2) have fl: "unat (frame_length f') = 2500"
    by (simp add: fr0_def)
  from r v h g f(1) fl show ?thesis
    by (simp add: dol0_def sensor0_def imx662_set_sensor_mode_def)
qed

section \<open>Properties of the data-rate change (imx662\_mipi.c)\<close>

text \<open>
  C7. For every combination in the support matrix (594 Mbps non-binned, 594 Mbps binned,
  720 Mbps non-binned; the lane mode register may hold two or four lanes),
  \<^verbatim>\<open>imx662_set_data_rate\<close> succeeds, leaves the requested rate in
  \<^verbatim>\<open>DATARATE_SEL\<close>, programs \<^verbatim>\<open>HMAX\<close> with 990 ticks for 594 Mbps
  non-binned and 660 ticks otherwise, and stores the line time
  \<open>hmax * 10^9 / 74250000\<close>.
\<close>

theorem set_data_rate_hmax:
  assumes "bus_ok s"
    and "(data_rate, regs s ADDMODE) \<in>
           {(IMX662_594_MBPS, 0), (IMX662_594_MBPS, IMX662_BINNING_MODE), (IMX662_720_MBPS, 0)}"
  shows "\<exists>s'. imx662_set_data_rate s data_rate = (0, s') \<and>
      regs s' DATARATE_SEL = data_rate \<and>
      reg16 (regs s') HMAX_LOW =
        (if data_rate = IMX662_594_MBPS \<and> regs s ADDMODE = 0 then 990 else 660) \<and>
      unat (one_line_exp_time_ns s') =
        (reg16 (regs s') HMAX_LOW * IMX662_G_FACTOR) div IMX662_INCK"
  using assms
  by (auto simp: imx662_set_data_rate_def imx662_change_data_rate_def
      imx662_adjust_hmax_register_def imx662_read_reg_def imx662_write_reg_def reg16_def)


theorem set_data_rate_hmax_witness:
  "bus_ok sensor0 \<and>
   (IMX662_594_MBPS, regs sensor0 ADDMODE) \<in>
     {(IMX662_594_MBPS, 0), (IMX662_594_MBPS, IMX662_BINNING_MODE), (IMX662_720_MBPS, 0)} \<and>
   (\<exists>s'. imx662_set_data_rate sensor0 IMX662_594_MBPS = (0, s') \<and>
      regs s' DATARATE_SEL = IMX662_594_MBPS \<and>
      reg16 (regs s') HMAX_LOW = 990 \<and>
      unat (one_line_exp_time_ns s') = 13333)"
  using set_data_rate_hmax [of sensor0 IMX662_594_MBPS]
  by (auto simp: sensor0_def imx662_set_sensor_mode_def)

section \<open>Properties of the stream switch\<close>

text \<open>
  C8 (as the spec states it) fails for \<^verbatim>\<open>imx662_s_stream\<close> of
  \<^verbatim>\<open>imx662_mipi.c\<close>, which has no guard: a stream-start request while the stream
  status is already 1 returns 0 after writing \<^verbatim>\<open>STANDBY\<close> and
  \<^verbatim>\<open>XMSTA\<close> again.
\<close>

theorem s_stream_rewrites_counterexample:
  "stream_status (sensor0\<lparr>stream_status := 1\<rparr>) = 1 \<and>
   fst (imx662_s_stream (sensor0\<lparr>stream_status := 1\<rparr>) 1) = 0 \<and>
   wlog (sensor0\<lparr>stream_status := 1\<rparr>) = [] \<and>
   wlog (snd (imx662_s_stream (sensor0\<lparr>stream_status := 1\<rparr>) 1))
     = [(STANDBY, 0x00), (XMSTA, 0x00)]"
  by (simp add: imx662_s_stream_def imx662_write_reg_def sensor0_def
      imx662_set_sensor_mode_def)

lemma s_stream_start:
  "\<not> (gmsl s \<and> (ser_setup_rc s \<noteq> 0 \<or> dser_setup_rc s \<noteq> 0 \<or> dser_start_rc s \<noteq> 0)) \<Longrightarrow>
   fst (imx662_s_stream s 1) = 0 \<and>
   wlog (snd (imx662_s_stream s 1)) = wlog s @ [(STANDBY, 0), (XMSTA, 0)]"
  by (auto simp: imx662_s_stream_def imx662_write_reg_def Let_def)

lemma s_stream_start_error:
  "gmsl s \<and> (ser_setup_rc s \<noteq> 0 \<or> dser_setup_rc s \<noteq> 0 \<or> dser_start_rc s \<noteq> 0) \<Longrightarrow>
   fst (imx662_s_stream s 1) \<noteq> 0 \<and> wlog (snd (imx662_s_stream s 1)) = wlog s"
  by (auto simp: imx662_s_stream_def imx662_write_reg_def Let_def)

lemma s_stream_stop:
  "fst (imx662_s_stream s 0) = 0 \<and>
   wlog (snd (imx662_s_stream s 0)) = wlog s @ [(STANDBY, 1), (XMSTA, 1)]"
  by (auto simp: imx662_s_stream_def imx662_write_reg_def Let_def)

text \<open>
  C8 (as the code has it). In \<^verbatim>\<open>imx662_set_stream\<close> of
  \<^verbatim>\<open>fr_imx662.c\<close>, a stream-start request (enable = 1) while already streaming
  and a stream-stop request (enable = 0) while already stopped return 0 and leave the
  whole device state, its register-write log included, unchanged.
  \<^verbatim>\<open>imx662_s_stream\<close> of \<^verbatim>\<open>imx662_mipi.c\<close> has no such guard: in every
  state, already streaming or not, a stream-start request whose serializer/deserializer
  set-up does not fail (there is none on a plain MIPI link) returns 0 after writing
  \<^verbatim>\<open>STANDBY\<close> = 0 and \<^verbatim>\<open>XMSTA\<close> = 0, one whose set-up fails returns
  that error without a register write, and a stream-stop request returns 0 after writing
  \<^verbatim>\<open>STANDBY\<close> = 1 and \<^verbatim>\<open>XMSTA\<close> = 1.
\<close>

theorem set_stream_idempotence:
  "(streaming f \<longrightarrow> fr_imx662_set_stream f 1 = (0, f)) \<and>
   (\<not> streaming f \<longrightarrow> fr_imx662_set_stream f 0 = (0, f)) \<and>
   (\<not> (gmsl s \<and> (ser_setup_rc s \<noteq> 0 \<or> dser_setup_rc s \<noteq> 0 \<or> dser_start_rc s \<noteq> 0)) \<longrightarrow>
      fst (imx662_s_stream s 1) = 0 \<and>
      wlog (snd (imx662_s_stream s 1)) = wlog s @ [(STANDBY, 0), (XMSTA, 0)]) \<and>
   (gmsl s \<and> (ser_setup_rc s \<noteq> 0 \<or> dser_setup_rc s \<noteq> 0 \<or> dser_start_rc s \<noteq> 0) \<longrightarrow>
      fst (imx662_s_stream s 1) \<noteq> 0 \<and> wlog (snd (imx662_s_stream s 1)) = wlog s) \<and>
   fst (imx662_s_stream s 0) = 0 \<and>
   wlog (snd (imx662_s_stream s 0)) = wlog s @ [(STANDBY, 1), (XMSTA, 1)]"
  using s_stream_start [of s] s_stream_start_error [of s] s_stream_stop [of s]
  by (simp add: fr_imx662_set_stream_def)

theorem set_stream_idempotence_witness:
  "streaming (fr0\<lparr>streaming := True\<rparr>) \<and>
   fr_imx662_set_stream (fr0\<lparr>streaming := True\<rparr>) 1 = (0, fr0\<lparr>streaming := True\<rparr>) \<and>
   \<not> streaming fr0 \<and> fr_imx662_set_stream fr0 0 = (0, fr0) \<and>
   stream_status (sensor0\<lparr>stream_status := 1\<rparr>) = 1 \<and>
   \<not> gmsl (sensor0\<lparr>stream_status := 1\<rparr>) \<and>
   fst (imx662_s_stream (sensor0\<lparr>stream_status := 1\<rparr>) 1) = 0 \<and>
   wlog (snd (imx662_s_stream (sensor0\<lparr>stream_status := 1\<rparr>) 1))
     = [(STANDBY, 0), (XMSTA, 0)] \<and>
   gmsl (sensor0\<lparr>gmsl := True, ser_setup_rc := - 5\<rparr>) \<and>
   ser_setup_rc (sensor0\<lparr>gmsl := True, ser_setup_rc := - 5\<rparr>) \<noteq> 0 \<and>
   fst (imx662_s_stream (sensor0\<lparr>gmsl := True, ser_setup_rc := - 5\<rparr>) 1) \<noteq> 0 \<and>
   wlog (snd (imx662_s_stream (sensor0\<lparr>gmsl := True, ser_setup_rc := - 5\<rparr>) 1)) = []"
  using set_stream_idempotence [of "fr0\<lparr>streaming := True\<rparr>" "sensor0\<lparr>stream_status := 1\<rparr>"]
    set_stream_idempotence [of fr0 "sensor0\<lparr>gmsl := True, ser_setup_rc := - 5\<rparr>"]
  by (simp add: fr0_def sensor0_def imx662_set_sensor_mode_def)

section \<open>Properties of the black-level translation\<close>

lemma black_level_reg_value:
  assumes "unat v \<le> 4095"
  shows "unat (imx662_black_level_reg code v)
           = (if code = MEDIA_BUS_FMT_SRGGB10_1X10 then unat v else unat v div 4)"
    and "imx662_black_level_reg code v = fr_black_level_reg code v"
proof -
  have s: "signed_drop_bit 2 v = drop_bit 2 v"
    using assms by (intro signed_drop_bit_small) simp
  have "unat (drop_bit 2 v) = unat v div 4"
    by (simp only: unat_drop_bit_eq) (simp add: drop_bit_eq_div)
  with s show "unat (imx662_black_level_reg code v)
           = (if code = MEDIA_BUS_FMT_SRGGB10_1X10 then unat v else unat v div 4)"
    by (simp add: imx662_black_level_reg_def)
  from s show "imx662_black_level_reg code v = fr_black_level_reg code v"
    by (simp add: imx662_black_level_reg_def fr_black_level_reg_def)
qed

lemma black_level_write4:
  assumes "bus_ok s"
  shows "imx662_write_seq s
           [(REGHOLD, 1), (BLKLEVEL_HIGH, h), (BLKLEVEL_LOW, l), (REGHOLD, 0)]
         = (0, s\<lparr>regs := (regs s)(REGHOLD := 0, BLKLEVEL_HIGH := h, BLKLEVEL_LOW := l),
                  wlog := wlog s @
                    [(REGHOLD, 1), (BLKLEVEL_HIGH, h), (BLKLEVEL_LOW, l), (REGHOLD, 0)]\<rparr>)"
  using assms by (simp add: imx662_write_reg_def fun_upd_twist)


lemma set_black_level_reg16:
  assumes "bus_ok s" "unat v \<le> 4095"
  shows "\<exists>s'. imx662_set_black_level s v which_control = (0, s') \<and>
      reg16 (regs s') BLKLEVEL_LOW =
        (if format_code s = MEDIA_BUS_FMT_SRGGB10_1X10 then unat v else unat v div 4)"
proof -
  define r where "r = imx662_black_level_reg (format_code s) v"
  have u: "unat r = (if format_code s = MEDIA_BUS_FMT_SRGGB10_1X10 then unat v else unat v div 4)"
    unfolding r_def by (rule black_level_reg_value(1) [OF assms(2)])
  then have small: "unat r \<le> 4095" using assms(2) by (auto split: if_splits)
  have s8: "signed_drop_bit 8 r = drop_bit 8 r"
    using small by (intro signed_drop_bit_small) simp
  define h :: u8 where "h = ucast (drop_bit 8 r AND 0xff)"
  define l :: u8 where "l = ucast (r AND 0xff)"
  have uh: "unat h = unat r div 256 mod 256"
    unfolding h_def using unat_byte [of 8 r] by simp
  have ul: "unat l = unat r mod 256"
    unfolding l_def by (rule unat_byte0)
  have sum: "unat l + 256 * unat h = unat r"
    unfolding uh ul using small by (intro nat_bytes16) simp
  define s' where "s' = s\<lparr>regs := (regs s)(REGHOLD := 0, BLKLEVEL_HIGH := h, BLKLEVEL_LOW := l),
                  wlog := wlog s @
                    [(REGHOLD, 1), (BLKLEVEL_HIGH, h), (BLKLEVEL_LOW, l), (REGHOLD, 0)]\<rparr>"
  have e: "imx662_set_black_level s v which_control = (0, s')"
    unfolding imx662_set_black_level_def r_def [symmetric] Let_def s8
      h_def [symmetric] l_def [symmetric] black_level_write4 [OF assms(1)] s'_def
    by simp
  have "reg16 (regs s') BLKLEVEL_LOW = unat r"
    unfolding s'_def reg16_def using sum by simp
  with e u show ?thesis by auto
qed


lemma fr_set_blklvl_reg16:
  assumes "bus_ok f" "unat v \<le> 4095"
  shows "\<exists>f'. fr_imx662_set_blklvl f v = (0, f') \<and>
      reg16 (regs f') BLKLEVEL_LOW =
        (if fmt_code f = MEDIA_BUS_FMT_SRGGB10_1X10 then unat v else unat v div 4)"
proof -
  define r where "r = fr_black_level_reg (fmt_code f) v"
  have u: "unat r = (if fmt_code f = MEDIA_BUS_FMT_SRGGB10_1X10 then unat v else unat v div 4)"
    unfolding r_def using black_level_reg_value [OF assms(2), of "fmt_code f"] by simp
  then have small: "unat r \<le> 4095" using assms(2) by (auto split: if_splits)
  define w :: u32 where "w = ucast r"
  have uw: "unat w = unat r"
    unfolding w_def using small
    by (simp only: unsigned_ucast_eq) (simp add: take_bit_eq_mod)
  define h :: u8 where "h = ucast (drop_bit 8 w)"
  define l :: u8 where "l = ucast w"
  have uh: "unat h = unat r div 256 mod 256"
    unfolding h_def using unat_ucast_drop_u8 [of 8 w] uw by simp
  have ul: "unat l = unat r mod 256"
    unfolding l_def using unat_ucast_u8 [of w] uw by simp
  have sum: "unat l + 256 * unat h = unat r"
    unfolding uh ul using small by (intro nat_bytes16) simp
  define f' where "f' = f\<lparr>regs := (regs f)(REGHOLD := 1, BLKLEVEL_LOW := l,
                 BLKLEVEL_LOW + 1 := h, REGHOLD := 0),
            wlog := wlog f @ [(REGHOLD, 1), (BLKLEVEL_LOW, l),
                 (BLKLEVEL_LOW + 1, h), (REGHOLD, 0)]\<rparr>"
  have e: "fr_imx662_set_blklvl f v = (0, f')"
    unfolding fr_imx662_set_blklvl_def r_def [symmetric] w_def [symmetric]
      fr_write_hold_reg_2 [OF assms(1)] f'_def h_def l_def
    by simp
  have "reg16 (regs f') BLKLEVEL_LOW = unat r"
    unfolding f'_def reg16_def using sum by simp
  with e u show ?thesis by auto
qed

text \<open>
  C9 (as the code has it). For every black-level request in the 12-bit domain
  (\<open>0..4095\<close>), the value written to the black-level register, by
  \<^verbatim>\<open>imx662_set_black_level\<close> of \<^verbatim>\<open>imx662_mipi.c\<close> as by
  \<^verbatim>\<open>imx662_set_blklvl\<close> of \<^verbatim>\<open>fr_imx662.c\<close>, equals the requested
  value unshifted when the active format is 10-bit, and the requested value shifted right
  by 2 otherwise.
\<close>

theorem black_level_register:
  assumes "unat v \<le> 4095"
  shows "(bus_ok s \<longrightarrow>
       (\<exists>s'. imx662_set_black_level s v which_control = (0, s') \<and>
          reg16 (regs s') BLKLEVEL_LOW =
            (if format_code s = MEDIA_BUS_FMT_SRGGB10_1X10 then unat v else unat v div 4))) \<and>
     (bus_ok f \<longrightarrow>
       (\<exists>f'. fr_imx662_set_blklvl f v = (0, f') \<and>
          reg16 (regs f') BLKLEVEL_LOW =
            (if fmt_code f = MEDIA_BUS_FMT_SRGGB10_1X10 then unat v else unat v div 4)))"
  using set_black_level_reg16 [OF _ assms] fr_set_blklvl_reg16 [OF _ assms] by blast

theorem black_level_register_witness:
  "unat (200 :: u64) \<le> 4095 \<and> bus_ok sensor0 \<and> bus_ok fr0 \<and>
   format_code sensor0 \<noteq> MEDIA_BUS_FMT_SRGGB10_1X10 \<and>
   fmt_code fr0 \<noteq> MEDIA_BUS_FMT_SRGGB10_1X10 \<and>
   (\<exists>s'. imx662_set_black_level sensor0 200 1 = (0, s') \<and>
      reg16 (regs s') BLKLEVEL_LOW = 50) \<and>
   (\<exists>f'. fr_imx662_set_blklvl fr0 200 = (0, f') \<and> reg16 (regs f') BLKLEVEL_LOW = 50)"
  using black_level_register [of 200 sensor0 1 fr0]
  by (simp add: sensor0_def imx662_set_sensor_mode_def fr0_def)

text \<open>
  C9 (as the spec states it) fails in both directions: with the 10-bit format a request
  of 200 programs 200, not \<open>200 >> 2 = 50\<close>, and with the 12-bit format it programs 50,
  not 200.
\<close>

theorem black_level_shift_counterexample:
  "format_code (sensor0\<lparr>format_code := MEDIA_BUS_FMT_SRGGB10_1X10\<rparr>)
     = MEDIA_BUS_FMT_SRGGB10_1X10 \<and>
   wlog (snd (imx662_set_black_level
      (sensor0\<lparr>format_code := MEDIA_BUS_FMT_SRGGB10_1X10\<rparr>) 200 1))
     = [(REGHOLD, 1), (BLKLEVEL_HIGH, 0), (BLKLEVEL_LOW, 200), (REGHOLD, 0)] \<and>
   drop_bit 2 (200 :: u64) = 50 \<and>
   format_code sensor0 = MEDIA_BUS_FMT_SRGGB12_1X12 \<and>
   wlog (snd (imx662_set_black_level sensor0 200 1))
     = [(REGHOLD, 1), (BLKLEVEL_HIGH, 0), (BLKLEVEL_LOW, 50), (REGHOLD, 0)]"
  by (simp add: imx662_set_black_level_def imx662_black_level_reg_def imx662_write_reg_def
      sensor0_def imx662_set_sensor_mode_def)

section \<open>Properties of the ESP-IDF front-end's exposure\<close>

lemma and_0f: "(x :: 'a::len word) AND 0x0F = take_bit 4 x"
  by (simp add: take_bit_eq_mask mask_eq_exp_minus_1)

lemma esp_vmax_bytes:
  "esp_vmax (ucast (x AND 0xFF)) (ucast (drop_bit 8 x AND 0xFF))
     (ucast (drop_bit 16 x AND 0x0F)) = take_bit 20 x"
  unfolding and_ff and_0f esp_vmax_def
  by (rule bit_word_eqI) (auto simp: bit_simps)


lemma esp_set_exposure_ok:
  assumes "bus_ok dev"
  shows "esp_imx662_set_exposure dev u expo =
     (let shr0 = esp_shr0 (esp_vmax (regs dev VMAX_LOW) (regs dev VMAX_MID)
                   (regs dev VMAX_HIGH)) expo;
          l = ucast (shr0 AND 0xFF); m = ucast (drop_bit 8 shr0 AND 0xFF);
          h = ucast (drop_bit 16 shr0 AND 0x0F)
      in (0, dev\<lparr>regs := (regs dev)(SHR0_LOW := l, SHR0_MID := m, SHR0_HIGH := h),
                 wlog := wlog dev @ [(SHR0_LOW, l), (SHR0_MID, m), (SHR0_HIGH, h)]\<rparr>))"
  using assms
  by (cases u) (simp add: esp_imx662_set_exposure_def esp_imx662_read_def
      esp_imx662_write_def Let_def)

lemma esp_vmax_unat:
  "unat (esp_vmax l m h) = unat l + 256 * unat m + 65536 * unat h"
proof -
  have o1: "(push_bit 8 (ucast m) :: u32) OR push_bit 16 (ucast h)
      = push_bit 8 (ucast m) + push_bit 16 (ucast h)"
    by (rule disjunctive_add [symmetric]) (auto simp: bit_simps dest: bit_imp_le_length)
  have o2: "(ucast l :: u32) OR (push_bit 8 (ucast m) + push_bit 16 (ucast h))
      = ucast l + (push_bit 8 (ucast m) + push_bit 16 (ucast h))"
    unfolding o1 [symmetric]
    by (rule disjunctive_add [symmetric]) (auto simp: bit_simps dest: bit_imp_le_length)
  have e: "esp_vmax l m h = ucast l + (256 * ucast m + 65536 * ucast h)"
    unfolding esp_vmax_def o1 o2 by (simp add: push_bit_eq_mult)
  have l: "unat l < 256" and m: "unat m < 256" and h: "unat h < 256"
    by (rule unat_u8_less)+
  define n where "n = unat l + 256 * unat m + 65536 * unat h"
  have "esp_vmax l m h = of_nat n"
    unfolding e n_def by (simp add: unat_ucast_up_u8 [symmetric])
  moreover have "n < 2 ^ 32"
    unfolding n_def using l m h by simp
  then have "unat (of_nat n :: u32) = n"
    by (simp only: unat_of_nat) (simp add: take_bit_eq_mod)
  ultimately show ?thesis
    unfolding n_def by simp
qed


lemma esp_shr0_unat:
  "unat (esp_shr0 vmax expo) =
     max 11 (if unat expo \<le> unat vmax then unat vmax - unat expo
             else unat vmax + 2 ^ 32 - unat expo)"
proof -
  have d: "unat (vmax - expo) =
      (if unat expo \<le> unat vmax then unat vmax - unat expo
       else unat vmax + 2 ^ 32 - unat expo)"
    by (simp add: unat_sub_if_size word_size)
  have "unat (esp_shr0 vmax expo) = max 11 (unat (vmax - expo))"
    by (auto simp: esp_shr0_def Let_def max_def word_less_nat_alt)
  then show ?thesis unfolding d .
qed

lemma mod_offset: "r < n \<Longrightarrow> (k * n + r) mod n = (r :: nat)"
  by simp

lemma wrap_mod_small:
  assumes "(V :: nat) < E" "E < 1048576"
  shows "(V + 4294967296 - E) mod 1048576 = 1048576 + V - E"
proof -
  define r where "r = 1048576 + V - E"
  have "V + 4294967296 - E = 4095 * 1048576 + r"
    unfolding r_def using assms by simp
  moreover have "r < 1048576"
    unfolding r_def using assms by simp
  ultimately show ?thesis
    unfolding r_def [symmetric] by (simp only: mod_offset)
qed

text \<open>
  C10. In \<^verbatim>\<open>imx662_set_exposure\<close> of the ESP-IDF front-end, on a working bus,
  with \<open>VMAX\<close> the three bytes read back from the device (a 20-bit register, so the
  high byte read back is at most \<open>0x0F\<close>) and \<open>SHR0\<close> the three bytes written: for
  every request with \<open>exposure \<le> VMAX\<close> the value written is
  \<open>max(11, VMAX - exposure)\<close>. For every request with \<open>exposure > VMAX\<close> the
  subtraction wraps to \<open>VMAX + 2^32 - exposure\<close>, of which (raised to 11) the low 20
  bits are written; for an exposure below \<open>2^20\<close> that is
  \<open>2^20 + VMAX - exposure\<close>, a shutter position beyond the frame length.
\<close>

theorem esp_set_exposure_shr0:
  assumes "bus_ok dev"
    and "regs dev VMAX_HIGH \<le> 0x0F"
  shows "\<exists>dev'. esp_imx662_set_exposure dev u expo = (ESP_OK, dev') \<and>
     wlog dev' = wlog dev @ [(SHR0_LOW, regs dev' SHR0_LOW), (SHR0_MID, regs dev' SHR0_MID),
                             (SHR0_HIGH, regs dev' SHR0_HIGH)] \<and>
     (let V = reg24 (regs dev) VMAX_LOW; W = reg24 (regs dev') SHR0_LOW
      in (unat expo \<le> V \<longrightarrow> W = max 11 (V - unat expo)) \<and>
         (V < unat expo \<longrightarrow> W = max 11 (V + 2 ^ 32 - unat expo) mod 2 ^ 20) \<and>
         (V < unat expo \<and> unat expo < 2 ^ 20 \<longrightarrow>
            W = 2 ^ 20 + V - unat expo \<and> V < W))"
proof -
  define vmax where
    "vmax = esp_vmax (regs dev VMAX_LOW) (regs dev VMAX_MID) (regs dev VMAX_HIGH)"
  define shr0 where "shr0 = esp_shr0 vmax expo"
  define l :: u8 where "l = ucast (shr0 AND 0xFF)"
  define m :: u8 where "m = ucast (drop_bit 8 shr0 AND 0xFF)"
  define h :: u8 where "h = ucast (drop_bit 16 shr0 AND 0x0F)"
  define dev' where "dev' = dev\<lparr>regs := (regs dev)(SHR0_LOW := l, SHR0_MID := m, SHR0_HIGH := h),
      wlog := wlog dev @ [(SHR0_LOW, l), (SHR0_MID, m), (SHR0_HIGH, h)]\<rparr>"
  define V where "V = reg24 (regs dev) VMAX_LOW"
  define W where "W = reg24 (regs dev') SHR0_LOW"
  define E where "E = unat expo"
  have e: "esp_imx662_set_exposure dev u expo = (0, dev')"
    unfolding esp_set_exposure_ok [OF assms(1)] vmax_def [symmetric] Let_def
      shr0_def [symmetric] dev'_def l_def m_def h_def by simp
  have lg: "wlog dev' = wlog dev @ [(SHR0_LOW, regs dev' SHR0_LOW),
      (SHR0_MID, regs dev' SHR0_MID), (SHR0_HIGH, regs dev' SHR0_HIGH)]"
    unfolding dev'_def by simp
  have V: "V = unat vmax"
    unfolding V_def vmax_def reg24_def esp_vmax_unat by simp
  have "unat (regs dev VMAX_HIGH) \<le> 15"
    using assms(2) by (simp add: word_le_nat_alt)
  then have V20: "V < 1048576"
    using unat_u8_less [of "regs dev VMAX_LOW"] unat_u8_less [of "regs dev VMAX_MID"]
    unfolding V_def reg24_def by simp
  have "W = unat (esp_vmax l m h)"
    unfolding W_def dev'_def reg24_def esp_vmax_unat by simp
  also have "esp_vmax l m h = take_bit 20 shr0"
    unfolding l_def m_def h_def by (rule esp_vmax_bytes)
  also have "unat (take_bit 20 shr0) = unat shr0 mod 1048576"
    by (simp only: unsigned_take_bit_eq) (simp add: take_bit_eq_mod)
  finally have W: "W = max 11 (if E \<le> V then V - E else V + 4294967296 - E) mod 1048576"
    unfolding shr0_def esp_shr0_unat V E_def by simp
  have c1: "W = max 11 (V - E)" if "E \<le> V"
  proof -
    have "max 11 (V - E) < 1048576" using V20 by simp
    then show ?thesis unfolding W using that by simp
  qed
  have c2: "W = max 11 (V + 4294967296 - E) mod 1048576" if "V < E"
    unfolding W using that by simp
  have c3: "W = 1048576 + V - E \<and> V < W" if "V < E" "E < 1048576"
  proof -
    have "max 11 (V + 4294967296 - E) = V + 4294967296 - E"
      using that by simp
    then have "W = 1048576 + V - E"
      unfolding c2 [OF that(1)] using wrap_mod_small [OF that] by simp
    then show ?thesis using that by simp
  qed
  have d1: "E \<le> V \<longrightarrow> W = max 11 (V - E)"
    using c1 by blast
  have d2: "V < E \<longrightarrow> W = max 11 (V + 2 ^ 32 - E) mod 2 ^ 20"
    using c2 by simp
  have d3: "V < E \<and> E < 2 ^ 20 \<longrightarrow> W = 2 ^ 20 + V - E \<and> V < W"
  proof (intro impI)
    assume "V < E \<and> E < 2 ^ 20"
    then have "V < E" "E < 1048576" by simp_all
    from c3 [OF this] show "W = 2 ^ 20 + V - E \<and> V < W" by simp
  qed
  show ?thesis
    apply (intro exI [of _ dev'])
    unfolding Let_def V_def [symmetric] W_def [symmetric] E_def [symmetric]
    using e lg d1 d2 d3 by blast
qed

theorem esp_set_exposure_shr0_witness:
  "bus_ok esp_dev0 \<and> regs esp_dev0 VMAX_HIGH \<le> 0x0F \<and>
   reg24 (regs esp_dev0) VMAX_LOW = 1250 \<and>
   (\<exists>dev'. esp_imx662_set_exposure esp_dev0 (0, 0, 0) 1000 = (ESP_OK, dev') \<and>
      reg24 (regs dev') SHR0_LOW = 250) \<and>
   (\<exists>dev'. esp_imx662_set_exposure esp_dev0 (0, 0, 0) 1245 = (ESP_OK, dev') \<and>
      reg24 (regs dev') SHR0_LOW = 11) \<and>
   (\<exists>dev'. esp_imx662_set_exposure esp_dev0 (0, 0, 0) 1251 = (ESP_OK, dev') \<and>
      reg24 (regs dev') SHR0_LOW = 1048575) \<and>
   (\<exists>dev'. esp_imx662_set_exposure esp_dev0 (0, 0, 0) 4293919965 = (ESP_OK, dev') \<and>
      reg24 (regs dev') SHR0_LOW = 5)"
proof -
  have b: "bus_ok esp_dev0" and h: "regs esp_dev0 VMAX_HIGH \<le> 0x0F"
    by (simp_all add: esp_dev0_def)
  have v: "reg24 (regs esp_dev0) VMAX_LOW = 1250"
    by (simp add: esp_dev0_def reg24_def)
  show ?thesis
    using esp_set_exposure_shr0 [OF b h, of "(0, 0, 0)" 1000]
      esp_set_exposure_shr0 [OF b h, of "(0, 0, 0)" 1245]
      esp_set_exposure_shr0 [OF b h, of "(0, 0, 0)" 1251]
      esp_set_exposure_shr0 [OF b h, of "(0, 0, 0)" 4293919965] b h
    unfolding v Let_def
    by auto
qed

end
